(* ===== verification/Go_Prelude.thy ===== *)
theory Go_Prelude
  imports Main "HOL-Library.Sublist" "HOL-Library.AList" "HOL-Library.Multiset" "HOL-Library.Word"
begin

text \<open>
  The part of the Go language and of its standard library that the program uses everywhere:
  durations and instants (package time), decimal printing, prefixes and case folding of byte
  strings (fmt, strings), the conversion to a 32-bit integer, and format calls.

  A Go string is a sequence of bytes and is modelled as a \<^typ>\<open>string\<close>, that is a list of
  8-bit characters. A \<open>time.Duration\<close> and a \<open>time.Time\<close> are integers, counted in
  nanoseconds and, for instants, from the Unix epoch; where the 64 bits of a duration matter the
  operation below saturates or wraps as Go's does. A call of \<open>fmt.Sprintf\<close> whose text is
  only shown to people is kept as its format and its arguments (\<open>message\<close>).
\<close>

section \<open>Collections of facts\<close>

named_theorems go_simps \<open>rewriting rules for the Go runtime functions\<close>

section \<open>Time\<close>

type_synonym duration = int
type_synonym time = int

abbreviation Millisecond :: duration where "Millisecond \<equiv> 1000000"
abbreviation Second :: duration where "Second \<equiv> 1000000000"
abbreviation Minute :: duration where "Minute \<equiv> 60000000000"

abbreviation maxDuration :: duration where "maxDuration \<equiv> 9223372036854775807"
abbreviation minDuration :: duration where "minDuration \<equiv> - 9223372036854775808"

text \<open>\<open>Time.Add\<close> and \<open>Time.After\<close> on instants; \<open>Time.Sub\<close> saturates.\<close>

definition time_add :: "time \<Rightarrow> duration \<Rightarrow> time" where
  "time_add t d = t + d"

definition after :: "time \<Rightarrow> time \<Rightarrow> bool" where
  "after t u \<longleftrightarrow> u < t"

definition time_sub :: "time \<Rightarrow> time \<Rightarrow> duration" where
  "time_sub t u = max minDuration (min maxDuration (t - u))"

text \<open>\<open>Time.Unix\<close>: whole seconds since the epoch, rounded down.\<close>

definition unix :: "time \<Rightarrow> int" where
  "unix t = t div Second"

text \<open>\<open>+\<close> on two durations is 64-bit addition: it wraps around.\<close>

definition wrap64 :: "int \<Rightarrow> int" where
  "wrap64 i = (i + 2 ^ 63) mod 2 ^ 64 - 2 ^ 63"

definition dur_add :: "duration \<Rightarrow> duration \<Rightarrow> duration" where
  "dur_add a b = wrap64 (a + b)"

text \<open>The conversion \<open>int32(i)\<close> keeps the low 32 bits.\<close>

definition int32 :: "int \<Rightarrow> int" where
  "int32 i = (i + 2 ^ 31) mod 2 ^ 32 - 2 ^ 31"

text \<open>Integer division of Go truncates towards zero.\<close>

definition quot :: "int \<Rightarrow> int \<Rightarrow> int" where
  "quot a b = sgn a * sgn b * (\<bar>a\<bar> div \<bar>b\<bar>)"

text \<open>
  \<open>Duration.Round(m)\<close>: the nearest multiple of \<open>m\<close>, halfway values away from zero, the
  extreme durations when the rounded value does not fit.
\<close>

definition dur_round :: "duration \<Rightarrow> duration \<Rightarrow> duration" where
  "dur_round d m =
     (if m \<le> 0 then d
      else let r = \<bar>d\<bar> mod m in
        if d < 0 then
          (if r + r < m then d + r
           else if minDuration \<le> d - m + r then d - m + r else minDuration)
        else
          (if r + r < m then d - r
           else if d + m - r \<le> maxDuration then d + m - r else maxDuration))"

lemma wrap64_id [go_simps]: "minDuration \<le> i \<Longrightarrow> i \<le> maxDuration \<Longrightarrow> wrap64 i = i"
  by (simp add: wrap64_def)

lemma wrap64_bounds: "minDuration \<le> wrap64 i \<and> wrap64 i \<le> maxDuration"
proof -
  have "0 \<le> (i + 2 ^ 63) mod 2 ^ 64" and "(i + 2 ^ 63) mod 2 ^ 64 < (2 ^ 64 :: int)"
    by simp_all
  then show ?thesis by (simp add: wrap64_def)
qed

lemma int32_id [go_simps]: "- (2 ^ 31) \<le> i \<Longrightarrow> i < 2 ^ 31 \<Longrightarrow> int32 i = i"
  by (simp add: int32_def)

lemma time_sub_exact [go_simps]:
  "minDuration \<le> t - u \<Longrightarrow> t - u \<le> maxDuration \<Longrightarrow> time_sub t u = t - u"
  by (simp add: time_sub_def)

lemma dur_round_near:
  assumes "0 < m" and "minDuration \<le> d - m" and "d + m \<le> maxDuration"
  shows "2 * \<bar>dur_round d m - d\<bar> \<le> m \<and> m dvd dur_round d m"
proof -
  define r where "r = \<bar>d\<bar> mod m"
  have r: "0 \<le> r" "r < m" using assms(1) by (simp_all add: r_def)
  have dv: "m dvd \<bar>d\<bar> - r" by (simp add: r_def dvd_minus_mod)
  have eq: "dur_round d m = (if d < 0 then (if r + r < m then d + r else d - m + r)
      else (if r + r < m then d - r else d + m - r))"
    unfolding dur_round_def Let_def r_def [symmetric] using assms r by auto
  show ?thesis
  proof (cases "d < 0")
    case True
    with dv have "m dvd d + r" by (simp add: abs_if) (metis diff_minus_eq_add dvd_minus_iff minus_diff_eq add.commute)
    moreover from this have "m dvd d - m + r"
      by (metis add_diff_eq diff_add_eq dvd_diff dvd_refl add.commute)
    ultimately show ?thesis
      using True r by (auto simp: eq)
  next
    case False
    with dv have "m dvd d - r" by simp
    moreover from this have "m dvd d + m - r"
      by (metis add_diff_eq add.commute dvd_add dvd_refl)
    ultimately show ?thesis
      using False r by (auto simp: eq)
  qed
qed

section \<open>Strings\<close>

text \<open>\<open>strings.HasPrefix\<close>.\<close>

definition hasPrefix :: "string \<Rightarrow> string \<Rightarrow> bool" where
  "hasPrefix s p \<longleftrightarrow> prefix p s"

lemma hasPrefix_iff: "hasPrefix s p \<longleftrightarrow> (\<exists>t. s = p @ t)"
  by (auto simp: hasPrefix_def prefix_def)

text \<open>The verbs \<open>%d\<close> and \<open>%v\<close> on integers and on lists of integers.\<close>

definition digit_char :: "nat \<Rightarrow> char" where
  "digit_char n = char_of (48 + n)"

fun nat_str :: "nat \<Rightarrow> string" where
  "nat_str n = (if n < 10 then [digit_char n] else nat_str (n div 10) @ [digit_char (n mod 10)])"

declare nat_str.simps [simp del]

definition itoa :: "int \<Rightarrow> string" where
  "itoa i = (if i < 0 then ''-'' @ nat_str (nat (- i)) else nat_str (nat i))"

definition intercalate :: "string \<Rightarrow> string list \<Rightarrow> string" where
  "intercalate sep xs = (case xs of [] \<Rightarrow> [] | y # ys \<Rightarrow> foldl (\<lambda>acc z. acc @ sep @ z) y ys)"

definition int_list_str :: "int list \<Rightarrow> string" where
  "int_list_str xs = ''['' @ intercalate '' '' (map itoa xs) @ '']''"

text \<open>Reading a decimal back: the printed form of an integer determines the integer.\<close>

definition digits_val :: "string \<Rightarrow> nat" where
  "digits_val s = foldl (\<lambda>acc c. 10 * acc + (of_char c - 48)) 0 s"

lemma digits_val_snoc: "digits_val (s @ [c]) = 10 * digits_val s + (of_char c - 48)"
  by (simp add: digits_val_def)

lemma of_char_digit: "d < 10 \<Longrightarrow> of_char (digit_char d) = (48 + d :: nat)"
  by (simp add: digit_char_def)

lemma digits_val_nat_str: "digits_val (nat_str n) = n"
proof (induction n rule: nat_str.induct)
  case (1 n)
  show ?case
  proof (cases "n < 10")
    case True
    then show ?thesis by (subst nat_str.simps) (simp add: digits_val_def of_char_digit)
  next
    case False
    with "1.IH" show ?thesis
      by (subst nat_str.simps) (simp add: digits_val_snoc of_char_digit)
  qed
qed

lemma nat_str_inj: "nat_str m = nat_str n \<longleftrightarrow> m = n"
  by (metis digits_val_nat_str)

lemma nat_str_digits: "c \<in> set (nat_str n) \<Longrightarrow> 48 \<le> (of_char c :: nat) \<and> (of_char c :: nat) < 58"
proof (induction n rule: nat_str.induct)
  case (1 n)
  then show ?case
    by (subst (asm) (2) nat_str.simps) (auto simp: of_char_digit split: if_splits)
qed

lemma nat_str_no_minus: "CHR ''-'' \<notin> set (nat_str n)"
  using nat_str_digits [of "CHR ''-''" n] by auto

lemma itoa_inj: "itoa i = itoa j \<longleftrightarrow> i = j"
proof
  assume eq: "itoa i = itoa j"
  have neq: "''-'' @ nat_str a \<noteq> nat_str b" for a b
    using nat_str_no_minus [of b] by (metis append_Cons list.set_intros(1))
  show "i = j"
    using eq neq by (auto simp: itoa_def nat_str_inj split: if_splits) metis+
qed simp

section \<open>Format calls\<close>

text \<open>The arguments of a format call, and the call itself: its format string and arguments.\<close>

datatype fmt_arg = AStr string | AInt int | ADur duration | ATime time | AMsg message | AErr string
     and message = Sprintf string "fmt_arg list"

section \<open>Lists, options and maps\<close>

text \<open>The optional field of a struct with its default (\<open>ptr.Deref\<close>, or an explicit nil test).\<close>

definition deref :: "'a option \<Rightarrow> 'a \<Rightarrow> 'a" where
  "deref p d = (case p of None \<Rightarrow> d | Some v \<Rightarrow> v)"

lemma deref_simps [simp]: "deref None d = d" "deref (Some v) d = v"
  by (simp_all add: deref_def)

lemma map_of_mset_cong:
  assumes "distinct (map fst xs)" and "mset xs = mset ys"
  shows "map_of xs = map_of ys"
proof -
  from assms(2) have "mset (map fst xs) = mset (map fst ys)" by (metis mset_map)
  with assms(1) have "distinct (map fst ys)" by (metis mset_eq_imp_distinct_iff)
  moreover from assms(2) have "set xs = set ys" by (rule mset_eq_setD)
  ultimately show ?thesis using assms(1) by (metis map_of_inject_set)
qed

lemma filter_length_split: "length xs = length (filter P xs) + length (filter (\<lambda>x. \<not> P x) xs)"
  by (simp add: sum_length_filter_compl)

end
