(* ===== verification/Go_Net.thy ===== *)
theory Go_Net
  imports Go_Prelude
begin

unbundle bit_operations_syntax

text \<open>
  The functions of the standard library's packages net, net/netip, net/textproto and strings that
  the probes call: splitting \<open>host:port\<close>, parsing an IP address, the address classes of the
  target guard, header keys and case-insensitive comparison. An IP is the 16-byte form that
  \<open>net.ParseIP\<close> returns, a list of numbers below 256.
\<close>

section \<open>Searching strings\<close>

definition index_of :: "char \<Rightarrow> string \<Rightarrow> nat option" where
  "index_of c s = (if c \<in> set s then Some (length (takeWhile (\<lambda>x. x \<noteq> c) s)) else None)"

definition last_index_of :: "char \<Rightarrow> string \<Rightarrow> nat option" where
  "last_index_of c s =
     (if c \<in> set s then Some (length s - 1 - length (takeWhile (\<lambda>x. x \<noteq> c) (rev s))) else None)"

section \<open>Splitting an address\<close>

datatype addr_error =
  MissingPort | TooManyColons | MissingBracket | UnexpectedOpen | UnexpectedClose

definition split_finish :: "string \<Rightarrow> string \<Rightarrow> nat \<Rightarrow> nat \<Rightarrow> nat \<Rightarrow> addr_error + string \<times> string" where
  "split_finish hp host j k i =
     (if CHR ''['' \<in> set (drop j hp) then Inl UnexpectedOpen
      else if CHR '']'' \<in> set (drop k hp) then Inl UnexpectedClose
      else Inr (host, drop (i + 1) hp))"

definition splitHostPort :: "string \<Rightarrow> addr_error + string \<times> string" where
  "splitHostPort hp =
     (case last_index_of (CHR '':'') hp of
        None \<Rightarrow> Inl MissingPort
      | Some i \<Rightarrow>
          if hd hp = CHR ''['' then
            (case index_of (CHR '']'') hp of
               None \<Rightarrow> Inl MissingBracket
             | Some e \<Rightarrow>
                 if e + 1 = length hp then Inl MissingPort
                 else if e + 1 = i then split_finish hp (take (e - 1) (drop 1 hp)) 1 (e + 1) i
                 else if hp ! (e + 1) = CHR '':'' then Inl TooManyColons
                 else Inl MissingPort)
          else if CHR '':'' \<in> set (take i hp) then Inl TooManyColons
          else split_finish hp (take i hp) 0 0 i)"

section \<open>Parsing an IP\<close>

definition dec_digit :: "char \<Rightarrow> nat option" where
  "dec_digit c = (let n = of_char c in if 48 \<le> n \<and> n \<le> 57 then Some (n - 48) else None)"

definition hex_digit :: "char \<Rightarrow> nat option" where
  "hex_digit c =
     (let n = of_char c in
      if 48 \<le> n \<and> n \<le> 57 then Some (n - 48)
      else if 97 \<le> n \<and> n \<le> 102 then Some (n - 87)
      else if 65 \<le> n \<and> n \<le> 70 then Some (n - 55) else None)"

text \<open>
  \<open>parseIPv4Fields\<close>: the loop over the bytes with the current value, the number of digits of
  the current octet, the octets read, and whether the byte is the first or follows a dot.
\<close>

fun parse_v4 :: "string \<Rightarrow> bool \<Rightarrow> bool \<Rightarrow> nat \<Rightarrow> nat \<Rightarrow> nat list \<Rightarrow> nat list option" where
  "parse_v4 [] first dot v n fs = (if length fs < 3 then None else Some (fs @ [v]))"
| "parse_v4 (c # cs) first dot v n fs =
     (case dec_digit c of
        Some d \<Rightarrow>
          if n = 1 \<and> v = 0 then None
          else if 10 * v + d > 255 then None
          else parse_v4 cs False False (10 * v + d) (n + 1) fs
      | None \<Rightarrow>
          if c = CHR ''.'' then
            (if first \<or> cs = [] \<or> dot then None
             else if length fs = 3 then None
             else parse_v4 cs False True 0 0 (fs @ [v]))
          else None)"

definition v4_octets :: "string \<Rightarrow> nat list option" where
  "v4_octets s = parse_v4 s True False 0 0 []"

definition v4_prefix :: "nat list" where
  "v4_prefix = [0, 0, 0, 0, 0, 0, 0, 0, 0, 0, 255, 255]"

text \<open>\<open>parseIPv6\<close>: the groups read so far and the position of the ellipsis.\<close>

definition v6_finish :: "nat list \<Rightarrow> nat option \<Rightarrow> nat list option" where
  "v6_finish ip ell =
     (if length ip < 16 then
        (case ell of None \<Rightarrow> None
         | Some e \<Rightarrow> Some (take e ip @ replicate (16 - length ip) 0 @ drop e ip))
      else if ell \<noteq> None then None else Some ip)"

definition hex_value :: "string \<Rightarrow> nat" where
  "hex_value s = foldl (\<lambda>acc c. 16 * acc + deref (hex_digit c) 0) 0 s"

text \<open>One turn of the loop reads a group: it ends the parse or gives the rest to read.\<close>

datatype v6_next = V6_Done "nat list option" | V6_More string "nat list" "nat option"

definition v6_group :: "string \<Rightarrow> nat list \<Rightarrow> nat option \<Rightarrow> v6_next" where
  "v6_group s ip ell =
     (let h = takeWhile (\<lambda>c. hex_digit c \<noteq> None) s; rest = drop (length h) s;
          ip' = ip @ [hex_value h div 256, hex_value h mod 256] in
        if length h > 4 then V6_Done None
        else if h = [] then V6_Done None
        else if rest \<noteq> [] \<and> hd rest = CHR ''.'' then
          (if ell = None \<and> length ip \<noteq> 12 then V6_Done None
           else if length ip + 4 > 16 then V6_Done None
           else case v4_octets s of
                  None \<Rightarrow> V6_Done None | Some fs \<Rightarrow> V6_Done (v6_finish (ip @ fs) ell))
        else if rest = [] then V6_Done (v6_finish ip' ell)
        else if hd rest \<noteq> CHR '':'' then V6_Done None
        else if tl rest = [] then V6_Done None
        else if hd (tl rest) = CHR '':'' then
          (if ell \<noteq> None then V6_Done None
           else if tl (tl rest) = [] then V6_Done (v6_finish ip' (Some (length ip')))
           else V6_More (tl (tl rest)) ip' (Some (length ip')))
        else V6_More (tl rest) ip' ell)"

lemma v6_group_More: "v6_group s ip ell = V6_More s' ip' ell' \<Longrightarrow> length ip' = length ip + 2"
  by (auto simp: v6_group_def Let_def split: if_splits option.splits)

function v6_loop :: "string \<Rightarrow> nat list \<Rightarrow> nat option \<Rightarrow> nat list option" where
  "v6_loop s ip ell =
     (if 16 \<le> length ip then None
      else case v6_group s ip ell of
             V6_Done r \<Rightarrow> r
           | V6_More s' ip' ell' \<Rightarrow> v6_loop s' ip' ell')"
  by pat_completeness auto
termination
  by (relation "measure (\<lambda>(s, ip, ell). 16 - length ip)") (auto dest: v6_group_More)

declare v6_loop.simps [simp del]

definition parse_v6 :: "string \<Rightarrow> nat list option" where
  "parse_v6 s =
     (if take 2 s = ''::'' then
        (if drop 2 s = [] then Some (replicate 16 0) else v6_loop (drop 2 s) [] (Some 0))
      else v6_loop s [] None)"

text \<open>
  \<open>net.ParseIP\<close>: the first dot, colon or percent sign decides the family; an address with a
  zone is not an IP.
\<close>

definition parseIP :: "string \<Rightarrow> nat list option" where
  "parseIP s =
     (case find (\<lambda>c. c \<in> set ''.:%'') s of
        None \<Rightarrow> None
      | Some c \<Rightarrow>
          if c = CHR ''.'' then map_option (\<lambda>fs. v4_prefix @ fs) (v4_octets s)
          else if c = CHR '':'' then (if CHR ''%'' \<in> set s then None else parse_v6 s)
          else None)"

section \<open>Address classes\<close>

definition to4 :: "nat list \<Rightarrow> nat list option" where
  "to4 ip =
     (if length ip = 4 then Some ip
      else if length ip = 16 \<and> take 12 ip = v4_prefix then Some (drop 12 ip) else None)"

definition ipv6loopback :: "nat list" where
  "ipv6loopback = replicate 15 0 @ [1]"

definition isLoopback :: "nat list \<Rightarrow> bool" where
  "isLoopback ip = (case to4 ip of Some ip4 \<Rightarrow> ip4 ! 0 = 127 | None \<Rightarrow> ip = ipv6loopback)"

definition isLinkLocalUnicast :: "nat list \<Rightarrow> bool" where
  "isLinkLocalUnicast ip =
     (case to4 ip of
        Some ip4 \<Rightarrow> ip4 ! 0 = 169 \<and> ip4 ! 1 = 254
      | None \<Rightarrow> length ip = 16 \<and> ip ! 0 = 254 \<and> ip ! 1 AND 192 = 128)"

definition isLinkLocalMulticast :: "nat list \<Rightarrow> bool" where
  "isLinkLocalMulticast ip =
     (case to4 ip of
        Some ip4 \<Rightarrow> ip4 ! 0 = 224 \<and> ip4 ! 1 = 0 \<and> ip4 ! 2 = 0
      | None \<Rightarrow> length ip = 16 \<and> ip ! 0 = 255 \<and> ip ! 1 AND 15 = 2)"

section \<open>HTTP header keys\<close>

text \<open>
  \<open>strings.EqualFold\<close> against an ASCII string: ASCII letters fold, and so do the two non-ASCII
  letters whose case orbit holds an ASCII letter, the long s (two bytes) and the Kelvin sign
  (three bytes). No other byte sequence folds to an ASCII letter.
\<close>

definition lower_char :: "char \<Rightarrow> char" where
  "lower_char c = (let n = (of_char c :: nat) in if 65 \<le> n \<and> n \<le> 90 then char_of (n + 32) else c)"

definition upper_char :: "char \<Rightarrow> char" where
  "upper_char c = (let n = (of_char c :: nat) in if 97 \<le> n \<and> n \<le> 122 then char_of (n - 32) else c)"

fun fold_case :: "string \<Rightarrow> string" where
  "fold_case (a # b # c # cs) =
     (if of_char a = (197::nat) \<and> of_char b = (191::nat) then CHR ''s'' # fold_case (c # cs)
      else if of_char a = (226::nat) \<and> of_char b = (132::nat) \<and> of_char c = (170::nat)
      then CHR ''k'' # fold_case cs
      else lower_char a # fold_case (b # c # cs))"
| "fold_case [a, b] =
     (if of_char a = (197::nat) \<and> of_char b = (191::nat) then ''s'' else [lower_char a, lower_char b])"
| "fold_case [a] = [lower_char a]"
| "fold_case [] = []"

definition equalFold_ascii :: "string \<Rightarrow> string \<Rightarrow> bool" where
  "equalFold_ascii s t \<longleftrightarrow> fold_case s = map lower_char t"

text \<open>\<open>textproto.CanonicalMIMEHeaderKey\<close>.\<close>

definition header_byte :: "char \<Rightarrow> bool" where
  "header_byte c \<longleftrightarrow>
     c \<in> set ''!#$%&*+-.^_`|~0123456789abcdefghijklmnopqrstuvwxyzABCDEFGHIJKLMNOPQRSTUVWXYZ''
     \<or> of_char c = (39::nat)"

fun canon_loop :: "bool \<Rightarrow> string \<Rightarrow> string" where
  "canon_loop upper [] = []"
| "canon_loop upper (c # cs) =
     (let c' = (if upper then upper_char c else lower_char c)
      in c' # canon_loop (c' = CHR ''-'') cs)"

definition canonicalHeaderKey :: "string \<Rightarrow> string" where
  "canonicalHeaderKey k = (if list_all header_byte k then canon_loop True k else k)"

section \<open>Facts\<close>

lemma parse_v4_length: "parse_v4 s a b v n fs = Some ip \<Longrightarrow> length fs \<le> 3 \<Longrightarrow> length ip = 4"
  by (induction s a b v n fs rule: parse_v4.induct) (auto split: option.splits if_splits)

lemma v4_octets_length: "v4_octets s = Some ip \<Longrightarrow> length ip = 4"
  by (simp add: v4_octets_def parse_v4_length)

lemma v6_finish_length: "v6_finish ip ell = Some r \<Longrightarrow> length ip \<le> 16 \<Longrightarrow> length r = 16"
  by (auto simp: v6_finish_def split: if_splits option.splits)

lemma v6_group_Done:
  assumes "v6_group s ip ell = V6_Done (Some r)" and "length ip \<le> 14"
  shows "length r = 16"
proof -
  have v4: "length r = 16" if "v6_finish (ip @ fs) e = Some r" "v4_octets s = Some fs" "length ip + 4 \<le> 16" for fs e
    using that v6_finish_length [of "ip @ fs" e r] v4_octets_length by fastforce
  have grp: "length r = 16" if "v6_finish (ip @ [a, b]) e = Some r" for a b e
    using that v6_finish_length [of "ip @ [a, b]" e r] assms(2) by simp
  show ?thesis
    using assms(1) by (auto simp: v6_group_def Let_def not_less dest: v4 grp split: if_splits option.splits)
qed

lemma v6_loop_length: "v6_loop s ip ell = Some r \<Longrightarrow> even (length ip) \<Longrightarrow> length r = 16"
proof (induction s ip ell rule: v6_loop.induct)
  case (1 s ip ell)
  have short: "length ip \<le> 14" if "\<not> 16 \<le> length ip" using that "1.prems"(2) by presburger
  from "1.prems"(1) have ne: "\<not> 16 \<le> length ip" by (subst (asm) v6_loop.simps) (auto split: if_splits)
  show ?case
  proof (cases "v6_group s ip ell")
    case (V6_Done q)
    with "1.prems"(1) ne have "q = Some r" by (subst (asm) v6_loop.simps) simp
    with V6_Done short [OF ne] show ?thesis by (blast intro: v6_group_Done)
  next
    case (V6_More s' ip' ell')
    with "1.prems" ne have "v6_loop s' ip' ell' = Some r" by (subst (asm) v6_loop.simps) simp
    moreover from V6_More "1.prems"(2) have "even (length ip')" by (simp add: v6_group_More)
    ultimately show ?thesis using "1.IH" [OF ne V6_More] by simp
  qed
qed

lemma parseIP_length: "parseIP s = Some ip \<Longrightarrow> length ip = 16"
  by (auto simp: parseIP_def parse_v6_def v4_prefix_def
      dest: v4_octets_length v6_loop_length split: option.splits if_splits)

text \<open>Every element of a parsed IP is a byte, and the masks of the address classes are arithmetic.\<close>

lemma and_push_bit: "(b AND push_bit n m :: nat) = push_bit n (drop_bit n b AND m)"
  by (rule bit_eqI) (auto simp: bit_simps)

lemma and_192: "b < 256 \<Longrightarrow> (b AND 192 :: nat) = 64 * (b div 64)"
proof -
  assume "b < 256"
  have "b AND push_bit 6 3 = push_bit 6 (drop_bit 6 b AND 3)"
    by (rule and_push_bit)
  also have "drop_bit 6 b AND 3 = take_bit 2 (drop_bit 6 b)"
    using take_bit_eq_mask [of 2 "drop_bit 6 b"] by (simp add: mask_eq_exp_minus_1)
  also have "\<dots> = drop_bit 6 b"
    using \<open>b < 256\<close> by (simp add: take_bit_eq_mod drop_bit_eq_div)
  finally show ?thesis by (simp add: push_bit_eq_mult drop_bit_eq_div)
qed

lemma and_15: "(b AND 15 :: nat) = b mod 16"
  using take_bit_eq_mask [of 4 b] by (simp add: mask_eq_exp_minus_1 take_bit_eq_mod)

lemma parse_v4_bytes:
  "parse_v4 s a b v n fs = Some ip \<Longrightarrow> v \<le> 255 \<Longrightarrow> \<forall>x \<in> set fs. x \<le> 255 \<Longrightarrow> \<forall>x \<in> set ip. x \<le> 255"
  by (induction s a b v n fs rule: parse_v4.induct) (auto split: option.splits if_splits)

lemma v4_octets_bytes: "v4_octets s = Some ip \<Longrightarrow> x \<in> set ip \<Longrightarrow> x \<le> 255"
  using parse_v4_bytes by (fastforce simp: v4_octets_def)

lemma hex_digit_bound: "deref (hex_digit c) 0 \<le> 15"
  by (auto simp: hex_digit_def Let_def)

lemma hex_value_snoc: "hex_value (s @ [c]) = 16 * hex_value s + deref (hex_digit c) 0"
  by (simp add: hex_value_def)

lemma hex_value_bound: "hex_value s < 16 ^ length s"
proof (induction s rule: rev_induct)
  case Nil
  then show ?case by (simp add: hex_value_def)
next
  case (snoc c s)
  then show ?case using hex_digit_bound [of c] by (simp add: hex_value_snoc)
qed

lemma hex_value_bytes: "length h \<le> 4 \<Longrightarrow> hex_value h div 256 \<le> 255"
proof -
  assume "length h \<le> 4"
  then have "(16::nat) ^ length h \<le> 16 ^ 4" by (intro power_increasing) simp_all
  with hex_value_bound [of h] have "hex_value h < 65536" by simp
  then show ?thesis by simp
qed

definition bytes_le :: "nat list \<Rightarrow> bool" where
  "bytes_le ip \<longleftrightarrow> (\<forall>x \<in> set ip. x \<le> 255)"

lemma bytes_le_append: "bytes_le (xs @ ys) \<longleftrightarrow> bytes_le xs \<and> bytes_le ys"
  by (auto simp: bytes_le_def)

lemma v6_finish_bytes: "v6_finish ip ell = Some r \<Longrightarrow> bytes_le ip \<Longrightarrow> bytes_le r"
  by (force simp: v6_finish_def bytes_le_def dest: in_set_takeD in_set_dropD split: if_splits option.splits)

lemma v6_group_bytes:
  assumes "bytes_le ip"
  shows "v6_group s ip ell = V6_More s' ip' ell' \<Longrightarrow> bytes_le ip'"
    and "v6_group s ip ell = V6_Done (Some r) \<Longrightarrow> bytes_le r"
proof -
  have pair: "bytes_le (ip @ [hex_value h div 256, hex_value h mod 256])" if "length h \<le> 4" for h
    using assms hex_value_bytes [OF that] by (simp add: bytes_le_def less_Suc_eq_le [symmetric])
  have v4: "bytes_le (ip @ fs)" if "v4_octets s = Some fs" for fs
    using assms v4_octets_bytes [OF that] by (auto simp: bytes_le_def)
  show "bytes_le ip'" if "v6_group s ip ell = V6_More s' ip' ell'"
    using that pair by (auto simp: v6_group_def Let_def not_less split: if_splits option.splits)
  show "bytes_le r" if "v6_group s ip ell = V6_Done (Some r)"
    using that pair v4 v6_finish_bytes
    by (auto simp: v6_group_def Let_def not_less split: if_splits option.splits)
qed

lemma v6_loop_bytes: "v6_loop s ip ell = Some r \<Longrightarrow> bytes_le ip \<Longrightarrow> bytes_le r"
proof (induction s ip ell rule: v6_loop.induct)
  case (1 s ip ell)
  from "1.prems"(1) have ne: "\<not> 16 \<le> length ip" by (subst (asm) v6_loop.simps) (auto split: if_splits)
  show ?case
  proof (cases "v6_group s ip ell")
    case (V6_Done q)
    with "1.prems"(1) ne have "q = Some r" by (subst (asm) v6_loop.simps) simp
    with V6_Done "1.prems"(2) show ?thesis by (blast intro: v6_group_bytes(2))
  next
    case (V6_More s' ip' ell')
    with "1.prems" ne have "v6_loop s' ip' ell' = Some r" by (subst (asm) v6_loop.simps) simp
    with "1.IH" [OF ne V6_More] V6_More "1.prems"(2) show ?thesis by (blast intro: v6_group_bytes(1))
  qed
qed

lemma parseIP_bytes: "parseIP s = Some ip \<Longrightarrow> x \<in> set ip \<Longrightarrow> x \<le> 255"
proof -
  assume p: "parseIP s = Some ip" and x: "x \<in> set ip"
  have "bytes_le ip"
  proof (cases "\<exists>fs. v4_octets s = Some fs \<and> ip = v4_prefix @ fs")
    case True
    then show ?thesis using v4_octets_bytes by (fastforce simp: bytes_le_def v4_prefix_def)
  next
    case False
    with p have "parse_v6 s = Some ip" by (auto simp: parseIP_def split: option.splits if_splits)
    then show ?thesis
      using v6_loop_bytes by (auto simp: parse_v6_def bytes_le_def split: if_splits)
  qed
  with x show ?thesis by (simp add: bytes_le_def)
qed

end
