(* ===== verification/Api_Types.thy ===== *)
theory Api_Types
  imports Go_Prelude
begin

text \<open>
  The API types of package \<open>v1alpha1\<close>: the records and enumerations of
  \<open>shared_types.go\<close>, \<open>checkrun_types.go\<close> and \<open>checksuite_types.go\<close>, with the
  source's field names behind a short prefix per struct. A pointer field is an option, a
  \<open>metav1.Duration\<close> or \<open>metav1.Time\<close> an integer of nanoseconds, a Go map of labels a
  HOL map. The enumerations carry a constructor for the empty string that an absent field has.
  The validation markers on the types are the subject of the theory \<open>Admission\<close>.
\<close>

section \<open>Enumerations\<close>

datatype ExpectedOutcome = ExpectUnset | ExpectSuccess | ExpectFailure

datatype ObservedOutcome = ObservedUnset | ObservedSuccess | ObservedFailure

fun expected_string :: "ExpectedOutcome \<Rightarrow> string" where
  "expected_string ExpectUnset = ''''"
| "expected_string ExpectSuccess = ''Success''"
| "expected_string ExpectFailure = ''Failure''"

fun observed_string :: "ObservedOutcome \<Rightarrow> string" where
  "observed_string ObservedUnset = ''''"
| "observed_string ObservedSuccess = ''Success''"
| "observed_string ObservedFailure = ''Failure''"

datatype CheckRunPhase =
  PhaseUnset | CheckRunPending | CheckRunRunning | CheckRunSucceeded | CheckRunFailed | CheckRunError

fun phase_string :: "CheckRunPhase \<Rightarrow> string" where
  "phase_string PhaseUnset = ''''"
| "phase_string CheckRunPending = ''Pending''"
| "phase_string CheckRunRunning = ''Running''"
| "phase_string CheckRunSucceeded = ''Succeeded''"
| "phase_string CheckRunFailed = ''Failed''"
| "phase_string CheckRunError = ''Error''"

datatype ConcurrencyPolicy = PolicyUnset | AllowConcurrent | ForbidConcurrent | ReplaceConcurrent

lemma phase_string_inj: "phase_string p = phase_string q \<longleftrightarrow> p = q"
  by (cases p; cases q) simp_all

section \<open>Checks and runners\<close>

record TCPCheck =
  tcp_Address :: string
  tcp_Timeout :: "duration option"

record HTTPHeader =
  hdr_Name :: string
  hdr_Value :: string

record HTTPCheck =
  http_URL :: string
  http_Method :: string
  http_Headers :: "HTTPHeader list"
  http_Timeout :: "duration option"
  http_ExpectedStatus :: "int list"

record GRPCTLS =
  tls_InsecureSkipVerify :: bool

record GRPCCheck =
  grpc_Address :: string
  grpc_Service :: string
  grpc_Timeout :: "duration option"
  grpc_TLS :: "GRPCTLS option"

record RetryPolicy =
  rp_Attempts :: int
  rp_Delay :: "duration option"

record CheckSpec =
  chk_Name :: string
  chk_Runners :: "string list"
  chk_TCP :: "TCPCheck option"
  chk_HTTP :: "HTTPCheck option"
  chk_GRPC :: "GRPCCheck option"
  chk_Expect :: ExpectedOutcome
  chk_Retries :: "RetryPolicy option"

record TopologySpread =
  ts_TopologyKey :: string
  ts_WhenUnsatisfiable :: string

text \<open>A toleration of the core API, which the controller only copies.\<close>

datatype Toleration =
  Toleration (tol_Key: string) (tol_Operator: string) (tol_Value: string) (tol_Effect: string)
    (tol_Seconds: "int option")

record RunnerSpec =
  rn_Name :: string
  rn_Replicas :: "int option"
  rn_NodeSelector :: "string \<rightharpoonup> string"
  rn_Tolerations :: "Toleration list"
  rn_TopologySpread :: "TopologySpread option"

record CheckSuiteTemplate =
  tpl_Runners :: "RunnerSpec list"
  tpl_Checks :: "CheckSpec list"
  tpl_Timeout :: "duration option"

section \<open>Object metadata\<close>

text \<open>
  The parts of \<open>metav1.ObjectMeta\<close> the program reads or writes. \<open>om_Controller\<close> is the
  controlling owner reference, if there is one; \<open>om_ResourceVersion\<close> travels with an object that
  is read and sent back, and is empty in an object that is built.
\<close>

record OwnerReference =
  ow_APIVersion :: string
  ow_Kind :: string
  ow_Name :: string
  ow_UID :: string

record ObjectMeta =
  om_Name :: string
  om_Namespace :: string
  om_UID :: string
  om_Generation :: int
  om_CreationTimestamp :: time
  om_Labels :: "string \<rightharpoonup> string"
  om_Annotations :: "string \<rightharpoonup> string"
  om_Controller :: "OwnerReference option"
  om_ResourceVersion :: string

type_synonym nkey = "string \<times> string"  \<comment> \<open>namespace and name\<close>

definition meta_key :: "ObjectMeta \<Rightarrow> nkey" where
  "meta_key m = (om_Namespace m, om_Name m)"

datatype ConditionStatus = ConditionTrue | ConditionFalse | ConditionUnknown

text \<open>\<open>metav1.Condition\<close>, with the zero value that \<open>finish\<close> gets for \<open>no condition\<close>.\<close>

record Condition =
  cond_Type :: string
  cond_Status :: ConditionStatus
  cond_ObservedGeneration :: int
  cond_Reason :: string
  cond_Message :: message

definition noCondition :: Condition where
  "noCondition = \<lparr>cond_Type = '''', cond_Status = ConditionUnknown, cond_ObservedGeneration = 0,
     cond_Reason = '''', cond_Message = Sprintf '''' []\<rparr>"

section \<open>CheckRun\<close>

definition ConditionCompleted :: string where
  "ConditionCompleted = ''Completed''"

definition ConditionDeadlineExceeded :: string where
  "ConditionDeadlineExceeded = ''DeadlineExceeded''"

definition ConditionRunnerServiceAccountMissing :: string where
  "ConditionRunnerServiceAccountMissing = ''RunnerServiceAccountMissing''"

record CheckRunSpec =
  run_SuiteRef :: "string option"
  run_Suite :: CheckSuiteTemplate

record CheckResult =
  res_Name :: string
  res_Passed :: bool
  res_Observed :: ObservedOutcome
  res_Attempts :: int
  res_Message :: string
  res_Duration :: "duration option"

record PodResult =
  pod_PodName :: string
  pod_NodeName :: string
  pod_StartTime :: "time option"
  pod_CompletionTime :: "time option"
  pod_Checks :: "CheckResult list"

record RunnerStatus =
  rs_Name :: string
  rs_Pods :: "PodResult list"

text \<open>The counters are of type \<open>int32\<close>; \<open>summary_fits_int32\<close> shows that the limits of the schema keep them below.\<close>

record RunSummary =
  sum_Total :: int
  sum_Passed :: int
  sum_Failed :: int

record CheckRunStatus =
  st_ObservedGeneration :: int
  st_Phase :: CheckRunPhase
  st_StartTime :: "time option"
  st_CompletionTime :: "time option"
  st_Runners :: "RunnerStatus list"
  st_Summary :: "RunSummary option"
  st_Conditions :: "Condition list"

record CheckRun =
  run_Meta :: ObjectMeta
  run_Spec :: CheckRunSpec
  run_Status :: CheckRunStatus

abbreviation run_Name :: "CheckRun \<Rightarrow> string" where
  "run_Name r \<equiv> om_Name (run_Meta r)"

abbreviation run_Namespace :: "CheckRun \<Rightarrow> string" where
  "run_Namespace r \<equiv> om_Namespace (run_Meta r)"

abbreviation run_Phase :: "CheckRun \<Rightarrow> CheckRunPhase" where
  "run_Phase r \<equiv> st_Phase (run_Status r)"

abbreviation run_Template :: "CheckRun \<Rightarrow> CheckSuiteTemplate" where
  "run_Template r \<equiv> run_Suite (run_Spec r)"

section \<open>CheckSuite\<close>

definition RunNowAnnotation :: string where
  "RunNowAnnotation = ''verikube.dev/run-now''"

record HistoryLimit =
  hl_Successful :: "int option"
  hl_Failed :: "int option"

record CheckSuiteSpec =
  ss_Schedule :: "string option"
  ss_Suspend :: "bool option"
  ss_ConcurrencyPolicy :: ConcurrencyPolicy
  ss_StartingDeadline :: "duration option"
  ss_HistoryLimit :: "HistoryLimit option"
  ss_Template :: CheckSuiteTemplate

record ObjectReference =
  ref_APIVersion :: string
  ref_Kind :: string
  ref_Namespace :: string
  ref_Name :: string
  ref_UID :: string

record CheckSuiteStatus =
  sst_ObservedGeneration :: int
  sst_LastScheduleTime :: "time option"
  sst_LastManualTrigger :: string
  sst_Active :: "ObjectReference list"
  sst_Conditions :: "Condition list"

record CheckSuite =
  suite_Meta :: ObjectMeta
  suite_Spec :: CheckSuiteSpec
  suite_Status :: CheckSuiteStatus

abbreviation suite_Name :: "CheckSuite \<Rightarrow> string" where
  "suite_Name s \<equiv> om_Name (suite_Meta s)"

abbreviation suite_Namespace :: "CheckSuite \<Rightarrow> string" where
  "suite_Namespace s \<equiv> om_Namespace (suite_Meta s)"

definition SchemeGroupVersion :: string where
  "SchemeGroupVersion = ''verikube.dev/v1alpha1''"

end
