(* ===== verification/Kube_Api.thy ===== *)
theory Kube_Api
  imports Api_Types
begin

text \<open>
  What the program asks of the world, and how the model keeps account of it.

  The API server, the runtime libraries of Kubernetes, the Prometheus client, the cron parser and
  the network are not part of the repository. They are parameters: the record \<open>kube\<close> holds the
  operations of the API client (one field per call the controllers and the runner make, over an
  arbitrary type of world, which each call may change), the record \<open>pkgs\<close> the pure functions of
  library packages. Their documented behaviour is stated where it is needed, as predicates and as
  locales: \<open>condition_list\<close> and \<open>object_store\<close> here, others with their components.

  Every request, event and metric operation of the program is appended to \<open>acts\<close>, oldest
  first, so that what a handler does is a property of its result. \<open>issues P s s'\<close> says that the
  actions added between two contexts satisfy \<open>P\<close>; it composes along the code.
\<close>

section \<open>Jobs, as the controller writes and reads them\<close>

record EnvVar =
  env_Name :: string
  env_Value :: string
  env_FieldPath :: "string option"

record Container =
  ctr_Name :: string
  ctr_Image :: string
  ctr_Args :: "string list"
  ctr_Env :: "EnvVar list"
  ctr_AllowPrivilegeEscalation :: "bool option"
  ctr_DropCapabilities :: "string list"

record TopologySpreadConstraint =
  tsc_MaxSkew :: int
  tsc_TopologyKey :: string
  tsc_WhenUnsatisfiable :: string
  tsc_MatchLabels :: "string \<rightharpoonup> string"

record PodSpec =
  ps_RestartPolicy :: string
  ps_ServiceAccountName :: string
  ps_NodeSelector :: "string \<rightharpoonup> string"
  ps_Tolerations :: "Toleration list"
  ps_RunAsNonRoot :: "bool option"
  ps_SeccompProfile :: string
  ps_Containers :: "Container list"
  ps_TopologySpread :: "TopologySpreadConstraint list"

record JobSpec =
  js_Parallelism :: "int option"
  js_Completions :: "int option"
  js_BackoffLimit :: "int option"
  js_ActiveDeadlineSeconds :: "int option"
  js_PodLabels :: "string \<rightharpoonup> string"
  js_PodSpec :: PodSpec

record JobCondition =
  jc_Type :: string
  jc_Status :: ConditionStatus
  jc_Message :: string

record Job =
  job_Meta :: ObjectMeta
  job_Spec :: JobSpec
  job_Conditions :: "JobCondition list"

abbreviation job_Name :: "Job \<Rightarrow> string" where
  "job_Name j \<equiv> om_Name (job_Meta j)"

section \<open>Requests, events and metric operations\<close>

text \<open>Unstructured objects (\<open>map[string]any\<close>): JSON values, objects as key lists.\<close>

datatype json = JStr string | JInt int | JBool bool | JArr "json list" | JObj "(string \<times> json) list"

datatype api_error = NotFound | AlreadyExists | ApiError string

datatype request =
    GetRun nkey | GetSuite nkey | GetServiceAccount nkey | GetJob nkey
  | CreateJob Job | ApplyRunStatus json string
  | ListRuns string "string \<times> string" | CreateRun CheckRun | DeleteRun nkey
  | UpdateSuiteStatus CheckSuite

datatype vec =
    CheckRunsTotal | CheckRunDuration | CheckResultTotal | CheckDuration
  | CheckLastResult | CheckRunLastCompletion

datatype metric_op =
    CounterInc vec "string list"
  | Observe vec "string list" duration
  | GaugeSet vec "string list" int
  | GaugeDeletePartial vec "(string \<times> string) list"

datatype event =
  Event (ev_Regarding: nkey) (ev_Type: string) (ev_Reason: string) (ev_Action: string) (ev_Note: message)

datatype action = Req request | Ev event | Met metric_op | Connect string

section \<open>The context of a handler\<close>

record 'w ctx =
  world :: 'w
  acts :: "action list"

definition silent :: "('w \<Rightarrow> 'r \<times> 'w) \<Rightarrow> 'w ctx \<Rightarrow> 'r \<times> 'w ctx" where
  "silent f s = (case f (world s) of (r, w) \<Rightarrow> (r, s\<lparr>world := w\<rparr>))"

definition perform :: "action \<Rightarrow> ('w \<Rightarrow> 'r \<times> 'w) \<Rightarrow> 'w ctx \<Rightarrow> 'r \<times> 'w ctx" where
  "perform a f s = (case f (world s) of (r, w) \<Rightarrow> (r, s\<lparr>world := w, acts := acts s @ [a]\<rparr>))"

definition emit :: "action \<Rightarrow> 'w ctx \<Rightarrow> 'w ctx" where
  "emit a s = s\<lparr>acts := acts s @ [a]\<rparr>"

definition emits :: "action list \<Rightarrow> 'w ctx \<Rightarrow> 'w ctx" where
  "emits as s = s\<lparr>acts := acts s @ as\<rparr>"

definition issues :: "(action \<Rightarrow> bool) \<Rightarrow> 'w ctx \<Rightarrow> 'w ctx \<Rightarrow> bool" where
  "issues P s s' \<longleftrightarrow> (\<exists>new. acts s' = acts s @ new \<and> list_all P new)"

named_theorems issues_intros \<open>rules that bound the actions of a handler\<close>

lemma world_emit [simp]: "world (emit a s) = world s" "world (emits as s) = world s"
  by (simp_all add: emit_def emits_def)

lemma acts_emit [simp]: "acts (emit a s) = acts s @ [a]" "acts (emits as s) = acts s @ as"
  by (simp_all add: emit_def emits_def)

lemma acts_silent: "silent f s = (r, s') \<Longrightarrow> acts s' = acts s"
  by (auto simp: silent_def split: prod.splits)

lemma acts_perform: "perform a f s = (r, s') \<Longrightarrow> acts s' = acts s @ [a]"
  by (auto simp: perform_def split: prod.splits)

lemma perform_eq: "f (world s) = (r, w) \<Longrightarrow> perform a f s = (r, s\<lparr>world := w, acts := acts s @ [a]\<rparr>)"
  by (simp add: perform_def)

lemma perform_result: "fst (perform a f s) = fst (f (world s))"
  by (simp add: perform_def split: prod.splits)

lemma perform_world: "world (snd (perform a f s)) = snd (f (world s))"
  by (simp add: perform_def split: prod.splits)

lemma issues_refl [simp, issues_intros]: "issues P s s"
  by (simp add: issues_def)

lemma issues_trans: "issues P s t \<Longrightarrow> issues P t u \<Longrightarrow> issues P s u"
  by (auto simp: issues_def)

lemma issues_mono: "issues P s t \<Longrightarrow> (\<And>a. P a \<Longrightarrow> Q a) \<Longrightarrow> issues Q s t"
  by (auto simp: issues_def list_all_iff)

lemma issues_emit [issues_intros]: "P a \<Longrightarrow> issues P s t \<Longrightarrow> issues P s (emit a t)"
  by (auto simp: issues_def)

lemma issues_emits [issues_intros]: "list_all P as \<Longrightarrow> issues P s t \<Longrightarrow> issues P s (emits as t)"
  by (auto simp: issues_def)

lemma issues_perform: "perform a f t = (r, u) \<Longrightarrow> P a \<Longrightarrow> issues P s t \<Longrightarrow> issues P s u"
  by (auto simp: issues_def dest: acts_perform)

lemma issues_silent: "silent f t = (r, u) \<Longrightarrow> issues P s t \<Longrightarrow> issues P s u"
  by (auto simp: issues_def dest: acts_silent)

lemma issues_set: "issues P s t \<longleftrightarrow> (\<exists>new. acts t = acts s @ new \<and> (\<forall>a \<in> set new. P a))"
  by (simp add: issues_def list_all_iff)

section \<open>The API client\<close>

text \<open>
  One field per call on \<open>client.Client\<close>. A create returns the object as the server stored it.
  \<open>k_now\<close> is the reconciler's clock.
\<close>

record 'w kube =
  k_now :: "'w \<Rightarrow> time"
  k_get_run :: "nkey \<Rightarrow> 'w \<Rightarrow> (api_error + CheckRun) \<times> 'w"
  k_get_suite :: "nkey \<Rightarrow> 'w \<Rightarrow> (api_error + CheckSuite) \<times> 'w"
  k_get_sa :: "nkey \<Rightarrow> 'w \<Rightarrow> api_error option \<times> 'w"
  k_get_job :: "nkey \<Rightarrow> 'w \<Rightarrow> (api_error + Job) \<times> 'w"
  k_create_job :: "Job \<Rightarrow> 'w \<Rightarrow> (api_error + Job) \<times> 'w"
  k_apply_status :: "json \<Rightarrow> string \<Rightarrow> 'w \<Rightarrow> api_error option \<times> 'w"
  k_list_runs :: "string \<Rightarrow> string \<times> string \<Rightarrow> 'w \<Rightarrow> (api_error + CheckRun list) \<times> 'w"
  k_create_run :: "CheckRun \<Rightarrow> 'w \<Rightarrow> (api_error + CheckRun) \<times> 'w"
  k_delete_run :: "nkey \<Rightarrow> 'w \<Rightarrow> api_error option \<times> 'w"
  k_update_suite_status :: "CheckSuite \<Rightarrow> 'w \<Rightarrow> api_error option \<times> 'w"

text \<open>
  Library functions: \<open>meta.SetStatusCondition\<close>, \<open>DefaultUnstructuredConverter\<close> on the two
  types it is used on, \<open>SetControllerReference\<close> and \<open>IsControlledBy\<close>, \<open>cron.ParseStandard\<close>
  with the \<open>Next\<close> of the schedule it returns, \<open>slices.SortFunc\<close> by recency, and the order in
  which Go ranges over a map.
\<close>

record pkgs =
  p_set_condition :: "Condition list \<Rightarrow> Condition \<Rightarrow> Condition list"
  p_status_map :: "CheckRunStatus \<Rightarrow> api_error + (string \<times> json) list"
  p_pod_map :: "PodResult \<Rightarrow> api_error + (string \<times> json) list"
  p_own_job :: "CheckRun \<Rightarrow> Job \<Rightarrow> api_error + Job"
  p_own_run :: "CheckSuite \<Rightarrow> CheckRun \<Rightarrow> api_error + CheckRun"
  p_controlled_by :: "CheckRun \<Rightarrow> CheckSuite \<Rightarrow> bool"
  p_parse_cron :: "string \<Rightarrow> string + (time \<Rightarrow> time)"
  p_sort_runs :: "CheckRun list \<Rightarrow> CheckRun list"
  p_range_jobs :: "(string \<times> Job) list \<Rightarrow> (string \<times> Job) list"
  p_range_results :: "(string \<times> bool) list \<Rightarrow> (string \<times> bool) list"

text \<open>A map is ranged over in some order, and every entry is met once.\<close>

definition ranges :: "('a list \<Rightarrow> 'a list) \<Rightarrow> bool" where
  "ranges f \<longleftrightarrow> (\<forall>xs. mset (f xs) = mset xs)"

lemma ranges_set: "ranges f \<Longrightarrow> set (f xs) = set xs"
  by (auto simp: ranges_def dest: mset_eq_setD)

lemma ranges_map_of: "ranges f \<Longrightarrow> distinct (map fst xs) \<Longrightarrow> map_of (f xs) = map_of xs"
  by (rule map_of_mset_cong [symmetric]) (simp_all add: ranges_def)

section \<open>Condition lists\<close>

text \<open>
  The documented contract of \<open>meta.SetStatusCondition\<close>: the condition of the given type becomes
  the new one, whether it existed or not, and no other type is touched. A status keeps one
  condition per type.
\<close>

definition find_condition :: "Condition list \<Rightarrow> string \<Rightarrow> Condition option" where
  "find_condition cs t = find (\<lambda>c. cond_Type c = t) cs"

locale condition_list =
  fixes setc :: "Condition list \<Rightarrow> Condition \<Rightarrow> Condition list"
  assumes find_set: "find_condition (setc cs c) t =
      (if t = cond_Type c then Some c else find_condition cs t)"
    and distinct_set: "distinct (map cond_Type cs) \<Longrightarrow> distinct (map cond_Type (setc cs c))"
begin

lemma find_foldl_other:
  "t \<notin> cond_Type ` set ds \<Longrightarrow> find_condition (foldl setc cs ds) t = find_condition cs t"
  by (induction ds arbitrary: cs) (auto simp: find_set)

lemma find_foldl_last:
  "find_condition (foldl setc cs (ds @ [c])) (cond_Type c) = Some c"
  by (simp add: find_set)

lemma distinct_foldl:
  "distinct (map cond_Type cs) \<Longrightarrow> distinct (map cond_Type (foldl setc cs ds))"
  by (induction ds arbitrary: cs) (auto simp: distinct_set)

end

text \<open>A list that keeps the order of first appearance meets the contract.\<close>

fun upsert_condition :: "Condition list \<Rightarrow> Condition \<Rightarrow> Condition list" where
  "upsert_condition [] c = [c]"
| "upsert_condition (d # ds) c =
     (if cond_Type d = cond_Type c then c # ds else d # upsert_condition ds c)"

lemma types_upsert: "set (map cond_Type (upsert_condition cs c)) = insert (cond_Type c) (set (map cond_Type cs))"
  by (induction cs) auto

interpretation upsert: condition_list upsert_condition
proof
  show "find_condition (upsert_condition cs c) t = (if t = cond_Type c then Some c else find_condition cs t)"
    for cs c t
    by (induction cs) (auto simp: find_condition_def)
  show "distinct (map cond_Type (upsert_condition cs c))" if "distinct (map cond_Type cs)" for cs c
    using that types_upsert by (induction cs) auto
qed

section \<open>Stored objects\<close>

text \<open>
  The contract of \<open>Get\<close> and \<open>Create\<close> on one kind of object when no request fails: a get
  returns what is stored under the key, a create stores a new object and refuses an existing name.
\<close>

locale object_store =
  fixes look :: "'w \<Rightarrow> nkey \<Rightarrow> 'o option"
    and get :: "nkey \<Rightarrow> 'w \<Rightarrow> (api_error + 'o) \<times> 'w"
    and create :: "'o \<Rightarrow> 'w \<Rightarrow> (api_error + 'o) \<times> 'w"
    and key :: "'o \<Rightarrow> nkey"
  assumes get_look: "get k w = (case look w k of None \<Rightarrow> Inl NotFound | Some ob \<Rightarrow> Inr ob, w)"
    and create_existing: "look w (key ob) \<noteq> None \<Longrightarrow> create ob w = (Inl AlreadyExists, w)"
    and create_fresh: "look w (key ob) = None \<Longrightarrow>
      \<exists>ob' w'. create ob w = (Inr ob', w') \<and> key ob' = key ob \<and> look w' = (look w)(key ob \<mapsto> ob')"
begin

lemma create_cases:
  obtains (existing) ob' where "look w (key ob) = Some ob'" "create ob w = (Inl AlreadyExists, w)"
  | (fresh) ob' w' where "look w (key ob) = None" "create ob w = (Inr ob', w')"
      "key ob' = key ob" "look w' = (look w)(key ob \<mapsto> ob')"
  using create_existing [of w ob] create_fresh [of w ob] by (cases "look w (key ob)") auto

lemma look_after_create: "look (snd (create ob w)) (key ob) \<noteq> None"
  by (rule create_cases [of w ob]) auto

lemma create_keeps: "look w k = Some ob' \<Longrightarrow> look (snd (create ob w)) k = Some ob'"
  by (rule create_cases [of w ob]) auto

lemma create_frame: "k \<noteq> key ob \<Longrightarrow> look (snd (create ob w)) k = look w k"
  by (rule create_cases [of w ob]) auto

end

end
