(* ===== verification/Checker.thy ===== *)
theory Checker
  imports Go_Net Kube_Api
begin

text \<open>
  Package \<open>internal/checker\<close>: the target guard, the TCP, HTTP and gRPC probes, and the registry
  that picks a probe for a check.

  The network is a parameter (\<open>net\<close>): name resolution and connect calls, the HTTP client, the
  gRPC client and the clock. Go's dialer is modelled down to the connect calls, since the guard is
  its Control hook: for each resolved address the hook runs first and a refusal skips the address.
  Every connect call is recorded as \<open>Connect\<close> in the actions. Dereferencing a nil pointer
  panics in Go, which is the value \<^const>\<open>None\<close> of a probe here.

  What every probe promises to its caller is the locale \<open>guarded_prober\<close>; the three probes are
  shown to meet it over any network whose HTTP and gRPC clients connect only through the dialer they are
  given (\<open>guarded_network\<close>).
\<close>

section \<open>The target guard (guard.go)\<close>

record Options =
  opt_AllowLocalTargets :: bool

datatype guard_error = InvalidTarget string addr_error | NotAnIP string | BlockedIP "nat list"

datatype net_error = GuardError guard_error | NetError string

definition dialGuard :: "string \<Rightarrow> guard_error option" where
  "dialGuard address =
     (case splitHostPort address of
        Inl e \<Rightarrow> Some (InvalidTarget address e)
      | Inr (host, _) \<Rightarrow>
          (case parseIP host of
             None \<Rightarrow> Some (NotAnIP address)
           | Some ip \<Rightarrow>
               if isLoopback ip \<or> isLinkLocalUnicast ip \<or> isLinkLocalMulticast ip
               then Some (BlockedIP ip) else None))"

definition dialControl :: "Options \<Rightarrow> (string \<Rightarrow> guard_error option) option" where
  "dialControl o1 = (if opt_AllowLocalTargets o1 then None else Some dialGuard)"

section \<open>The network\<close>

type_synonym 'w dialer = "string \<Rightarrow> 'w ctx \<Rightarrow> (net_error + string) \<times> 'w ctx"

record http_request =
  rq_Method :: string
  rq_URL :: string
  rq_Host :: "string option"  \<comment> \<open>the override; by default the host of the URL\<close>
  rq_Header :: "string \<rightharpoonup> string"

datatype credentials = InsecureCredentials | TLSCredentials bool string

record 'w net =
  net_now :: "'w \<Rightarrow> time"
  net_error_text :: "net_error \<Rightarrow> string"
  net_resolve :: "string \<Rightarrow> 'w \<Rightarrow> (net_error + string list) \<times> 'w"
  net_connect :: "duration \<Rightarrow> string \<Rightarrow> 'w \<Rightarrow> net_error option \<times> 'w"
  net_new_request :: "string \<Rightarrow> string \<Rightarrow> net_error option"
  net_http_do :: "duration \<Rightarrow> http_request \<Rightarrow> 'w dialer \<Rightarrow> 'w ctx \<Rightarrow> (net_error + int) \<times> 'w ctx"
  net_grpc_new :: "string \<Rightarrow> credentials \<Rightarrow> net_error option"
  net_grpc_health :: "string \<Rightarrow> credentials \<Rightarrow> string \<Rightarrow> duration \<Rightarrow> 'w dialer \<Rightarrow>
     'w ctx \<Rightarrow> (net_error + int) \<times> 'w ctx"
  net_status_name :: "int \<Rightarrow> string"
  net_wait :: "duration \<Rightarrow> 'w \<Rightarrow> bool \<times> 'w"

text \<open>\<open>net.Dialer.DialContext\<close>: resolve, then try the addresses in turn; the first error is reported.\<close>

fun dialSerial :: "'w net \<Rightarrow> (string \<Rightarrow> guard_error option) option \<Rightarrow> duration \<Rightarrow> string list \<Rightarrow>
    net_error option \<Rightarrow> 'w dialer" where
  "dialSerial N ctl timeout [] firstErr addr s =
     (Inl (deref firstErr (NetError ''missing address'')), s)"
| "dialSerial N ctl timeout (ra # ras) firstErr addr s =
     (case (case ctl of None \<Rightarrow> None | Some f \<Rightarrow> f ra) of
        Some g \<Rightarrow> dialSerial N ctl timeout ras (Some (deref firstErr (GuardError g))) addr s
      | None \<Rightarrow>
          (case perform (Connect ra) (net_connect N timeout ra) s of
             (None, s1) \<Rightarrow> (Inr ra, s1)
           | (Some e, s1) \<Rightarrow> dialSerial N ctl timeout ras (Some (deref firstErr e)) addr s1))"

definition dialContext :: "'w net \<Rightarrow> (string \<Rightarrow> guard_error option) option \<Rightarrow> duration \<Rightarrow> 'w dialer" where
  "dialContext N ctl timeout addr s =
     (case silent (net_resolve N addr) s of
        (Inl e, s1) \<Rightarrow> (Inl e, s1)
      | (Inr ras, s1) \<Rightarrow> dialSerial N ctl timeout ras None addr s1)"

section \<open>Probes\<close>

text \<open>\<open>checker.Result\<close> and the interface \<open>Checker\<close>.\<close>

record Result =
  pr_Observed :: bool
  pr_Message :: string
  pr_Duration :: duration

definition TypeTCP :: string where "TypeTCP = ''tcp''"
definition TypeHTTP :: string where "TypeHTTP = ''http''"
definition TypeGRPC :: string where "TypeGRPC = ''grpc''"

record 'w Checker =
  ck_Type :: string
  ck_Check :: "CheckSpec \<Rightarrow> 'w ctx \<Rightarrow> Result option \<times> 'w ctx"

subsection \<open>TCP (tcp.go)\<close>

definition defaultTCPTimeout :: duration where
  "defaultTCPTimeout = 1 * Second"

fun tcpVerdict :: "'w net \<Rightarrow> duration \<Rightarrow> net_error + string \<Rightarrow> Result" where
  "tcpVerdict N elapsed (Inl e) =
     \<lparr>pr_Observed = False, pr_Message = net_error_text N e, pr_Duration = elapsed\<rparr>"
| "tcpVerdict N elapsed (Inr _) = \<lparr>pr_Observed = True, pr_Message = '''', pr_Duration = elapsed\<rparr>"

definition tcpCheck :: "'w net \<Rightarrow> Options \<Rightarrow> CheckSpec \<Rightarrow> 'w ctx \<Rightarrow> Result option \<times> 'w ctx" where
  "tcpCheck N opts spec s =
     (case chk_TCP spec of
        None \<Rightarrow> (None, s)
      | Some cfg \<Rightarrow>
          let timeout = deref (tcp_Timeout cfg) defaultTCPTimeout;
              start = net_now N (world s)
          in case dialContext N (dialControl opts) timeout (tcp_Address cfg) s of
               (r, s1) \<Rightarrow> (Some (tcpVerdict N (time_sub (net_now N (world s1)) start) r), s1))"

definition NewTCPChecker :: "'w net \<Rightarrow> Options \<Rightarrow> 'w Checker" where
  "NewTCPChecker N opts = \<lparr>ck_Type = TypeTCP, ck_Check = tcpCheck N opts\<rparr>"

subsection \<open>HTTP (http.go)\<close>

definition defaultHTTPTimeout :: duration where
  "defaultHTTPTimeout = 30 * Second"

definition setHeader :: "http_request \<Rightarrow> HTTPHeader \<Rightarrow> http_request" where
  "setHeader req hdr =
     (if equalFold_ascii (hdr_Name hdr) ''Host''
      then req\<lparr>rq_Host := Some (hdr_Value hdr)\<rparr>
      else req\<lparr>rq_Header := (rq_Header req)(canonicalHeaderKey (hdr_Name hdr) \<mapsto> hdr_Value hdr)\<rparr>)"

definition httpMethod :: "HTTPCheck \<Rightarrow> string" where
  "httpMethod cfg = (if http_Method cfg = '''' then ''GET'' else http_Method cfg)"

definition httpExpected :: "HTTPCheck \<Rightarrow> int list" where
  "httpExpected cfg = (if http_ExpectedStatus cfg = [] then [200] else http_ExpectedStatus cfg)"

definition httpRequest :: "HTTPCheck \<Rightarrow> http_request" where
  "httpRequest cfg = foldl setHeader
     \<lparr>rq_Method = httpMethod cfg, rq_URL = http_URL cfg, rq_Host = None, rq_Header = Map.empty\<rparr>
     (http_Headers cfg)"

fun httpVerdict :: "'w net \<Rightarrow> int list \<Rightarrow> duration \<Rightarrow> net_error + int \<Rightarrow> Result" where
  "httpVerdict N expected elapsed (Inl e) =
     \<lparr>pr_Observed = False, pr_Message = net_error_text N e, pr_Duration = elapsed\<rparr>"
| "httpVerdict N expected elapsed (Inr code) =
     (if int32 code \<notin> set expected then
        \<lparr>pr_Observed = False,
         pr_Message = ''unexpected status code: got '' @ itoa code
           @ '', expected one of '' @ int_list_str expected,
         pr_Duration = elapsed\<rparr>
      else \<lparr>pr_Observed = True, pr_Message = '''', pr_Duration = elapsed\<rparr>)"

definition httpCheck :: "'w net \<Rightarrow> Options \<Rightarrow> CheckSpec \<Rightarrow> 'w ctx \<Rightarrow> Result option \<times> 'w ctx" where
  "httpCheck N opts spec s =
     (case chk_HTTP spec of
        None \<Rightarrow> (None, s)
      | Some cfg \<Rightarrow>
          let timeout = deref (http_Timeout cfg) defaultHTTPTimeout;
              dial = dialContext N (dialControl opts) 0;
              start = net_now N (world s)
          in case net_new_request N (httpMethod cfg) (http_URL cfg) of
               Some e \<Rightarrow>
                 (Some \<lparr>pr_Observed = False, pr_Message = net_error_text N e,
                        pr_Duration = time_sub (net_now N (world s)) start\<rparr>, s)
             | None \<Rightarrow>
                 (case net_http_do N timeout (httpRequest cfg) dial s of
                    (r, s1) \<Rightarrow>
                      (Some (httpVerdict N (httpExpected cfg) (time_sub (net_now N (world s1)) start) r), s1)))"

definition NewHTTPChecker :: "'w net \<Rightarrow> Options \<Rightarrow> 'w Checker" where
  "NewHTTPChecker N opts = \<lparr>ck_Type = TypeHTTP, ck_Check = httpCheck N opts\<rparr>"

subsection \<open>gRPC (grpc.go)\<close>

definition defaultGRPCTimeout :: duration where
  "defaultGRPCTimeout = 5 * Second"

text \<open>\<open>HealthCheckResponse_SERVING\<close> of the gRPC health protocol.\<close>

abbreviation (input) SERVING :: int where "SERVING \<equiv> 1"

definition grpcCredentials :: "GRPCCheck \<Rightarrow> credentials" where
  "grpcCredentials cfg =
     (case grpc_TLS cfg of
        None \<Rightarrow> InsecureCredentials
      | Some t \<Rightarrow> TLSCredentials (tls_InsecureSkipVerify t) ''TLS 1.2'')"

fun grpcVerdict :: "'w net \<Rightarrow> duration \<Rightarrow> net_error + int \<Rightarrow> Result" where
  "grpcVerdict N elapsed (Inl e) =
     \<lparr>pr_Observed = False, pr_Message = net_error_text N e, pr_Duration = elapsed\<rparr>"
| "grpcVerdict N elapsed (Inr status) =
     (if status \<noteq> SERVING then
        \<lparr>pr_Observed = False,
         pr_Message = ''server reported health status '' @ net_status_name N status
           @ '', expected SERVING'',
         pr_Duration = elapsed\<rparr>
      else \<lparr>pr_Observed = True, pr_Message = '''', pr_Duration = elapsed\<rparr>)"

definition grpcCheck :: "'w net \<Rightarrow> Options \<Rightarrow> CheckSpec \<Rightarrow> 'w ctx \<Rightarrow> Result option \<times> 'w ctx" where
  "grpcCheck N opts spec s =
     (case chk_GRPC spec of
        None \<Rightarrow> (None, s)
      | Some cfg \<Rightarrow>
          let timeout = deref (grpc_Timeout cfg) defaultGRPCTimeout;
              creds = grpcCredentials cfg;
              dial = dialContext N (dialControl opts) 0
          in case net_grpc_new N (grpc_Address cfg) creds of
               Some e \<Rightarrow> (Some \<lparr>pr_Observed = False, pr_Message = net_error_text N e, pr_Duration = 0\<rparr>, s)
             | None \<Rightarrow>
                 let start = net_now N (world s) in
                 (case net_grpc_health N (grpc_Address cfg) creds (grpc_Service cfg) timeout dial s of
                    (r, s1) \<Rightarrow> (Some (grpcVerdict N (time_sub (net_now N (world s1)) start) r), s1)))"

definition NewGRPCChecker :: "'w net \<Rightarrow> Options \<Rightarrow> 'w Checker" where
  "NewGRPCChecker N opts = \<lparr>ck_Type = TypeGRPC, ck_Check = grpcCheck N opts\<rparr>"

subsection \<open>The registry (checker.go)\<close>

type_synonym 'w Registry = "string \<rightharpoonup> 'w Checker"

definition NewRegistry :: "'w Checker list \<Rightarrow> 'w Registry" where
  "NewRegistry checkers = foldl (\<lambda>m c. m(ck_Type c \<mapsto> c)) Map.empty checkers"

definition ForSpec :: "'w Registry \<Rightarrow> CheckSpec \<Rightarrow> 'w Checker option" where
  "ForSpec r spec =
     (if chk_TCP spec \<noteq> None then r TypeTCP
      else if chk_HTTP spec \<noteq> None then r TypeHTTP
      else if chk_GRPC spec \<noteq> None then r TypeGRPC
      else None)"

section \<open>The guard admits no local address\<close>

text \<open>
  The addresses the guard is for, by their octets: the IPv4 loopback and link-local networks
  (127/8, 169.254/16, 224.0.0/24), also in IPv4-mapped form, the IPv6 loopback, fe80::/10 and the
  link-local multicast addresses.
\<close>

definition local_v4 :: "nat list \<Rightarrow> bool" where
  "local_v4 q \<longleftrightarrow> q ! 0 = 127 \<or> (q ! 0 = 169 \<and> q ! 1 = 254) \<or> (q ! 0 = 224 \<and> q ! 1 = 0 \<and> q ! 2 = 0)"

definition local_v6 :: "nat list \<Rightarrow> bool" where
  "local_v6 ip \<longleftrightarrow> ip = ipv6loopback \<or> (ip ! 0 = 254 \<and> ip ! 1 div 64 = 2) \<or> (ip ! 0 = 255 \<and> ip ! 1 mod 16 = 2)"

definition local_ip :: "nat list \<Rightarrow> bool" where
  "local_ip ip \<longleftrightarrow> (if take 12 ip = v4_prefix then local_v4 (drop 12 ip) else local_v6 ip)"

definition admits :: "string \<Rightarrow> bool" where
  "admits address \<longleftrightarrow>
     (case splitHostPort address of
        Inl _ \<Rightarrow> False
      | Inr (host, _) \<Rightarrow> (case parseIP host of None \<Rightarrow> False | Some ip \<Rightarrow> \<not> local_ip ip))"

section \<open>Connect calls\<close>

text \<open>The actions of a probe: connect calls, to the addresses \<open>p\<close> permits.\<close>

fun connect_to :: "(string \<Rightarrow> bool) \<Rightarrow> action \<Rightarrow> bool" where
  "connect_to p (Connect address) = p address"
| "connect_to p _ = False"

text \<open>A client acts only through its dialer: whatever bounds every dial bounds the client.\<close>

definition dials_through :: "('w dialer \<Rightarrow> 'w ctx \<Rightarrow> 'r \<times> 'w ctx) \<Rightarrow> bool" where
  "dials_through f \<longleftrightarrow>
     (\<forall>d s P. (\<forall>addr t. issues P t (snd (d addr t))) \<longrightarrow> issues P s (snd (f d s)))"

definition allowed :: "Options \<Rightarrow> string \<Rightarrow> bool" where
  "allowed opts address \<longleftrightarrow> opt_AllowLocalTargets opts \<or> admits address"

section \<open>What a probe promises\<close>

text \<open>
  A prober is responsible for the checks its selector picks: on them it never panics. When it
  observes success it leaves no message, and it only adds connects to permitted addresses.
\<close>

locale guarded_prober =
  fixes selects :: "CheckSpec \<Rightarrow> bool"
    and probe :: "CheckSpec \<Rightarrow> 'w ctx \<Rightarrow> Result option \<times> 'w ctx"
    and permitted :: "string \<Rightarrow> bool"
  assumes probe_total: "selects spec \<Longrightarrow> fst (probe spec s) \<noteq> None"
    and probe_clean: "fst (probe spec s) = Some r \<Longrightarrow> pr_Observed r \<Longrightarrow> pr_Message r = ''''"
    and probe_guarded: "issues (connect_to permitted) s (snd (probe spec s))"

locale guarded_network =
  fixes N :: "'w net"
    and opts :: Options
  assumes http_dials: "dials_through (net_http_do N timeout req)"
    and grpc_dials: "dials_through (net_grpc_health N address creds service timeout)"

section \<open>The probes keep the promise\<close>

unbundle bit_operations_syntax

lemma local_ip_iff:
  assumes "length ip = 16" and "\<forall>x \<in> set ip. x \<le> 255"
  shows "isLoopback ip \<or> isLinkLocalUnicast ip \<or> isLinkLocalMulticast ip \<longleftrightarrow> local_ip ip"
proof -
  have "ip ! 1 \<in> set ip" using assms(1) by simp
  with assms(2) have "ip ! 1 \<le> 255" by blast
  then have "(ip ! 1 AND 192 = 128) = (ip ! 1 div 64 = 2)" by (auto simp: and_192)
  then show ?thesis
    using assms(1) by (auto simp: isLoopback_def isLinkLocalUnicast_def isLinkLocalMulticast_def to4_def
        local_ip_def local_v4_def local_v6_def and_15)
qed

lemma dialGuard_admits: "dialGuard address = None \<longleftrightarrow> admits address"
proof -
  have "isLoopback ip \<or> isLinkLocalUnicast ip \<or> isLinkLocalMulticast ip \<longleftrightarrow> local_ip ip"
    if "parseIP host = Some ip" for host ip
    using that parseIP_length parseIP_bytes by (intro local_ip_iff) auto
  then show ?thesis
    by (auto simp: dialGuard_def admits_def split: sum.splits option.splits prod.splits)
qed

lemma dialControl_allowed:
  "(case dialControl opts of None \<Rightarrow> None | Some f \<Rightarrow> f ra) = None \<Longrightarrow> allowed opts ra"
  by (auto simp: dialControl_def allowed_def dialGuard_admits split: if_splits)

lemma dialSerial_allowed:
  "issues (connect_to (allowed opts)) s (snd (dialSerial N (dialControl opts) timeout ras e addr s))"
proof (induction ras arbitrary: e s)
  case Nil
  then show ?case by simp
next
  case (Cons ra ras)
  show ?case
  proof (cases "case dialControl opts of None \<Rightarrow> None | Some f \<Rightarrow> f ra")
    case None
    obtain r t where p: "perform (Connect ra) (net_connect N timeout ra) s = (r, t)" by fastforce
    have t: "issues (connect_to (allowed opts)) s t"
      using dialControl_allowed [OF None] by (intro issues_perform [OF p]) simp_all
    then show ?thesis using None p issues_trans [OF t Cons.IH] by (cases r) simp_all
  next
    case (Some g)
    then show ?thesis using Cons by simp
  qed
qed

lemma dialContext_allowed:
  "issues (connect_to (allowed opts)) s (snd (dialContext N (dialControl opts) timeout addr s))"
proof -
  obtain r t where r: "silent (net_resolve N addr) s = (r, t)" by fastforce
  have "issues (connect_to (allowed opts)) s t" by (rule issues_silent [OF r]) simp
  then show ?thesis
    using r by (cases r) (simp_all add: dialContext_def issues_trans [OF _ dialSerial_allowed])
qed

text \<open>The context a probe leaves is the one its client leaves.\<close>

lemma tcpCheck_ctx:
  "chk_TCP spec = Some cfg \<Longrightarrow> snd (tcpCheck N opts spec s) =
     snd (dialContext N (dialControl opts) (deref (tcp_Timeout cfg) defaultTCPTimeout) (tcp_Address cfg) s)"
  by (simp add: tcpCheck_def Let_def split: prod.split)

lemma httpCheck_ctx:
  "chk_HTTP spec = Some cfg \<Longrightarrow> snd (httpCheck N opts spec s) =
     (if net_new_request N (httpMethod cfg) (http_URL cfg) = None
      then snd (net_http_do N (deref (http_Timeout cfg) defaultHTTPTimeout) (httpRequest cfg)
                  (dialContext N (dialControl opts) 0) s)
      else s)"
  by (simp add: httpCheck_def Let_def split: prod.split option.split)

lemma grpcCheck_ctx:
  "chk_GRPC spec = Some cfg \<Longrightarrow> snd (grpcCheck N opts spec s) =
     (if net_grpc_new N (grpc_Address cfg) (grpcCredentials cfg) = None
      then snd (net_grpc_health N (grpc_Address cfg) (grpcCredentials cfg) (grpc_Service cfg)
                  (deref (grpc_Timeout cfg) defaultGRPCTimeout) (dialContext N (dialControl opts) 0) s)
      else s)"
  by (simp add: grpcCheck_def Let_def split: prod.split option.split)

lemma verdict_clean:
  "pr_Observed (tcpVerdict N d r) \<Longrightarrow> pr_Message (tcpVerdict N d r) = []"
  "pr_Observed (httpVerdict N ex d q) \<Longrightarrow> pr_Message (httpVerdict N ex d q) = []"
  "pr_Observed (grpcVerdict N d q) \<Longrightarrow> pr_Message (grpcVerdict N d q) = []"
  by (cases r, simp_all) (cases q, simp_all split: if_splits)+

context guarded_network
begin

lemma client_allowed:
  assumes "dials_through f"
  shows "issues (connect_to (allowed opts)) s (snd (f (dialContext N (dialControl opts) timeout) s))"
proof -
  let ?d = "dialContext N (dialControl opts) timeout"
  have "(\<forall>addr t. issues (connect_to (allowed opts)) t (snd (?d addr t))) \<longrightarrow>
      issues (connect_to (allowed opts)) s (snd (f ?d s))"
    using assms unfolding dials_through_def by (elim allE)
  then show ?thesis by (simp add: dialContext_allowed)
qed

lemma tcp_prober: "guarded_prober (\<lambda>c. chk_TCP c \<noteq> None) (tcpCheck N opts) (allowed opts)"
proof
  fix spec :: CheckSpec and s :: "'w ctx"
  show "fst (tcpCheck N opts spec s) \<noteq> None" if "chk_TCP spec \<noteq> None"
    using that by (auto simp: tcpCheck_def Let_def split: prod.splits)
  show "pr_Message r = ''''" if "fst (tcpCheck N opts spec s) = Some r" "pr_Observed r" for r
    using that by (auto simp: tcpCheck_def Let_def verdict_clean split: option.splits prod.splits)
  show "issues (connect_to (allowed opts)) s (snd (tcpCheck N opts spec s))"
  proof (cases "chk_TCP spec")
    case None
    then show ?thesis by (simp add: tcpCheck_def)
  next
    case (Some cfg)
    then show ?thesis by (simp only: tcpCheck_ctx dialContext_allowed)
  qed
qed

lemma http_prober: "guarded_prober (\<lambda>c. chk_HTTP c \<noteq> None) (httpCheck N opts) (allowed opts)"
proof
  fix spec :: CheckSpec and s :: "'w ctx"
  show "fst (httpCheck N opts spec s) \<noteq> None" if "chk_HTTP spec \<noteq> None"
    using that by (auto simp: httpCheck_def Let_def split: prod.splits option.splits)
  show "pr_Message r = ''''" if "fst (httpCheck N opts spec s) = Some r" "pr_Observed r" for r
    using that by (auto simp: httpCheck_def Let_def verdict_clean split: option.splits prod.splits)
  show "issues (connect_to (allowed opts)) s (snd (httpCheck N opts spec s))"
  proof (cases "chk_HTTP spec")
    case None
    then show ?thesis by (simp add: httpCheck_def)
  next
    case (Some cfg)
    from httpCheck_ctx [OF this, of N opts s] client_allowed [OF http_dials]
    show ?thesis by simp
  qed
qed

lemma grpc_prober: "guarded_prober (\<lambda>c. chk_GRPC c \<noteq> None) (grpcCheck N opts) (allowed opts)"
proof
  fix spec :: CheckSpec and s :: "'w ctx"
  show "fst (grpcCheck N opts spec s) \<noteq> None" if "chk_GRPC spec \<noteq> None"
    using that by (auto simp: grpcCheck_def Let_def split: prod.splits option.splits)
  show "pr_Message r = ''''" if "fst (grpcCheck N opts spec s) = Some r" "pr_Observed r" for r
    using that by (auto simp: grpcCheck_def Let_def verdict_clean split: option.splits prod.splits)
  show "issues (connect_to (allowed opts)) s (snd (grpcCheck N opts spec s))"
  proof (cases "chk_GRPC spec")
    case None
    then show ?thesis by (simp add: grpcCheck_def)
  next
    case (Some cfg)
    from grpcCheck_ctx [OF this, of N opts s] client_allowed [OF grpc_dials]
    show ?thesis by simp
  qed
qed

end

sublocale guarded_network \<subseteq> tcp: guarded_prober "\<lambda>c. chk_TCP c \<noteq> None" "tcpCheck N opts" "allowed opts"
  by (rule tcp_prober)

sublocale guarded_network \<subseteq> http: guarded_prober "\<lambda>c. chk_HTTP c \<noteq> None" "httpCheck N opts" "allowed opts"
  by (rule http_prober)

sublocale guarded_network \<subseteq> grpc: guarded_prober "\<lambda>c. chk_GRPC c \<noteq> None" "grpcCheck N opts" "allowed opts"
  by (rule grpc_prober)


section \<open>A scripted network\<close>

text \<open>
  A concrete network over which the probes can be run: names resolve by a table, whether a connect
  succeeds depends on the address and the time, an HTTP or gRPC server answers with a number, and
  waiting moves the clock. It keeps the contract of \<open>guarded_network\<close>.
\<close>

record script =
  sc_now :: time
  sc_cancelled :: bool
  sc_resolve :: "string \<Rightarrow> string list"
  sc_connect :: "time \<Rightarrow> string \<Rightarrow> bool"
  sc_answer :: "string \<Rightarrow> int"

definition sc_dial_answer :: "script dialer \<Rightarrow> string \<Rightarrow> script ctx \<Rightarrow> (net_error + int) \<times> script ctx" where
  "sc_dial_answer dial addr s =
     (case dial addr s of
        (Inl e, s1) \<Rightarrow> (Inl e, s1)
      | (Inr ra, s1) \<Rightarrow> (Inr (sc_answer (world s1) ra), s1))"

definition scriptNet :: "script net" where
  "scriptNet =
     \<lparr>net_now = sc_now,
      net_error_text = (\<lambda>e. case e of GuardError _ \<Rightarrow> ''blocked'' | NetError t \<Rightarrow> t),
      net_resolve = (\<lambda>addr w. (Inr (sc_resolve w addr), w)),
      net_connect = (\<lambda>timeout ra w.
        (if sc_connect w (sc_now w) ra then None else Some (NetError ''connection refused''), w)),
      net_new_request = (\<lambda>meth url. None),
      net_http_do = (\<lambda>timeout req dial. sc_dial_answer dial (rq_URL req)),
      net_grpc_new = (\<lambda>addr creds. None),
      net_grpc_health = (\<lambda>addr creds service timeout dial. sc_dial_answer dial addr),
      net_status_name = itoa,
      net_wait = (\<lambda>delay w. (sc_cancelled w, w\<lparr>sc_now := sc_now w + delay\<rparr>))\<rparr>"

lemma sc_dial_answer_through: "dials_through (\<lambda>dial. sc_dial_answer dial addr)"
  unfolding dials_through_def
proof (intro allI impI)
  fix d :: "script dialer" and s :: "script ctx" and P :: "action \<Rightarrow> bool"
  assume "\<forall>a t. issues P t (snd (d a t))"
  then have "issues P s (snd (d addr s))" by blast
  then show "issues P s (snd (sc_dial_answer d addr s))"
    by (cases "d addr s") (simp add: sc_dial_answer_def split: sum.split)
qed

interpretation script: guarded_network scriptNet opts for opts
  by unfold_locales (simp_all add: scriptNet_def sc_dial_answer_through)

end
