(* ===== verification/Runner.thy ===== *)
theory Runner
  imports Checker
begin

text \<open>
  Package \<open>internal/runner\<close>: what a runner pod does. It reads its assignment from the
  environment, fetches the CheckRun, executes the checks assigned to its runner with retries and
  expect inversion, and applies one document with its own results; its exit code says whether the
  checks were executed and reported, never how they came out.

  The checks run concurrently in an errgroup, which is a parameter: given the limit and the number of
  goroutines it yields the starts and the ends in the order in which they happen, with the contract
  \<open>schedules\<close>; \<open>runTasks\<close> takes the effects of a check at its end.
  \<open>retry.OnError\<close> of client-go is a parameter with the contract \<open>retrier\<close>.
\<close>

section \<open>The assignment (runner.go)\<close>

definition EnvCheckRunName :: string where "EnvCheckRunName = ''VERIKUBE_CHECKRUN_NAME''"
definition EnvCheckRunNamespace :: string where "EnvCheckRunNamespace = ''VERIKUBE_CHECKRUN_NAMESPACE''"
definition EnvRunnerName :: string where "EnvRunnerName = ''VERIKUBE_RUNNER_NAME''"
definition EnvPodName :: string where "EnvPodName = ''POD_NAME''"
definition EnvNodeName :: string where "EnvNodeName = ''NODE_NAME''"

definition defaultRetryDelay :: duration where "defaultRetryDelay = 1 * Second"
definition maxMessageLength :: nat where "maxMessageLength = 1024"

record Config =
  cfg_CheckRunName :: string
  cfg_Namespace :: string
  cfg_RunnerName :: string
  cfg_PodName :: string
  cfg_NodeName :: string
  cfg_MaxConcurrentChecks :: int

text \<open>The error names the first required variable that is not set.\<close>

definition ConfigFromEnv :: "(string \<Rightarrow> string) \<Rightarrow> string + Config" where
  "ConfigFromEnv getenv =
     (let cfg = \<lparr>cfg_CheckRunName = getenv EnvCheckRunName, cfg_Namespace = getenv EnvCheckRunNamespace,
            cfg_RunnerName = getenv EnvRunnerName, cfg_PodName = getenv EnvPodName,
            cfg_NodeName = getenv EnvNodeName, cfg_MaxConcurrentChecks = 0\<rparr>
      in case find (\<lambda>(key, val). val = '''')
             [(EnvCheckRunName, cfg_CheckRunName cfg), (EnvCheckRunNamespace, cfg_Namespace cfg),
              (EnvRunnerName, cfg_RunnerName cfg), (EnvPodName, cfg_PodName cfg)] of
           Some (key, _) \<Rightarrow> Inl key
         | None \<Rightarrow> Inr cfg)"

definition FilterChecks :: "CheckSpec list \<Rightarrow> string \<Rightarrow> CheckSpec list" where
  "FilterChecks checks runnerName =
     filter (\<lambda>c. chk_Runners c = [] \<or> runnerName \<in> set (chk_Runners c)) checks"

section \<open>One check: retries and expect inversion\<close>

definition observe :: "Result \<Rightarrow> ObservedOutcome" where
  "observe res = (if pr_Observed res then ObservedSuccess else ObservedFailure)"

text \<open>
  The \<open>for\<close> loop of \<open>executeCheck\<close>. It counts the attempt, probes, and stops when the
  observation matches or the attempts are used up; otherwise it waits for the delay or the end of
  the context, which sets the counter to the maximum.
\<close>

function retryLoop :: "'w net \<Rightarrow> ('w ctx \<Rightarrow> Result option \<times> 'w ctx) \<Rightarrow> string \<Rightarrow> int \<Rightarrow> duration \<Rightarrow>
    int \<Rightarrow> 'w ctx \<Rightarrow> (Result \<times> ObservedOutcome \<times> int) option \<times> 'w ctx" where
  "retryLoop N check expected attempts delay attempt s =
     (let attempt1 = attempt + 1 in
      case check s of
        (None, s1) \<Rightarrow> (None, s1)
      | (Some res, s1) \<Rightarrow>
          let observed = observe res in
          if observed_string observed = expected \<or> attempts \<le> attempt1
          then (Some (res, observed, attempt1), s1)
          else case silent (net_wait N delay) s1 of
                 (cancelled, s2) \<Rightarrow>
                   if cancelled then (Some (res, observed, attempts), s2)
                   else retryLoop N check expected attempts delay attempt1 s2)"
  by pat_completeness auto
termination
  by (relation "measure (\<lambda>(N, check, expected, attempts, delay, attempt, s). nat (attempts - attempt))") auto

declare retryLoop.simps [simp del]

definition expectedOutcome :: "CheckSpec \<Rightarrow> ExpectedOutcome" where
  "expectedOutcome spec = (if chk_Expect spec = ExpectUnset then ExpectSuccess else chk_Expect spec)"

definition retryAttempts :: "CheckSpec \<Rightarrow> int" where
  "retryAttempts spec =
     (case chk_Retries spec of
        None \<Rightarrow> 1
      | Some rp \<Rightarrow> if rp_Attempts rp > 0 then rp_Attempts rp else 1)"

definition retryDelay :: "CheckSpec \<Rightarrow> duration" where
  "retryDelay spec =
     (case chk_Retries spec of
        None \<Rightarrow> defaultRetryDelay
      | Some rp \<Rightarrow> deref (rp_Delay rp) defaultRetryDelay)"

definition unknownTypeResult :: "CheckSpec \<Rightarrow> CheckResult" where
  "unknownTypeResult spec =
     \<lparr>res_Name = chk_Name spec, res_Passed = False, res_Observed = ObservedFailure, res_Attempts = 1,
      res_Message = ''unknown check type (runner image too old?)'', res_Duration = None\<rparr>"

definition executeCheck :: "'w net \<Rightarrow> 'w Registry \<Rightarrow> CheckSpec \<Rightarrow> 'w ctx \<Rightarrow> CheckResult option \<times> 'w ctx" where
  "executeCheck N reg spec s =
     (let expected = expectedOutcome spec in
      case ForSpec reg spec of
        None \<Rightarrow> (Some (unknownTypeResult spec), s)
      | Some chk \<Rightarrow>
          (case retryLoop N (ck_Check chk spec) (expected_string expected) (retryAttempts spec)
                  (retryDelay spec) 0 s of
             (None, s1) \<Rightarrow> (None, s1)
           | (Some (res, observed, attempt), s1) \<Rightarrow>
               (Some \<lparr>res_Name = chk_Name spec,
                      res_Passed = (observed_string observed = expected_string expected),
                      res_Observed = observed,
                      res_Attempts = attempt,
                      res_Message = take maxMessageLength (pr_Message res),
                      res_Duration = Some (dur_round (pr_Duration res) Millisecond)\<rparr>, s1)))"

section \<open>All checks\<close>

definition zeroResult :: CheckResult where
  "zeroResult = \<lparr>res_Name = '''', res_Passed = False, res_Observed = ObservedUnset, res_Attempts = 0,
     res_Message = '''', res_Duration = None\<rparr>"

text \<open>Each goroutine writes the element of its own index.\<close>

fun runTasks :: "(CheckSpec \<Rightarrow> 'w ctx \<Rightarrow> CheckResult option \<times> 'w ctx) \<Rightarrow> CheckSpec list \<Rightarrow> nat list \<Rightarrow>
    CheckResult list \<Rightarrow> 'w ctx \<Rightarrow> CheckResult list option \<times> 'w ctx" where
  "runTasks exec checks [] results s = (Some results, s)"
| "runTasks exec checks (i # is) results s =
     (case exec (checks ! i) s of
        (None, s1) \<Rightarrow> (None, s1)
      | (Some r, s1) \<Rightarrow> runTasks exec checks is (results[i := r]) s1)"

datatype group_event = Started nat | Finished nat

fun finished :: "group_event list \<Rightarrow> nat list" where
  "finished [] = []"
| "finished (Started i # es) = finished es"
| "finished (Finished i # es) = i # finished es"

fun in_flight :: "group_event list \<Rightarrow> int" where
  "in_flight [] = 0"
| "in_flight (Started i # es) = in_flight es + 1"
| "in_flight (Finished i # es) = in_flight es - 1"

text \<open>\<open>SetLimit\<close>, \<open>Go\<close> for each of \<open>n\<close> goroutines, and \<open>Wait\<close>.\<close>

type_synonym errgroup = "int \<Rightarrow> nat \<Rightarrow> group_event list"

definition concurrencyLimit :: "Config \<Rightarrow> int" where
  "concurrencyLimit cfg = (if cfg_MaxConcurrentChecks cfg \<le> 0 then 8 else cfg_MaxConcurrentChecks cfg)"

definition executeChecks :: "'w net \<Rightarrow> 'w Registry \<Rightarrow> errgroup \<Rightarrow> Config \<Rightarrow> CheckSpec list \<Rightarrow>
    'w ctx \<Rightarrow> CheckResult list option \<times> 'w ctx" where
  "executeChecks N reg order cfg checks s =
     (let results = replicate (length checks) zeroResult; limit = concurrencyLimit cfg in
      runTasks (executeCheck N reg) checks (finished (order limit (length checks))) results s)"

text \<open>
  The documented contract of the group: a positive limit bounds the goroutines under way at any time, a
  negative one means no limit; every goroutine ends once. With the limit zero none can be added, so nothing is
  promised then.
\<close>

definition schedules :: "errgroup \<Rightarrow> bool" where
  "schedules order \<longleftrightarrow> (\<forall>limit n. limit \<noteq> 0 \<longrightarrow>
     distinct (finished (order limit n)) \<and> set (finished (order limit n)) = {..<n}
     \<and> (0 < limit \<longrightarrow> (\<forall>k. in_flight (take k (order limit n)) \<le> limit)))"

section \<open>Reporting (report.go)\<close>

text \<open>The document names the CheckRun and holds this pod's entry, and nothing else.\<close>

definition BuildApplyDocument :: "pkgs \<Rightarrow> string \<Rightarrow> string \<Rightarrow> string \<Rightarrow> PodResult \<Rightarrow> api_error + json" where
  "BuildApplyDocument P namespace name runnerName pod =
     (case p_pod_map P pod of
        Inl e \<Rightarrow> Inl e
      | Inr podMap \<Rightarrow> Inr (JObj
          [(''apiVersion'', JStr SchemeGroupVersion),
           (''kind'', JStr ''CheckRun''),
           (''metadata'', JObj [(''name'', JStr name), (''namespace'', JStr namespace)]),
           (''status'', JObj
             [(''runners'', JArr
               [JObj [(''name'', JStr runnerName), (''pods'', JArr [JObj podMap])]])])]))"

text \<open>\<open>wait.Backoff\<close>; the factor and the jitter are in tenths.\<close>

record Backoff =
  bo_Steps :: nat
  bo_Duration :: duration
  bo_FactorTenths :: int
  bo_JitterTenths :: int
  bo_Cap :: duration

definition reportBackoff :: Backoff where
  "reportBackoff = \<lparr>bo_Steps = 8, bo_Duration = 250 * Millisecond, bo_FactorTenths = 20,
     bo_JitterTenths = 1, bo_Cap = 15 * Second\<rparr>"

type_synonym 'w on_error =
  "Backoff \<Rightarrow> (api_error \<Rightarrow> bool) \<Rightarrow> ('w ctx \<Rightarrow> api_error option \<times> 'w ctx) \<Rightarrow>
   'w ctx \<Rightarrow> api_error option \<times> 'w ctx"

definition report :: "'w kube \<Rightarrow> pkgs \<Rightarrow> 'w on_error \<Rightarrow> Config \<Rightarrow> PodResult \<Rightarrow> 'w ctx \<Rightarrow> api_error option \<times> 'w ctx" where
  "report K P onError cfg pod s =
     (case BuildApplyDocument P (cfg_Namespace cfg) (cfg_CheckRunName cfg) (cfg_RunnerName cfg) pod of
        Inl e \<Rightarrow> (Some e, s)
      | Inr doc \<Rightarrow>
          onError reportBackoff (\<lambda>_. True)
            (perform (Req (ApplyRunStatus doc (cfg_PodName cfg))) (k_apply_status K doc (cfg_PodName cfg))) s)"

section \<open>The run and the exit code (runner.go, main.go)\<close>

datatype run_outcome = RunPanic | RunError string api_error | RunOk

definition Run :: "'w kube \<Rightarrow> pkgs \<Rightarrow> 'w on_error \<Rightarrow> 'w net \<Rightarrow> 'w Registry \<Rightarrow> errgroup \<Rightarrow>
    Config \<Rightarrow> 'w ctx \<Rightarrow> run_outcome \<times> 'w ctx" where
  "Run K P onError N reg order cfg s =
     (let startTime = net_now N (world s); key = (cfg_Namespace cfg, cfg_CheckRunName cfg) in
      case perform (Req (GetRun key)) (k_get_run K key) s of
        (Inl e, s1) \<Rightarrow> (RunError ''failed to get CheckRun'' e, s1)
      | (Inr run, s1) \<Rightarrow>
          let checks = FilterChecks (tpl_Checks (run_Template run)) (cfg_RunnerName cfg) in
          (case executeChecks N reg order cfg checks s1 of
             (None, s2) \<Rightarrow> (RunPanic, s2)
           | (Some results, s2) \<Rightarrow>
               let pod = \<lparr>pod_PodName = cfg_PodName cfg, pod_NodeName = cfg_NodeName cfg,
                          pod_StartTime = Some startTime,
                          pod_CompletionTime = Some (net_now N (world s2)), pod_Checks = results\<rparr> in
               (case report K P onError cfg pod s2 of
                  (Some e, s3) \<Rightarrow> (RunError ''failed to report results'' e, s3)
                | (None, s3) \<Rightarrow> (RunOk, s3))))"

text \<open>The registry \<open>Main\<close> builds.\<close>

definition standardRegistry :: "'w net \<Rightarrow> Options \<Rightarrow> 'w Registry" where
  "standardRegistry N opts = NewRegistry [NewTCPChecker N opts, NewHTTPChecker N opts, NewGRPCChecker N opts]"

text \<open>
  \<open>Main\<close> after flag parsing: the values of the flags, whether the client configuration and the
  client could be made. A panic ends a Go program with exit code 2.
\<close>

definition runnerMain :: "'w kube \<Rightarrow> pkgs \<Rightarrow> 'w on_error \<Rightarrow> 'w net \<Rightarrow> errgroup \<Rightarrow>
    (string \<Rightarrow> string) \<Rightarrow> int \<Rightarrow> bool \<Rightarrow> bool \<Rightarrow> bool \<Rightarrow> 'w ctx \<Rightarrow> int \<times> 'w ctx" where
  "runnerMain K P onError N order getenv maxConcurrent allowLocal configOk clientOk s =
     (case ConfigFromEnv getenv of
        Inl _ \<Rightarrow> (1, s)
      | Inr cfg0 \<Rightarrow>
          let cfg = cfg0\<lparr>cfg_MaxConcurrentChecks := maxConcurrent\<rparr> in
          if \<not> configOk then (1, s)
          else if \<not> clientOk then (1, s)
          else
            let opts = \<lparr>opt_AllowLocalTargets = allowLocal\<rparr>;
                reg = standardRegistry N opts
            in case Run K P onError N reg order cfg s of
                 (RunPanic, s1) \<Rightarrow> (2, s1)
               | (RunError _ _, s1) \<Rightarrow> (1, s1)
               | (RunOk, s1) \<Rightarrow> (0, s1))"

section \<open>The retry loop\<close>

text \<open>The results of the attempts made, each followed by a wait that was not cancelled.\<close>

inductive attempt_run :: "'w net \<Rightarrow> ('w ctx \<Rightarrow> Result option \<times> 'w ctx) \<Rightarrow> duration \<Rightarrow>
    Result list \<Rightarrow> 'w ctx \<Rightarrow> 'w ctx \<Rightarrow> bool" for N check delay where
  last: "check s = (Some r, t) \<Longrightarrow> attempt_run N check delay [r] s t"
| again: "check s = (Some r, t) \<Longrightarrow> silent (net_wait N delay) t = (False, u) \<Longrightarrow>
    attempt_run N check delay rs u v \<Longrightarrow> attempt_run N check delay (r # rs) s v"

lemma attempt_run_nonempty: "attempt_run N check delay rs s t \<Longrightarrow> rs \<noteq> []"
  by (induction rule: attempt_run.induct) auto

definition meets :: "string \<Rightarrow> Result \<Rightarrow> bool" where
  "meets expected r \<longleftrightarrow> observed_string (observe r) = expected"

text \<open>How the loop ends after the attempts \<open>rs\<close>: satisfied, used up, or cancelled while waiting.\<close>

definition loop_end :: "'w net \<Rightarrow> string \<Rightarrow> int \<Rightarrow> duration \<Rightarrow> int \<Rightarrow> Result list \<Rightarrow> 'w ctx \<Rightarrow> int \<Rightarrow> 'w ctx \<Rightarrow> bool" where
  "loop_end N expected attempts delay attempt rs t n u \<longleftrightarrow>
     (t = u \<and> n = attempt + int (length rs) \<and> (meets expected (List.last rs) \<or> attempts \<le> n)) \<or>
     (silent (net_wait N delay) t = (True, u) \<and> n = attempts
       \<and> \<not> meets expected (List.last rs) \<and> attempt + int (length rs) < attempts)"

lemma one_attempt:
  assumes "check s = (Some r, s1)" and "attempt < attempts" and "loop_end N expected attempts delay attempt [r] s1 n u"
  shows "\<exists>rs t. attempt_run N check delay rs s t \<and> r = List.last rs
      \<and> (\<forall>r \<in> set (butlast rs). \<not> meets expected r) \<and> attempt + int (length rs) \<le> attempts
      \<and> loop_end N expected attempts delay attempt rs t n u"
proof -
  have "attempt_run N check delay [r] s s1" using assms(1) by (rule attempt_run.last)
  then show ?thesis using assms(2,3) by (intro exI [of _ "[r]"] exI [of _ s1]) simp
qed

lemma more_attempts:
  assumes "check s = (Some r, s1)" and "silent (net_wait N delay) s1 = (False, s2)" and "\<not> meets expected r"
    and "attempt_run N check delay rs s2 t" and "\<forall>r \<in> set (butlast rs). \<not> meets expected r"
    and "attempt + 1 + int (length rs) \<le> attempts" and "loop_end N expected attempts delay (attempt + 1) rs t n u"
  shows "attempt_run N check delay (r # rs) s t \<and> List.last (r # rs) = List.last rs
      \<and> (\<forall>q \<in> set (butlast (r # rs)). \<not> meets expected q) \<and> attempt + int (length (r # rs)) \<le> attempts
      \<and> loop_end N expected attempts delay attempt (r # rs) t n u"
proof -
  have "attempt_run N check delay (r # rs) s t" using assms(1,2,4) by (rule attempt_run.again)
  moreover have ne: "rs \<noteq> []" using assms(4) by (rule attempt_run_nonempty)
  then have lr: "List.last (r # rs) = List.last rs" by simp
  moreover have "int (length (r # rs)) = 1 + int (length rs)" by simp
  then have "loop_end N expected attempts delay attempt (r # rs) t n u"
    using assms(7) unfolding loop_end_def lr by (simp only: add.assoc)
  ultimately show ?thesis using assms(3,5,6) ne by simp
qed

lemma retryLoop_attempts:
  assumes "retryLoop N check expected attempts delay attempt s = (Some (res, obs, n), u)"
    and "attempt < attempts"
  shows "obs = observe res \<and> (\<exists>rs t. attempt_run N check delay rs s t \<and> res = List.last rs
      \<and> (\<forall>r \<in> set (butlast rs). \<not> meets expected r)
      \<and> attempt + int (length rs) \<le> attempts
      \<and> loop_end N expected attempts delay attempt rs t n u)"
  using assms
proof (induction N check expected attempts delay attempt s rule: retryLoop.induct)
  case (1 N check expected attempts delay attempt s)
  obtain r1 s1 where c: "check s = (r1, s1)" by fastforce
  with "1.prems"(1) obtain r where r: "r1 = Some r"
    by (subst (asm) retryLoop.simps) (cases r1, auto)
  note once = one_attempt [where check = check, OF c [unfolded r] "1.prems"(2)]
  show ?case
  proof (cases "meets expected r \<or> attempts \<le> attempt + 1")
    case True
    with "1.prems"(1) c r have eqs: "res = r" "obs = observe r" "n = attempt + 1" "u = s1"
      by (subst (asm) retryLoop.simps, auto simp: meets_def Let_def)+
    have "loop_end N expected attempts delay attempt [r] s1 n u" using True eqs by (auto simp: loop_end_def)
    then show ?thesis unfolding eqs(1,2) by (blast intro: once)
  next
    case False
    obtain canc s2 where w: "silent (net_wait N delay) s1 = (canc, s2)" by fastforce
    show ?thesis
    proof (cases canc)
      case True
      with False "1.prems"(1) c r w have eqs: "res = r" "obs = observe r" "n = attempts" "u = s2"
        by (subst (asm) retryLoop.simps, auto simp: meets_def Let_def)+
      have "loop_end N expected attempts delay attempt [r] s1 n u" using True False eqs w by (auto simp: loop_end_def)
      then show ?thesis unfolding eqs(1,2) by (blast intro: once)
    next
      case nc: False
      have rec: "retryLoop N check expected attempts delay (attempt + 1) s2 = (Some (res, obs, n), u)"
        using "1.prems"(1) c r w False nc by (subst (asm) retryLoop.simps) (auto simp: meets_def Let_def)
      have "obs = observe res \<and> (\<exists>rs t. attempt_run N check delay rs s2 t \<and> res = List.last rs
          \<and> (\<forall>r \<in> set (butlast rs). \<not> meets expected r) \<and> attempt + 1 + int (length rs) \<le> attempts
          \<and> loop_end N expected attempts delay (attempt + 1) rs t n u)"
        using c r w False nc rec by (intro "1.IH") (auto simp: meets_def)
      then obtain rs t where o: "obs = observe res" "res = List.last rs" and IH: "attempt_run N check delay rs s2 t"
        "\<forall>r \<in> set (butlast rs). \<not> meets expected r" "attempt + 1 + int (length rs) \<le> attempts"
        "loop_end N expected attempts delay (attempt + 1) rs t n u" by blast
      have "\<not> meets expected r" using False by simp
      from more_attempts [OF c [unfolded r] w [simplified nc] this IH] o show ?thesis by metis
    qed
  qed
qed

lemma retryLoop_total:
  "(\<And>t. fst (check t) \<noteq> None) \<Longrightarrow> fst (retryLoop N check expected attempts delay attempt s) \<noteq> None"
proof (induction N check expected attempts delay attempt s rule: retryLoop.induct)
  case (1 N check expected attempts delay attempt s)
  obtain r s1 where c: "check s = (Some r, s1)" using "1.prems" [of s] by (cases "check s") auto
  obtain canc s2 where w: "silent (net_wait N delay) s1 = (canc, s2)" by fastforce
  have "fst (retryLoop N check expected attempts delay (attempt + 1) s2) \<noteq> None"
    if "\<not> (observed_string (observe r) = expected \<or> attempts \<le> attempt + 1)" "\<not> canc"
    using that c w "1.prems" by (intro "1.IH") auto
  then show ?case using c w by (subst retryLoop.simps) (auto simp: Let_def)
qed

lemma retryLoop_issues:
  "(\<And>t. issues P t (snd (check t))) \<Longrightarrow>
   issues P s (snd (retryLoop N check expected attempts delay attempt s))"
proof (induction N check expected attempts delay attempt s rule: retryLoop.induct)
  case (1 N check expected attempts delay attempt s)
  obtain r s1 where c: "check s = (r, s1)" by fastforce
  with "1.prems" [of s] have I1: "issues P s s1" by simp
  obtain canc s2 where w: "silent (net_wait N delay) s1 = (canc, s2)" by fastforce
  then have I2: "issues P s s2" using I1 by (rule issues_silent)
  show ?case
  proof (cases r)
    case None
    then show ?thesis using c I1 by (subst retryLoop.simps) simp
  next
    case (Some res)
    have "issues P s2 (snd (retryLoop N check expected attempts delay (attempt + 1) s2))"
      if "\<not> (observed_string (observe res) = expected \<or> attempts \<le> attempt + 1)" "\<not> canc"
      using that c w Some "1.prems" by (intro "1.IH") auto
    then show ?thesis using c w Some I1 I2
      by (subst retryLoop.simps) (auto simp: Let_def intro: issues_trans)
  qed
qed

context guarded_prober
begin

text \<open>A prober keeps its promise through the retry loop.\<close>

lemma retry_total:
  "selects spec \<Longrightarrow> fst (retryLoop N (probe spec) expected attempts delay attempt s) \<noteq> None"
  by (rule retryLoop_total) (rule probe_total)

lemma retry_guarded:
  "issues (connect_to permitted) s (snd (retryLoop N (probe spec) expected attempts delay attempt s))"
  by (rule retryLoop_issues) (rule probe_guarded)

end

section \<open>One check\<close>

lemma retryAttempts_pos: "1 \<le> retryAttempts spec"
  by (simp add: retryAttempts_def split: option.split)

lemma executeCheck_unknown: "ForSpec reg spec = None \<Longrightarrow> executeCheck N reg spec s = (Some (unknownTypeResult spec), s)"
  by (simp add: executeCheck_def)

lemma executeCheck_known:
  assumes "ForSpec reg spec = Some chk" and "executeCheck N reg spec s = (Some r, t)"
  obtains res n where
    "retryLoop N (ck_Check chk spec) (expected_string (expectedOutcome spec)) (retryAttempts spec)
       (retryDelay spec) 0 s = (Some (res, observe res, n), t)"
    "r = \<lparr>res_Name = chk_Name spec,
       res_Passed = meets (expected_string (expectedOutcome spec)) res,
       res_Observed = observe res, res_Attempts = n,
       res_Message = take maxMessageLength (pr_Message res),
       res_Duration = Some (dur_round (pr_Duration res) Millisecond)\<rparr>"
proof -
  obtain q u where l: "retryLoop N (ck_Check chk spec) (expected_string (expectedOutcome spec))
      (retryAttempts spec) (retryDelay spec) 0 s = (q, u)" by fastforce
  with assms obtain res obs n where q: "q = Some (res, obs, n)" and u: "u = t"
    by (cases q) (auto simp: executeCheck_def)
  have "obs = observe res"
    using retryLoop_attempts [OF l [unfolded q]] retryAttempts_pos [of spec] by auto
  with l q u assms show ?thesis by (intro that) (auto simp: executeCheck_def meets_def)
qed

lemma executeCheck_name: "executeCheck N reg spec s = (Some r, t) \<Longrightarrow> res_Name r = chk_Name spec"
  by (cases "ForSpec reg spec") (auto simp: executeCheck_unknown unknownTypeResult_def elim: executeCheck_known)

lemma executeCheck_observed:
  assumes "executeCheck N reg spec s = (Some r, t)"
  shows "res_Observed r \<noteq> ObservedUnset"
proof (cases "ForSpec reg spec")
  case None
  then show ?thesis using assms by (auto simp: executeCheck_unknown unknownTypeResult_def)
next
  case (Some chk)
  then show ?thesis by (rule executeCheck_known [OF _ assms]) (simp add: observe_def)
qed

lemma loop_end_bounds:
  "loop_end N expected attempts delay 0 rs t n u \<Longrightarrow> int (length rs) \<le> attempts \<Longrightarrow> rs \<noteq> [] \<Longrightarrow>
   1 \<le> n \<and> n \<le> attempts"
  by (cases rs) (auto simp: loop_end_def)

lemma executeCheck_bounds:
  assumes "executeCheck N reg spec s = (Some r, t)"
  shows "1 \<le> res_Attempts r \<and> res_Attempts r \<le> retryAttempts spec"
    and "length (res_Message r) \<le> maxMessageLength"
proof -
  have "(1 \<le> res_Attempts r \<and> res_Attempts r \<le> retryAttempts spec) \<and> length (res_Message r) \<le> maxMessageLength"
  proof (cases "ForSpec reg spec")
    case None
    with assms retryAttempts_pos [of spec] show ?thesis
      by (auto simp: executeCheck_unknown unknownTypeResult_def maxMessageLength_def)
  next
    case (Some chk)
    from executeCheck_known [OF this assms] obtain res n where
      l: "retryLoop N (ck_Check chk spec) (expected_string (expectedOutcome spec)) (retryAttempts spec)
            (retryDelay spec) 0 s = (Some (res, observe res, n), t)"
      and r: "res_Attempts r = n" "res_Message r = take maxMessageLength (pr_Message res)"
      by (metis CheckResult.select_convs(4,5))
    from retryLoop_attempts [OF l] retryAttempts_pos [of spec] obtain rs u where
      "attempt_run N (ck_Check chk spec) (retryDelay spec) rs s u" "int (length rs) \<le> retryAttempts spec"
      "loop_end N (expected_string (expectedOutcome spec)) (retryAttempts spec) (retryDelay spec) 0 rs u n t"
      by auto
    then show ?thesis using loop_end_bounds attempt_run_nonempty r by fastforce
  qed
  then show "1 \<le> res_Attempts r \<and> res_Attempts r \<le> retryAttempts spec"
    and "length (res_Message r) \<le> maxMessageLength" by simp_all
qed

section \<open>The standard registry\<close>

lemma standardRegistry_entries:
  "standardRegistry N opts TypeTCP = Some (NewTCPChecker N opts)"
  "standardRegistry N opts TypeHTTP = Some (NewHTTPChecker N opts)"
  "standardRegistry N opts TypeGRPC = Some (NewGRPCChecker N opts)"
  by (simp_all add: standardRegistry_def NewRegistry_def NewTCPChecker_def NewHTTPChecker_def
      NewGRPCChecker_def TypeTCP_def TypeHTTP_def TypeGRPC_def)

lemma ForSpec_standard:
  "ForSpec (standardRegistry N opts) spec =
     (if chk_TCP spec \<noteq> None then Some (NewTCPChecker N opts)
      else if chk_HTTP spec \<noteq> None then Some (NewHTTPChecker N opts)
      else if chk_GRPC spec \<noteq> None then Some (NewGRPCChecker N opts)
      else None)"
  by (simp add: ForSpec_def standardRegistry_entries)

lemma executeCheck_ctx:
  "ForSpec reg spec = Some chk \<Longrightarrow> snd (executeCheck N reg spec s) =
     snd (retryLoop N (ck_Check chk spec) (expected_string (expectedOutcome spec)) (retryAttempts spec)
            (retryDelay spec) 0 s)"
  by (simp add: executeCheck_def Let_def split: prod.split option.split)

lemma executeCheck_some:
  "ForSpec reg spec = Some chk \<Longrightarrow>
   fst (retryLoop N (ck_Check chk spec) (expected_string (expectedOutcome spec)) (retryAttempts spec)
          (retryDelay spec) 0 s) \<noteq> None \<Longrightarrow> fst (executeCheck N reg spec s) \<noteq> None"
  by (simp add: executeCheck_def Let_def split: prod.split option.split) auto

context guarded_network
begin

lemma execute_total: "fst (executeCheck N (standardRegistry N opts) spec s) \<noteq> None"
proof (cases "ForSpec (standardRegistry N opts) spec")
  case None
  then show ?thesis by (simp add: executeCheck_unknown)
next
  case (Some chk)
  then have "fst (retryLoop N (ck_Check chk spec) e a d 0 s) \<noteq> None" for e a d
    using tcp.retry_total [of spec] http.retry_total [of spec] grpc.retry_total [of spec]
    by (auto simp: ForSpec_standard NewTCPChecker_def NewHTTPChecker_def NewGRPCChecker_def split: if_splits)
  then show ?thesis by (rule executeCheck_some [OF Some])
qed

lemma execute_guarded:
  "issues (connect_to (allowed opts)) s (snd (executeCheck N (standardRegistry N opts) spec s))"
proof (cases "ForSpec (standardRegistry N opts) spec")
  case None
  then show ?thesis by (simp add: executeCheck_unknown)
next
  case (Some chk)
  then show ?thesis
    using tcp.retry_guarded http.retry_guarded grpc.retry_guarded
    by (auto simp: executeCheck_ctx [OF Some] ForSpec_standard NewTCPChecker_def NewHTTPChecker_def
        NewGRPCChecker_def split: if_splits)
qed

end

section \<open>All checks\<close>

lemma runTasks_results:
  assumes "runTasks exec checks is results s = (Some rs, t)"
    and "\<And>spec s r t. exec spec s = (Some r, t) \<Longrightarrow> Q spec r"
    and "set is \<subseteq> {..<length results}"
  shows "length rs = length results
    \<and> (\<forall>i < length results. if i \<in> set is then Q (checks ! i) (rs ! i) else rs ! i = results ! i)"
  using assms
proof (induction exec checks "is" results s rule: runTasks.induct)
  case (1 exec checks results s)
  then show ?case by simp
next
  case (2 exec checks i "is" results s)
  obtain q s1 where e: "exec (checks ! i) s = (q, s1)" by fastforce
  with "2.prems"(1) obtain r where q: "q = Some r" by (cases q) auto
  with e "2.prems" have IH: "length rs = length (results[i := r])
      \<and> (\<forall>j < length (results[i := r]).
           if j \<in> set is then Q (checks ! j) (rs ! j) else rs ! j = (results[i := r]) ! j)"
    by (intro "2.IH") auto
  have Qr: "Q (checks ! i) r" using "2.prems"(2) e q by simp
  show ?case
  proof (intro conjI allI impI)
    show "length rs = length results" using IH by simp
    fix j assume "j < length results"
    then show "if j \<in> set (i # is) then Q (checks ! j) (rs ! j) else rs ! j = results ! j"
      using IH Qr by (cases "j \<in> set is"; cases "j = i") auto
  qed
qed

lemma runTasks_total:
  "(\<And>i s. i \<in> set is \<Longrightarrow> fst (exec (checks ! i) s) \<noteq> None) \<Longrightarrow>
   fst (runTasks exec checks is results s) \<noteq> None"
proof (induction exec checks "is" results s rule: runTasks.induct)
  case (2 exec checks i "is" results s)
  then obtain r s1 where "exec (checks ! i) s = (Some r, s1)"
    by (metis list.set_intros(1) option.exhaust prod.collapse)
  with 2 show ?case by simp
qed simp

lemma runTasks_issues:
  "(\<And>c s. issues P s (snd (exec c s))) \<Longrightarrow> issues P s (snd (runTasks exec checks is results s))"
proof (induction exec checks "is" results s rule: runTasks.induct)
  case (2 exec checks i "is" results s)
  obtain q s1 where e: "exec (checks ! i) s = (q, s1)" by fastforce
  with "2.prems" [of s "checks ! i"] have "issues P s s1" by simp
  with e "2.IH" "2.prems" show ?case by (cases q) (auto intro: issues_trans)
qed simp

lemma concurrencyLimit_pos: "0 < concurrencyLimit cfg"
  by (simp add: concurrencyLimit_def)

lemma executeChecks_results:
  assumes "schedules order" and "executeChecks N reg order cfg checks s = (Some rs, t)"
    and "\<And>spec s r t. executeCheck N reg spec s = (Some r, t) \<Longrightarrow> Q spec r"
  shows "list_all2 Q checks rs"
proof -
  have set: "set (finished (order (concurrencyLimit cfg) (length checks))) = {..<length checks}"
    using assms(1) concurrencyLimit_pos [of cfg] by (simp add: schedules_def)
  from runTasks_results [OF assms(2) [unfolded executeChecks_def Let_def], of Q] assms(3) set
  have "length rs = length checks \<and> (\<forall>i < length checks. Q (checks ! i) (rs ! i))" by simp
  then show ?thesis by (simp add: list_all2_conv_all_nth)
qed

lemma executeChecks_names:
  assumes "schedules order" and "executeChecks N reg order cfg checks s = (Some rs, t)"
  shows "map res_Name rs = map chk_Name checks"
proof -
  have "list_all2 (\<lambda>spec r. res_Name r = chk_Name spec) checks rs"
    using assms executeCheck_name by (rule executeChecks_results)
  then show ?thesis by (induction rule: list_all2_induct) simp_all
qed

section \<open>Retrying the report\<close>

text \<open>\<open>n\<close> calls of \<open>f\<close>, all but the last failing, with waits between them that act on nothing.\<close>

inductive tries :: "('w ctx \<Rightarrow> api_error option \<times> 'w ctx) \<Rightarrow> nat \<Rightarrow> 'w ctx \<Rightarrow> api_error option \<Rightarrow> 'w ctx \<Rightarrow> bool"
  for f where
  once: "f s = (r, t) \<Longrightarrow> tries f 1 s r t"
| more: "f s = (Some e, t) \<Longrightarrow> acts u = acts t \<Longrightarrow> tries f n u r v \<Longrightarrow> tries f (Suc n) s r v"

text \<open>
  The documented contract of \<open>retry.OnError\<close> with a condition that always retries: it calls
  the function at least once and at most \<open>Steps\<close> times, and returns what the last call
  returned.
\<close>

locale retrier =
  fixes onError :: "'w on_error"
  assumes within_steps: "0 < bo_Steps b \<Longrightarrow> onError b (\<lambda>_. True) f s = (r, t) \<Longrightarrow>
    \<exists>n. 1 \<le> n \<and> n \<le> bo_Steps b \<and> tries f n s r t"

lemma tries_ok:
  "(\<And>s. fst (f s) = None) \<Longrightarrow> tries f n s r t \<Longrightarrow> r = None"
  by (erule tries.cases) (metis fst_conv option.distinct(1))+

lemma tries_acts:
  "tries f n s r t \<Longrightarrow> (\<And>s r t. f s = (r, t) \<Longrightarrow> acts t = acts s @ [a]) \<Longrightarrow>
   acts t = acts s @ replicate n a"
  by (induction rule: tries.induct) (auto simp: replicate_append_same [symmetric])

text \<open>The document a report applies.\<close>

definition report_action :: "Config \<Rightarrow> json \<Rightarrow> action" where
  "report_action cfg doc = Req (ApplyRunStatus doc (cfg_PodName cfg))"

context retrier
begin

lemma report_acts:
  assumes "report K P onError cfg pod s = (r, t)"
    and "BuildApplyDocument P (cfg_Namespace cfg) (cfg_CheckRunName cfg) (cfg_RunnerName cfg) pod = Inr doc"
  shows "\<exists>n. 1 \<le> n \<and> n \<le> 8 \<and> acts t = acts s @ replicate n (report_action cfg doc)"
proof -
  let ?f = "perform (report_action cfg doc) (k_apply_status K doc (cfg_PodName cfg))"
  have "onError reportBackoff (\<lambda>_. True) ?f s = (r, t)"
    using assms by (simp add: report_def report_action_def)
  then obtain n where n: "1 \<le> n" "n \<le> 8" "tries ?f n s r t"
    using within_steps [of reportBackoff ?f s r t] by (auto simp: reportBackoff_def)
  moreover have "acts t = acts s @ replicate n (report_action cfg doc)"
    using n(3) acts_perform by (rule tries_acts)
  ultimately show ?thesis by blast
qed

lemma report_ok:
  assumes "\<And>pod. \<exists>m. p_pod_map P pod = Inr m" and "\<And>doc owner w. fst (k_apply_status K doc owner w) = None"
  shows "fst (report K P onError cfg pod s) = None"
proof -
  from assms(1) [of pod] obtain m where "p_pod_map P pod = Inr m" ..
  then obtain doc where
    doc: "BuildApplyDocument P (cfg_Namespace cfg) (cfg_CheckRunName cfg) (cfg_RunnerName cfg) pod = Inr doc"
    by (simp add: BuildApplyDocument_def)
  let ?f = "perform (report_action cfg doc) (k_apply_status K doc (cfg_PodName cfg))"
  obtain r t where r: "onError reportBackoff (\<lambda>_. True) ?f s = (r, t)" by fastforce
  then obtain n where n: "tries ?f n s r t"
    using within_steps [of reportBackoff ?f s r t] by (auto simp: reportBackoff_def)
  have "fst (?f s) = None" for s by (simp add: perform_result assms(2))
  from tries_ok [OF this n] show ?thesis using doc r by (simp add: report_def report_action_def)
qed

end

text \<open>Retrying without waits, exactly as often as the backoff says, meets the contract.\<close>

fun retry_times :: "nat \<Rightarrow> (api_error \<Rightarrow> bool) \<Rightarrow> ('w ctx \<Rightarrow> api_error option \<times> 'w ctx) \<Rightarrow>
    'w ctx \<Rightarrow> api_error option \<times> 'w ctx" where
  "retry_times 0 retriable f s = f s"
| "retry_times (Suc n) retriable f s =
     (case f s of
        (None, t) \<Rightarrow> (None, t)
      | (Some e, t) \<Rightarrow> if retriable e then retry_times n retriable f t else (Some e, t))"

definition plainOnError :: "'w on_error" where
  "plainOnError b = retry_times (bo_Steps b - 1)"

lemma retry_times_tries:
  "retry_times k (\<lambda>_. True) f s = (r, t) \<Longrightarrow> \<exists>n. 1 \<le> n \<and> n \<le> Suc k \<and> tries f n s r t"
proof (induction k arbitrary: s)
  case 0
  then show ?case using tries.once [of f s r t] by (intro exI [of _ 1]) simp
next
  case (Suc k)
  obtain q u where f: "f s = (q, u)" by fastforce
  show ?case
  proof (cases q)
    case None
    with f Suc.prems have "tries f 1 s r t" by (intro tries.once) simp
    then show ?thesis by auto
  next
    case (Some e)
    with f Suc.prems Suc.IH [of u] obtain n where "1 \<le> n" "n \<le> Suc k" "tries f n u r t" by auto
    then show ?thesis using f Some tries.more [of f s e u u n r t] by (intro exI [of _ "Suc n"]) simp
  qed
qed

interpretation plain: retrier plainOnError
proof
  fix b :: Backoff and f :: "'a ctx \<Rightarrow> api_error option \<times> 'a ctx" and s r t
  assume "0 < bo_Steps b" and "plainOnError b (\<lambda>_. True) f s = (r, t)"
  with retry_times_tries [of "bo_Steps b - 1" f s r t]
  show "\<exists>n. 1 \<le> n \<and> n \<le> bo_Steps b \<and> tries f n s r t" by (simp add: plainOnError_def)
qed

section \<open>A whole run\<close>

lemma executeChecks_total:
  "guarded_network N \<Longrightarrow> fst (executeChecks N (standardRegistry N opts) order cfg checks s) \<noteq> None"
  unfolding executeChecks_def Let_def by (rule runTasks_total) (rule guarded_network.execute_total)

lemma executeChecks_issues:
  "guarded_network N \<Longrightarrow>
   issues (connect_to (allowed opts)) s (snd (executeChecks N (standardRegistry N opts) order cfg checks s))"
  unfolding executeChecks_def Let_def by (rule runTasks_issues) (rule guarded_network.execute_guarded)

text \<open>What a run that reports has done: read the CheckRun, probed, and applied one document.\<close>

lemma Run_ok_trace:
  assumes "retrier onError" and "guarded_network N" and "schedules order"
    and "Run K P onError N (standardRegistry N opts) order cfg s = (RunOk, t)"
  obtains run results pod doc probes n where
    "fst (k_get_run K (cfg_Namespace cfg, cfg_CheckRunName cfg) (world s)) = Inr run"
    "map res_Name results = map chk_Name (FilterChecks (tpl_Checks (run_Template run)) (cfg_RunnerName cfg))"
    "pod_PodName pod = cfg_PodName cfg" "pod_NodeName pod = cfg_NodeName cfg" "pod_Checks pod = results"
    "BuildApplyDocument P (cfg_Namespace cfg) (cfg_CheckRunName cfg) (cfg_RunnerName cfg) pod = Inr doc"
    "list_all (connect_to (allowed opts)) probes" "1 \<le> n" "n \<le> 8"
    "acts t = acts s @ [Req (GetRun (cfg_Namespace cfg, cfg_CheckRunName cfg))] @ probes
       @ replicate n (report_action cfg doc)"
    "list_all2 (\<lambda>spec r. \<exists>s u. executeCheck N (standardRegistry N opts) spec s = (Some r, u))
       (FilterChecks (tpl_Checks (run_Template run)) (cfg_RunnerName cfg)) results"
proof -
  let ?key = "(cfg_Namespace cfg, cfg_CheckRunName cfg)"
  obtain g s1 where g: "perform (Req (GetRun ?key)) (k_get_run K ?key) s = (g, s1)" by fastforce
  with assms(4) obtain run where run: "g = Inr run" by (cases g) (auto simp: Run_def Let_def)
  let ?checks = "FilterChecks (tpl_Checks (run_Template run)) (cfg_RunnerName cfg)"
  let ?reg = "standardRegistry N opts"
  obtain q s2 where e: "executeChecks N ?reg order cfg ?checks s1 = (q, s2)" by fastforce
  with assms(4) g run obtain results where q: "q = Some results" by (cases q) (auto simp: Run_def Let_def)
  define pod where "pod = \<lparr>pod_PodName = cfg_PodName cfg, pod_NodeName = cfg_NodeName cfg,
      pod_StartTime = Some (net_now N (world s)), pod_CompletionTime = Some (net_now N (world s2)),
      pod_Checks = results\<rparr>"
  have rep: "report K P onError cfg pod s2 = (None, t)"
    using assms(4) g run e q by (auto simp: Run_def Let_def pod_def split: prod.splits option.splits)
  then obtain doc where doc: "BuildApplyDocument P (cfg_Namespace cfg) (cfg_CheckRunName cfg)
      (cfg_RunnerName cfg) pod = Inr doc"
    by (cases "BuildApplyDocument P (cfg_Namespace cfg) (cfg_CheckRunName cfg) (cfg_RunnerName cfg) pod")
      (auto simp: report_def)
  obtain n where n: "1 \<le> n" "n \<le> 8" "acts t = acts s2 @ replicate n (report_action cfg doc)"
    using retrier.report_acts [OF assms(1) rep doc] by blast
  obtain probes where probes: "acts s2 = acts s1 @ probes" "list_all (connect_to (allowed opts)) probes"
    using executeChecks_issues [OF assms(2), of opts s1 order cfg ?checks] e by (auto simp: issues_def)
  show thesis
  proof (rule that [of run results pod doc probes n])
    show "fst (k_get_run K ?key (world s)) = Inr run"
      using perform_result [of "Req (GetRun ?key)" "k_get_run K ?key" s] g run by simp
    show "map res_Name results = map chk_Name ?checks"
      using assms(3) e q by (intro executeChecks_names) auto
    show "acts t = acts s @ [Req (GetRun ?key)] @ probes @ replicate n (report_action cfg doc)"
      using n(3) probes(1) acts_perform [OF g] by simp
    show "list_all2 (\<lambda>spec r. \<exists>s u. executeCheck N ?reg spec s = (Some r, u)) ?checks results"
      using assms(3) e [unfolded q] by (rule executeChecks_results) blast
  qed (use n doc probes in \<open>simp_all add: pod_def\<close>)
qed

lemma Run_ok:
  assumes "retrier onError" and "guarded_network N"
    and "\<And>w. \<exists>run. fst (k_get_run K (cfg_Namespace cfg, cfg_CheckRunName cfg) w) = Inr run"
    and "\<And>pod. \<exists>m. p_pod_map P pod = Inr m" and "\<And>doc owner w. fst (k_apply_status K doc owner w) = None"
  shows "fst (Run K P onError N (standardRegistry N opts) order cfg s) = RunOk"
proof -
  let ?key = "(cfg_Namespace cfg, cfg_CheckRunName cfg)"
  obtain run s1 where g: "perform (Req (GetRun ?key)) (k_get_run K ?key) s = (Inr run, s1)"
    using assms(3) [of "world s"] by (metis perform_result prod.collapse)
  obtain rs s2 where e: "executeChecks N (standardRegistry N opts) order cfg
      (FilterChecks (tpl_Checks (run_Template run)) (cfg_RunnerName cfg)) s1 = (Some rs, s2)"
    using executeChecks_total [OF assms(2)] by (metis option.exhaust prod.collapse)
  have "fst (report K P onError cfg pod s2) = None" for pod
    using assms(1,4,5) by (rule retrier.report_ok)
  then show ?thesis using g e
    by (auto simp: Run_def Let_def split: prod.split option.split) (metis fst_conv option.distinct(1))+
qed

lemma Run_no_panic:
  assumes "guarded_network N"
  shows "fst (Run K P onError N (standardRegistry N opts) order cfg s) \<noteq> RunPanic"
proof -
  have "executeChecks N (standardRegistry N opts) order cfg checks s1 \<noteq> (None, s2)" for checks s1 s2
    using executeChecks_total [OF assms, of opts order cfg checks s1] by auto
  then show ?thesis by (simp add: Run_def Let_def split: prod.split option.split sum.split)
qed

text \<open>All a runner may do: read its run, connect to what the guard permits, and apply a status.\<close>

fun runnerAction :: "Options \<Rightarrow> action \<Rightarrow> bool" where
  "runnerAction opts (Connect address) \<longleftrightarrow> allowed opts address"
| "runnerAction opts (Req (GetRun key)) \<longleftrightarrow> True"
| "runnerAction opts (Req (ApplyRunStatus doc owner)) \<longleftrightarrow> True"
| "runnerAction opts _ \<longleftrightarrow> False"

lemma report_issues:
  assumes "retrier onError"
  shows "issues (runnerAction opts) s (snd (report K P onError cfg pod s))"
proof -
  obtain r t where rep: "report K P onError cfg pod s = (r, t)" by fastforce
  show ?thesis
  proof (cases "BuildApplyDocument P (cfg_Namespace cfg) (cfg_CheckRunName cfg) (cfg_RunnerName cfg) pod")
    case (Inl e)
    then show ?thesis by (simp add: report_def)
  next
    case (Inr doc)
    from retrier.report_acts [OF assms rep this] rep show ?thesis
      by (auto simp: issues_set report_action_def)
  qed
qed

lemma Run_issues:
  assumes "retrier onError" and "guarded_network N"
  shows "issues (runnerAction opts) s (snd (Run K P onError N (standardRegistry N opts) order cfg s))"
proof -
  let ?key = "(cfg_Namespace cfg, cfg_CheckRunName cfg)"
  obtain g s1 where g: "perform (Req (GetRun ?key)) (k_get_run K ?key) s = (g, s1)" by fastforce
  have i1: "issues (runnerAction opts) s s1" by (rule issues_perform [OF g]) simp_all
  show ?thesis
  proof (cases g)
    case (Inl e)
    then show ?thesis using g i1 by (simp add: Run_def)
  next
    case (Inr run)
    let ?checks = "FilterChecks (tpl_Checks (run_Template run)) (cfg_RunnerName cfg)"
    obtain q s2 where e: "executeChecks N (standardRegistry N opts) order cfg ?checks s1 = (q, s2)" by fastforce
    have "runnerAction opts a" if "connect_to (allowed opts) a" for a
      using that by (cases a) auto
    then have "issues (runnerAction opts) s1 s2"
      using executeChecks_issues [OF assms(2), of opts s1 order cfg ?checks] e by (auto elim: issues_mono)
    with i1 have i2: "issues (runnerAction opts) s s2" by (rule issues_trans)
    have "issues (runnerAction opts) s (snd (report K P onError cfg pod s2))" for pod
      by (rule issues_trans [OF i2 report_issues [OF assms(1)]])
    then show ?thesis using g Inr e i2
      by (auto simp: Run_def Let_def split: prod.split option.split) (metis snd_conv)+
  qed
qed

end
