(* ===== verification/Metrics.thy ===== *)
theory Metrics
  imports Kube_Api
begin

text \<open>
  Package \<open>internal/metrics\<close>: the label names of the collectors and the two operations that
  replace or drop a suite's gauges. The Prometheus client is not part of the repository: an
  operation on a collector is an action \<open>Met\<close>, and what gauges read afterwards is given by a
  registry with the contract \<open>gauge_registry\<close>, which a map of series meets.
\<close>

section \<open>Collectors\<close>

definition namespaceLabel :: string where "namespaceLabel = ''namespace''"
definition suiteLabel :: string where "suiteLabel = ''suite''"
definition checkLabel :: string where "checkLabel = ''check''"
definition resultLabel :: string where "resultLabel = ''result''"

definition ResultPass :: string where "ResultPass = ''pass''"
definition ResultFail :: string where "ResultFail = ''fail''"

text \<open>The label names each collector is made with.\<close>

fun vec_labels :: "vec \<Rightarrow> string list" where
  "vec_labels CheckRunsTotal = [namespaceLabel, suiteLabel, ''phase'']"
| "vec_labels CheckRunDuration = [namespaceLabel, suiteLabel]"
| "vec_labels CheckResultTotal = [namespaceLabel, suiteLabel, checkLabel, resultLabel]"
| "vec_labels CheckDuration = [namespaceLabel, suiteLabel, checkLabel, resultLabel]"
| "vec_labels CheckLastResult = [namespaceLabel, suiteLabel, checkLabel]"
| "vec_labels CheckRunLastCompletion = [namespaceLabel, suiteLabel]"

text \<open>The constructor each is made with, and its name.\<close>

datatype vec_type = CounterVec | HistogramVec | GaugeVec

fun vec_type_of :: "vec \<Rightarrow> vec_type" where
  "vec_type_of CheckRunsTotal = CounterVec"
| "vec_type_of CheckRunDuration = HistogramVec"
| "vec_type_of CheckResultTotal = CounterVec"
| "vec_type_of CheckDuration = HistogramVec"
| "vec_type_of CheckLastResult = GaugeVec"
| "vec_type_of CheckRunLastCompletion = GaugeVec"

fun vec_Name :: "vec \<Rightarrow> string" where
  "vec_Name CheckRunsTotal = ''verikube_checkruns_total''"
| "vec_Name CheckRunDuration = ''verikube_checkrun_duration_seconds''"
| "vec_Name CheckResultTotal = ''verikube_check_result_total''"
| "vec_Name CheckDuration = ''verikube_check_duration_seconds''"
| "vec_Name CheckLastResult = ''verikube_check_last_result''"
| "vec_Name CheckRunLastCompletion = ''verikube_checkrun_last_completion_timestamp_seconds''"

text \<open>
  An operation fits the collector it is on: \<open>WithLabelValues\<close> panics unless there is one value per label.
\<close>

fun well_labelled :: "metric_op \<Rightarrow> bool" where
  "well_labelled (CounterInc v lvs) \<longleftrightarrow> vec_type_of v = CounterVec \<and> length lvs = length (vec_labels v)"
| "well_labelled (Observe v lvs d) \<longleftrightarrow> vec_type_of v = HistogramVec \<and> length lvs = length (vec_labels v)"
| "well_labelled (GaugeSet v lvs x) \<longleftrightarrow> vec_type_of v = GaugeVec \<and> length lvs = length (vec_labels v)"
| "well_labelled (GaugeDeletePartial v labels) \<longleftrightarrow> vec_type_of v = GaugeVec \<and> fst ` set labels \<subseteq> set (vec_labels v)"

section \<open>Operations\<close>

text \<open>\<open>results\<close> is the Go map in the order in which it is ranged over.\<close>

definition SetLastResults :: "string \<Rightarrow> string \<Rightarrow> (string \<times> bool) list \<Rightarrow> 'w ctx \<Rightarrow> 'w ctx" where
  "SetLastResults namespace suite results s =
     emits (Met (GaugeDeletePartial CheckLastResult [(namespaceLabel, namespace), (suiteLabel, suite)])
       # map (\<lambda>(check, passed).
            Met (GaugeSet CheckLastResult [namespace, suite, check] (if passed then 1 else 0))) results) s"

definition DeleteSuite :: "string \<Rightarrow> string \<Rightarrow> 'w ctx \<Rightarrow> 'w ctx" where
  "DeleteSuite namespace suite s =
     (let labels = [(namespaceLabel, namespace), (suiteLabel, suite)] in
      emits [Met (GaugeDeletePartial CheckLastResult labels),
             Met (GaugeDeletePartial CheckRunLastCompletion labels)] s)"

section \<open>Gauges\<close>

text \<open>Does a series of the collector carry these label values?\<close>

definition carries :: "vec \<Rightarrow> string list \<Rightarrow> (string \<times> string) list \<Rightarrow> bool" where
  "carries v lvs labels \<longleftrightarrow> list_all (\<lambda>l. l \<in> set (zip (vec_labels v) lvs)) labels"

text \<open>
  A registry of gauges: setting a series changes that series, deleting drops the series of the
  collector that carry the labels, and counters and histograms are not gauges.
\<close>

locale gauge_registry =
  fixes val :: "'m \<Rightarrow> vec \<Rightarrow> string list \<rightharpoonup> int"
    and app :: "metric_op \<Rightarrow> 'm \<Rightarrow> 'm"
  assumes val_set: "val (app (GaugeSet v lvs x) m) w = (if w = v then (val m w)(lvs \<mapsto> x) else val m w)"
    and val_delete: "val (app (GaugeDeletePartial v labels) m) w lvs =
          (if w = v \<and> carries v lvs labels then None else val m w lvs)"
    and val_counter: "val (app (CounterInc v lvs) m) = val m"
    and val_observe: "val (app (Observe v lvs d) m) = val m"

fun metric_ops :: "action list \<Rightarrow> metric_op list" where
  "metric_ops [] = []"
| "metric_ops (Met op # as) = op # metric_ops as"
| "metric_ops (_ # as) = metric_ops as"

lemma metric_ops_append [simp]: "metric_ops (as @ bs) = metric_ops as @ metric_ops bs"
  by (induction as rule: metric_ops.induct) simp_all

lemma metric_ops_map_Met: "metric_ops (map (\<lambda>x. Met (f x)) xs) = map f xs"
  by (induction xs) simp_all

lemma carries_suite:
  "length lvs = length (vec_labels v) \<Longrightarrow>
   carries v lvs [(namespaceLabel, ns), (suiteLabel, suite)] \<longleftrightarrow> lvs ! 0 = ns \<and> lvs ! 1 = suite"
  by (cases v; cases lvs; cases "tl lvs"; cases "tl (tl lvs)"; cases "tl (tl (tl lvs))")
    (auto simp: carries_def namespaceLabel_def suiteLabel_def checkLabel_def resultLabel_def)

text \<open>The operations of the two functions, as lists.\<close>

definition last_result_ops :: "string \<Rightarrow> string \<Rightarrow> (string \<times> bool) list \<Rightarrow> metric_op list" where
  "last_result_ops namespace suite results =
     GaugeDeletePartial CheckLastResult [(namespaceLabel, namespace), (suiteLabel, suite)]
     # map (\<lambda>(c, p). GaugeSet CheckLastResult ([namespace, suite] @ [c]) (if p then 1 else 0)) results"

definition delete_suite_ops :: "string \<Rightarrow> string \<Rightarrow> metric_op list" where
  "delete_suite_ops namespace suite =
     [GaugeDeletePartial CheckLastResult [(namespaceLabel, namespace), (suiteLabel, suite)],
      GaugeDeletePartial CheckRunLastCompletion [(namespaceLabel, namespace), (suiteLabel, suite)]]"

lemma SetLastResults_emits:
  "SetLastResults ns suite results s = emits (map Met (last_result_ops ns suite results)) s"
  by (simp add: SetLastResults_def last_result_ops_def case_prod_unfold)

lemma DeleteSuite_emits: "DeleteSuite ns suite s = emits (map Met (delete_suite_ops ns suite)) s"
  by (simp add: DeleteSuite_def delete_suite_ops_def Let_def)

lemma suite_ops_labelled:
  "list_all well_labelled (last_result_ops namespace suite results)" "list_all well_labelled (delete_suite_ops namespace suite)"
  by (auto simp: last_result_ops_def delete_suite_ops_def list_all_iff)

context gauge_registry
begin

text \<open>\<open>fold app\<close> runs a list of operations, the first one first.\<close>

lemma val_sets_other:
  "w \<noteq> v \<or> butlast lvs \<noteq> ls \<or> List.last lvs \<notin> fst ` set rs \<Longrightarrow>
   val (fold app (map (\<lambda>(c, p). GaugeSet v (ls @ [c]) (f p)) rs) m) w lvs = val m w lvs"
  by (induction rs arbitrary: m) (auto simp: val_set)

lemma val_sets:
  "distinct (map fst rs) \<Longrightarrow> (c, p) \<in> set rs \<Longrightarrow>
   val (fold app (map (\<lambda>(c, p). GaugeSet v (ls @ [c]) (f p)) rs) m) v (ls @ [c]) = Some (f p)"
  by (induction rs arbitrary: m) (auto simp: val_set val_sets_other)

lemma val_not_gauge:
  "\<forall>op \<in> set ops. (\<exists>v lvs. op = CounterInc v lvs) \<or> (\<exists>v lvs d. op = Observe v lvs d) \<Longrightarrow>
   val (fold app ops m) = val m"
  by (induction ops arbitrary: m) (auto simp: val_counter val_observe)

text \<open>
  After \<open>SetLastResults\<close> the suite has exactly the series of the given results, and the
  series of other suites and collectors are as before; after \<open>DeleteSuite\<close> it has none.
\<close>

lemma last_results_own:
  assumes "distinct (map fst rs)"
  shows "val (fold app (last_result_ops ns suite rs) m) CheckLastResult [ns, suite, c] =
     map_option (\<lambda>p. if p then 1 else 0) (map_of rs c)"
proof -
  let ?m = "app (GaugeDeletePartial CheckLastResult [(namespaceLabel, ns), (suiteLabel, suite)]) m"
  have gone: "val ?m CheckLastResult [ns, suite, c] = None"
    by (simp add: val_delete carries_suite)
  show ?thesis
  proof (cases "map_of rs c")
    case None
    then have "List.last [ns, suite, c] \<notin> fst ` set rs" by (simp add: map_of_eq_None_iff)
    with val_sets_other [of CheckLastResult CheckLastResult "[ns, suite, c]" "[ns, suite]" rs _ ?m] None gone
    show ?thesis by (simp add: last_result_ops_def)
  next
    case (Some p)
    with val_sets [OF assms map_of_SomeD [OF Some], of CheckLastResult "[ns, suite]" _ ?m]
    show ?thesis by (simp add: last_result_ops_def)
  qed
qed

lemma last_results_other:
  assumes "w \<noteq> CheckLastResult \<or> ns' \<noteq> ns \<or> suite' \<noteq> suite"
    and "length lvs + 2 = length (vec_labels w)"
  shows "val (fold app (last_result_ops ns suite rs) m) w (ns' # suite' # lvs) = val m w (ns' # suite' # lvs)"
proof -
  let ?m = "app (GaugeDeletePartial CheckLastResult [(namespaceLabel, ns), (suiteLabel, suite)]) m"
  have "val ?m w (ns' # suite' # lvs) = val m w (ns' # suite' # lvs)"
    using assms by (auto simp: val_delete carries_suite)
  moreover have "w \<noteq> CheckLastResult \<or> butlast (ns' # suite' # lvs) \<noteq> [ns, suite]
      \<or> List.last (ns' # suite' # lvs) \<notin> fst ` set rs"
    using assms by (cases lvs) auto
  note val_sets_other [OF this, of "\<lambda>p. if p then 1 else 0" ?m]
  ultimately show ?thesis by (simp add: last_result_ops_def)
qed

lemma deleted_suite:
  assumes "w = CheckLastResult \<or> w = CheckRunLastCompletion" and "length lvs + 2 = length (vec_labels w)"
  shows "val (fold app (delete_suite_ops ns suite) m) w (ns' # suite' # lvs) =
     (if ns' = ns \<and> suite' = suite then None else val m w (ns' # suite' # lvs))"
  using assms by (auto simp: delete_suite_ops_def val_delete carries_suite)

end

text \<open>A map from series to values is such a registry.\<close>

type_synonym gauge_map = "vec \<times> string list \<rightharpoonup> int"

fun gauge_app :: "metric_op \<Rightarrow> gauge_map \<Rightarrow> gauge_map" where
  "gauge_app (GaugeSet v lvs x) m = m((v, lvs) \<mapsto> x)"
| "gauge_app (GaugeDeletePartial v labels) m =
     (\<lambda>(w, lvs). if w = v \<and> carries v lvs labels then None else m (w, lvs))"
| "gauge_app (CounterInc v lvs) m = m"
| "gauge_app (Observe v lvs d) m = m"

definition gauge_val :: "gauge_map \<Rightarrow> vec \<Rightarrow> string list \<rightharpoonup> int" where
  "gauge_val m v lvs = m (v, lvs)"

interpretation gauges: gauge_registry gauge_val gauge_app
  by unfold_locales (auto simp: gauge_val_def fun_eq_iff)

end
