(* ===== verification/CheckRun_Controller.thy ===== *)
theory CheckRun_Controller
  imports Names Runner Metrics
begin

text \<open>
  \<open>internal/controller/checkrun_controller.go\<close>: the reconciler that drives a CheckRun to a
  terminal phase. \<open>CheckRun_Reconcile\<close> is the whole handler: it reads the run, requires the
  runner's service account, ensures one Job per runner, applies the deadline, turns a failed Job
  into an error, aggregates the reported results and applies the status fields it owns.

  A handler returns \<open>Inl\<close> an error, or \<open>Inr\<close> the \<open>RequeueAfter\<close> of
  \<open>ctrl.Result\<close>, 0 when there is none. The Go maps \<open>jobs\<close> and \<open>lastResults\<close> are
  association lists; \<open>p_range_jobs\<close> and \<open>p_range_results\<close> give the order in which Go
  ranges over them. Log lines are left out.
\<close>

section \<open>Constants and the reconciler\<close>

definition DefaultRunnerServiceAccount :: string where
  "DefaultRunnerServiceAccount = ''verikube-runner''"

definition defaultRunTimeout :: duration where
  "defaultRunTimeout = 10 * Minute"

definition checkRunFieldManager :: string where
  "checkRunFieldManager = ''verikube-checkrun-controller''"

definition runnerSubcommand :: string where
  "runnerSubcommand = ''runner''"

text \<open>Type and reason constants of the core API.\<close>

abbreviation EventTypeNormal :: string where "EventTypeNormal \<equiv> ''Normal''"
abbreviation EventTypeWarning :: string where "EventTypeWarning \<equiv> ''Warning''"
abbreviation JobFailed :: string where "JobFailed \<equiv> ''Failed''"
abbreviation JobComplete :: string where "JobComplete \<equiv> ''Complete''"
abbreviation JobNameLabel :: string where "JobNameLabel \<equiv> ''batch.kubernetes.io/job-name''"

record CheckRunReconciler =
  rc_RunnerImage :: string
  rc_RunnerServiceAccount :: string
  rc_AllowLocalTargets :: bool

definition runnerServiceAccount :: "CheckRunReconciler \<Rightarrow> string" where
  "runnerServiceAccount r =
     (if rc_RunnerServiceAccount r \<noteq> '''' then rc_RunnerServiceAccount r else DefaultRunnerServiceAccount)"

definition isTerminalPhase :: "CheckRunPhase \<Rightarrow> bool" where
  "isTerminalPhase phase =
     (case phase of
        CheckRunSucceeded \<Rightarrow> True | CheckRunFailed \<Rightarrow> True | CheckRunError \<Rightarrow> True | _ \<Rightarrow> False)"

section \<open>Jobs\<close>

definition jobFailed :: "Job \<Rightarrow> bool" where
  "jobFailed job =
     list_ex (\<lambda>c. jc_Type c = JobFailed \<and> jc_Status c = ConditionTrue) (job_Conditions job)"

definition jobFailureMessage :: "Job \<Rightarrow> string" where
  "jobFailureMessage job =
     (case find (\<lambda>c. jc_Type c = JobFailed \<and> jc_Status c = ConditionTrue) (job_Conditions job) of
        Some c \<Rightarrow> jc_Message c | None \<Rightarrow> '''')"

definition jobSucceeded :: "Job \<Rightarrow> bool" where
  "jobSucceeded job =
     list_ex (\<lambda>c. jc_Type c = JobComplete \<and> jc_Status c = ConditionTrue) (job_Conditions job)"

text \<open>
  \<open>buildJob\<close>: the object before the API server sees it. \<open>int64(timeout.Seconds())\<close> drops
  the fraction of a second (the float in between is exact below 97 days).
\<close>

definition jobLabels :: "CheckRun \<Rightarrow> RunnerSpec \<Rightarrow> string \<rightharpoonup> string" where
  "jobLabels run rn =
     (let labels = [labelCheckRun \<mapsto> label63 (run_Name run), labelRunner \<mapsto> rn_Name rn] in
      case run_SuiteRef (run_Spec run) of
        None \<Rightarrow> labels
      | Some suite \<Rightarrow> labels(labelSuite \<mapsto> label63 suite))"

definition jobArgs :: "CheckRunReconciler \<Rightarrow> string list" where
  "jobArgs r = [runnerSubcommand] @ (if rc_AllowLocalTargets r then [''--allow-local-targets''] else [])"

definition runnerContainer :: "CheckRunReconciler \<Rightarrow> CheckRun \<Rightarrow> RunnerSpec \<Rightarrow> Container" where
  "runnerContainer r run rn =
     \<lparr>ctr_Name = runnerSubcommand,
      ctr_Image = rc_RunnerImage r,
      ctr_Args = jobArgs r,
      ctr_Env =
        [\<lparr>env_Name = EnvCheckRunName, env_Value = run_Name run, env_FieldPath = None\<rparr>,
         \<lparr>env_Name = EnvCheckRunNamespace, env_Value = run_Namespace run, env_FieldPath = None\<rparr>,
         \<lparr>env_Name = EnvRunnerName, env_Value = rn_Name rn, env_FieldPath = None\<rparr>,
         \<lparr>env_Name = EnvPodName, env_Value = '''', env_FieldPath = Some ''metadata.name''\<rparr>,
         \<lparr>env_Name = EnvNodeName, env_Value = '''', env_FieldPath = Some ''spec.nodeName''\<rparr>],
      ctr_AllowPrivilegeEscalation = Some False,
      ctr_DropCapabilities = [''ALL'']\<rparr>"

definition spreadConstraints :: "RunnerSpec \<Rightarrow> string \<Rightarrow> TopologySpreadConstraint list" where
  "spreadConstraints rn name =
     (case rn_TopologySpread rn of
        None \<Rightarrow> []
      | Some ts \<Rightarrow>
          [\<lparr>tsc_MaxSkew = 1,
            tsc_TopologyKey =
              (if ts_TopologyKey ts = '''' then ''topology.kubernetes.io/zone'' else ts_TopologyKey ts),
            tsc_WhenUnsatisfiable =
              (if ts_WhenUnsatisfiable ts = '''' then ''ScheduleAnyway'' else ts_WhenUnsatisfiable ts),
            tsc_MatchLabels = [JobNameLabel \<mapsto> name]\<rparr>])"

definition buildJob :: "pkgs \<Rightarrow> CheckRunReconciler \<Rightarrow> CheckRun \<Rightarrow> RunnerSpec \<Rightarrow> duration \<Rightarrow> api_error + Job" where
  "buildJob P r run rn timeout =
     (let name = jobName (run_Name run) (rn_Name rn);
          replicas = deref (rn_Replicas rn) 1;
          labels = jobLabels run rn;
          podSpec =
            \<lparr>ps_RestartPolicy = ''Never'',
             ps_ServiceAccountName = runnerServiceAccount r,
             ps_NodeSelector = rn_NodeSelector rn,
             ps_Tolerations = rn_Tolerations rn,
             ps_RunAsNonRoot = Some True,
             ps_SeccompProfile = ''RuntimeDefault'',
             ps_Containers = [runnerContainer r run rn],
             ps_TopologySpread = spreadConstraints rn name\<rparr>;
          job =
            \<lparr>job_Meta = \<lparr>om_Name = name, om_Namespace = run_Namespace run, om_UID = '''', om_Generation = 0,
               om_CreationTimestamp = 0, om_Labels = labels, om_Annotations = Map.empty, om_Controller = None,
        om_ResourceVersion = ''''\<rparr>,
             job_Spec =
               \<lparr>js_Parallelism = Some replicas, js_Completions = Some replicas, js_BackoffLimit = Some 2,
                js_ActiveDeadlineSeconds = Some (quot timeout Second),
                js_PodLabels = labels, js_PodSpec = podSpec\<rparr>,
             job_Conditions = []\<rparr>
      in p_own_job P run job)"

text \<open>The loop that ensures one Job per runner; \<open>jobs\<close> maps runner names to Jobs.\<close>

fun ensureJobs :: "'w kube \<Rightarrow> pkgs \<Rightarrow> CheckRunReconciler \<Rightarrow> CheckRun \<Rightarrow> duration \<Rightarrow> RunnerSpec list \<Rightarrow>
    (string \<times> Job) list \<Rightarrow> 'w ctx \<Rightarrow> (api_error + (string \<times> Job) list) \<times> 'w ctx" where
  "ensureJobs K P r run timeout [] jobs s = (Inr jobs, s)"
| "ensureJobs K P r run timeout (rn # rns) jobs s =
     (let key = (run_Namespace run, jobName (run_Name run) (rn_Name rn)) in
      case perform (Req (GetJob key)) (k_get_job K key) s of
        (Inr job, s1) \<Rightarrow> ensureJobs K P r run timeout rns (AList.update (rn_Name rn) job jobs) s1
      | (Inl NotFound, s1) \<Rightarrow>
          (case buildJob P r run rn timeout of
             Inl buildErr \<Rightarrow> (Inl buildErr, s1)
           | Inr desired \<Rightarrow>
               (case perform (Req (CreateJob desired)) (k_create_job K desired) s1 of
                  (Inr stored, s2) \<Rightarrow>
                    ensureJobs K P r run timeout rns (AList.update (rn_Name rn) stored jobs) s2
                | (Inl AlreadyExists, s2) \<Rightarrow>
                    ensureJobs K P r run timeout rns (AList.update (rn_Name rn) desired jobs) s2
                | (Inl e, s2) \<Rightarrow> (Inl e, s2)))
      | (Inl e, s1) \<Rightarrow> (Inl e, s1))"

section \<open>Aggregation\<close>

text \<open>\<open>podsByRunner\<close>: a later entry of the same name replaces an earlier one.\<close>

definition podsByRunner :: "CheckRun \<Rightarrow> string \<Rightarrow> PodResult list" where
  "podsByRunner run name =
     (case foldl (\<lambda>m rs. m(rs_Name rs \<mapsto> rs_Pods rs)) Map.empty (st_Runners (run_Status run)) name of
        None \<Rightarrow> [] | Some pods \<Rightarrow> pods)"

text \<open>The first result of the check's name in a pod decides; a pod without one fails the check.\<close>

definition podPassed :: "CheckSpec \<Rightarrow> PodResult \<Rightarrow> bool" where
  "podPassed chk pod =
     (case find (\<lambda>res. res_Name res = chk_Name chk) (pod_Checks pod) of
        None \<Rightarrow> False | Some res \<Rightarrow> res_Passed res)"

fun aggregateChecks :: "string \<Rightarrow> PodResult list \<Rightarrow> CheckSpec list \<Rightarrow>
    RunSummary \<times> message list \<Rightarrow> RunSummary \<times> message list" where
  "aggregateChecks rnName pods [] acc = acc"
| "aggregateChecks rnName pods (chk # chks) (summary, failing) =
     (let summary1 = summary\<lparr>sum_Total := sum_Total summary + 1\<rparr> in
      if list_all (podPassed chk) pods
      then aggregateChecks rnName pods chks (summary1\<lparr>sum_Passed := sum_Passed summary1 + 1\<rparr>, failing)
      else aggregateChecks rnName pods chks
             (summary1\<lparr>sum_Failed := sum_Failed summary1 + 1\<rparr>,
              failing @ [Sprintf ''check %q failed on runner %q'' [AStr (chk_Name chk), AStr rnName]]))"

definition zeroSummary :: RunSummary where
  "zeroSummary = \<lparr>sum_Total = 0, sum_Passed = 0, sum_Failed = 0\<rparr>"

fun aggregateRunners :: "CheckRun \<Rightarrow> RunnerSpec list \<Rightarrow> RunSummary \<times> message list \<Rightarrow>
    bool \<times> RunSummary \<times> message list" where
  "aggregateRunners run [] (summary, failing) = (True, summary, failing)"
| "aggregateRunners run (rn # rns) acc =
     (let replicas = deref (rn_Replicas rn) 1;
          pods = podsByRunner run (rn_Name rn) in
      if int (length pods) < replicas then (False, zeroSummary, [])
      else aggregateRunners run rns
             (aggregateChecks (rn_Name rn) pods (FilterChecks (tpl_Checks (run_Template run)) (rn_Name rn)) acc))"

definition aggregate :: "CheckRun \<Rightarrow> bool \<times> RunSummary \<times> message list" where
  "aggregate run = aggregateRunners run (tpl_Runners (run_Template run)) (zeroSummary, [])"

section \<open>Events\<close>

definition runEvent :: "CheckRun \<Rightarrow> string \<Rightarrow> string \<Rightarrow> message \<Rightarrow> action" where
  "runEvent run etype reason note = Ev (Event (meta_key (run_Meta run)) etype reason ''Reconcile'' note)"

fun foreignEvents :: "CheckRun \<Rightarrow> (string \<times> Job) list \<Rightarrow> RunnerStatus \<Rightarrow> action list" where
  "foreignEvents run jobs rs =
     (case map_of jobs (rs_Name rs) of
        None \<Rightarrow> [runEvent run EventTypeWarning ''ForeignResultEntry''
          (Sprintf ''results reported for unknown runner %q'' [AStr (rs_Name rs)])]
      | Some job \<Rightarrow>
          map (\<lambda>pod. runEvent run EventTypeWarning ''ForeignResultEntry''
                 (Sprintf ''pod entry %q does not match runner Job %q pod naming''
                    [AStr (pod_PodName pod), AStr (job_Name job)]))
            (filter (\<lambda>pod. \<not> hasPrefix (pod_PodName pod) (job_Name job @ ''-'')) (rs_Pods rs)))"

definition warnOnForeignPodEntries :: "CheckRun \<Rightarrow> (string \<times> Job) list \<Rightarrow> 'w ctx \<Rightarrow> 'w ctx" where
  "warnOnForeignPodEntries run jobs s =
     emits (concat (map (foreignEvents run jobs) (st_Runners (run_Status run)))) s"

section \<open>Status\<close>

record controllerStatus =
  cs_phase :: CheckRunPhase
  cs_startTime :: "time option"
  cs_completionTime :: "time option"
  cs_summary :: "RunSummary option"
  cs_conditions :: "Condition list"

definition newStatus :: "pkgs \<Rightarrow> CheckRun \<Rightarrow> controllerStatus \<Rightarrow> CheckRunStatus" where
  "newStatus P run st =
     \<lparr>st_ObservedGeneration = om_Generation (run_Meta run),
      st_Phase = cs_phase st,
      st_StartTime = cs_startTime st,
      st_CompletionTime = cs_completionTime st,
      st_Runners = [],
      st_Summary = cs_summary st,
      st_Conditions =
        foldl (\<lambda>cs c. p_set_condition P cs (c\<lparr>cond_ObservedGeneration := om_Generation (run_Meta run)\<rparr>))
          (st_Conditions (run_Status run)) (cs_conditions st)\<rparr>"

definition statusDocument :: "CheckRun \<Rightarrow> (string \<times> json) list \<Rightarrow> json" where
  "statusDocument run statusMap = JObj
     [(''apiVersion'', JStr SchemeGroupVersion),
      (''kind'', JStr ''CheckRun''),
      (''metadata'', JObj [(''name'', JStr (run_Name run)), (''namespace'', JStr (run_Namespace run))]),
      (''status'', JObj (filter (\<lambda>(key, _). key \<noteq> ''runners'') statusMap))]"

definition applyStatus :: "'w kube \<Rightarrow> pkgs \<Rightarrow> CheckRun \<Rightarrow> controllerStatus \<Rightarrow> 'w ctx \<Rightarrow>
    api_error option \<times> 'w ctx" where
  "applyStatus K P run st s =
     (case p_status_map P (newStatus P run st) of
        Inl e \<Rightarrow> (Some e, s)
      | Inr statusMap \<Rightarrow>
          let doc = statusDocument run statusMap in
          perform (Req (ApplyRunStatus doc checkRunFieldManager)) (k_apply_status K doc checkRunFieldManager) s)"

section \<open>Metrics of a finished run\<close>

definition resultLabelOf :: "CheckResult \<Rightarrow> string" where
  "resultLabelOf res = (if \<not> res_Passed res then ResultFail else ResultPass)"

definition resultMetrics :: "string \<Rightarrow> string \<Rightarrow> CheckResult \<Rightarrow> metric_op list" where
  "resultMetrics ns suite res =
     [CounterInc CheckResultTotal [ns, suite, res_Name res, resultLabelOf res]]
     @ (case res_Duration res of
          None \<Rightarrow> []
        | Some d \<Rightarrow> [Observe CheckDuration [ns, suite, res_Name res, resultLabelOf res] d])"

definition addLastResult :: "(string \<times> bool) list \<Rightarrow> CheckResult \<Rightarrow> (string \<times> bool) list" where
  "addLastResult lastResults res =
     AList.update (res_Name res)
       (res_Passed res \<and> (case map_of lastResults (res_Name res) of None \<Rightarrow> True | Some passed \<Rightarrow> passed))
       lastResults"

text \<open>The results in the order of the three nested loops.\<close>

definition allResults :: "CheckRun \<Rightarrow> CheckResult list" where
  "allResults run = concat (map (\<lambda>rs. concat (map pod_Checks (rs_Pods rs))) (st_Runners (run_Status run)))"

definition runSuiteName :: "CheckRun \<Rightarrow> string" where
  "runSuiteName run = deref (run_SuiteRef (run_Spec run)) ''''"

text \<open>The verdict metrics of a completed run (lines 501 to 522).\<close>

definition recordVerdicts :: "pkgs \<Rightarrow> CheckRun \<Rightarrow> time \<Rightarrow> 'w ctx \<Rightarrow> 'w ctx" where
  "recordVerdicts P run completedAt s =
     (let suite = runSuiteName run;
          ns = run_Namespace run;
          s1 = emits (map Met (concat (map (resultMetrics ns suite) (allResults run)))) s;
          lastResults = foldl addLastResult [] (allResults run);
          s2 = SetLastResults ns suite (p_range_results P lastResults) s1
      in emit (Met (GaugeSet CheckRunLastCompletion [ns, suite] (unix completedAt))) s2)"

definition recordMetrics :: "'w kube \<Rightarrow> pkgs \<Rightarrow> CheckRun \<Rightarrow> CheckRunPhase \<Rightarrow> duration \<Rightarrow> time \<Rightarrow>
    'w ctx \<Rightarrow> 'w ctx" where
  "recordMetrics K P run phase dur completedAt s =
     (let suite = runSuiteName run;
          ns = run_Namespace run;
          s1 = emits [Met (CounterInc CheckRunsTotal [ns, suite, phase_string phase]),
                      Met (Observe CheckRunDuration [ns, suite] dur)] s
      in if phase \<noteq> CheckRunSucceeded \<and> phase \<noteq> CheckRunFailed then s1
         else
           let s2 = recordVerdicts P run completedAt s1 in
           case run_SuiteRef (run_Spec run) of
             None \<Rightarrow> s2
           | Some _ \<Rightarrow>
               (case perform (Req (GetSuite (ns, suite))) (k_get_suite K (ns, suite)) s2 of
                  (r, s3) \<Rightarrow> if r = Inl NotFound then DeleteSuite ns suite s3 else s3))"

definition finishStatus :: "CheckRun \<Rightarrow> CheckRunPhase \<Rightarrow> time \<Rightarrow> RunSummary option \<Rightarrow> Condition \<Rightarrow>
    controllerStatus" where
  "finishStatus run phase now summary extraCondition =
     \<lparr>cs_phase = phase,
      cs_startTime = Some (deref (st_StartTime (run_Status run)) now),
      cs_completionTime = Some now,
      cs_summary = summary,
      cs_conditions =
        (if cond_Type extraCondition \<noteq> '''' then [extraCondition] else [])
        @ [\<lparr>cond_Type = ConditionCompleted, cond_Status = ConditionTrue, cond_ObservedGeneration = 0,
            cond_Reason = phase_string phase,
            cond_Message = Sprintf ''run finished with phase %s'' [AStr (phase_string phase)]\<rparr>]\<rparr>"

definition finish :: "'w kube \<Rightarrow> pkgs \<Rightarrow> CheckRun \<Rightarrow> CheckRunPhase \<Rightarrow> time \<Rightarrow> RunSummary option \<Rightarrow> Condition \<Rightarrow>
    'w ctx \<Rightarrow> (api_error + duration) \<times> 'w ctx" where
  "finish K P run phase now summary extraCondition s =
     (let startTime = deref (st_StartTime (run_Status run)) now in
      case applyStatus K P run (finishStatus run phase now summary extraCondition) s of
        (Some e, s1) \<Rightarrow> (Inl e, s1)
      | (None, s1) \<Rightarrow>
          let s2 = recordMetrics K P run phase (time_sub now startTime) now s1 in
          (Inr 0, if phase = CheckRunSucceeded
                  then emit (runEvent run EventTypeNormal ''Succeeded'' (Sprintf ''all checks passed'' [])) s2
                  else s2))"

section \<open>Reconcile\<close>

definition saMissingMessage :: "CheckRunReconciler \<Rightarrow> CheckRun \<Rightarrow> message" where
  "saMissingMessage r run = Sprintf
     ''ServiceAccount %q not found in namespace %q; add the namespace to checkNamespaces in the verikube Helm values''
     [AStr (runnerServiceAccount r), AStr (run_Namespace run)]"

definition deadlineMessage :: "duration \<Rightarrow> message" where
  "deadlineMessage timeout = Sprintf ''run did not complete within %s'' [ADur timeout]"

definition warning :: "CheckRun \<Rightarrow> string \<Rightarrow> message \<Rightarrow> 'w ctx \<Rightarrow> 'w ctx" where
  "warning run reason note s = emit (runEvent run EventTypeWarning reason note) s"

definition conditionTrue :: "string \<Rightarrow> string \<Rightarrow> message \<Rightarrow> Condition" where
  "conditionTrue ctype reason msg =
     \<lparr>cond_Type = ctype, cond_Status = ConditionTrue, cond_ObservedGeneration = 0,
      cond_Reason = reason, cond_Message = msg\<rparr>"

text \<open>Record the start time and the phase, and come back at the deadline (lines 222 to 229).\<close>

definition runningStatus :: "CheckRun \<Rightarrow> time \<Rightarrow> controllerStatus" where
  "runningStatus run now =
     \<lparr>cs_phase = CheckRunRunning, cs_startTime = Some (deref (st_StartTime (run_Status run)) now),
      cs_completionTime = None, cs_summary = None, cs_conditions = []\<rparr>"

definition stillRunning :: "'w kube \<Rightarrow> pkgs \<Rightarrow> CheckRun \<Rightarrow> time \<Rightarrow> duration \<Rightarrow> 'w ctx \<Rightarrow>
    (api_error + duration) \<times> 'w ctx" where
  "stillRunning K P run now timeout s =
     (let startTime = deref (st_StartTime (run_Status run)) now in
      case applyStatus K P run (runningStatus run now) s of
        (Some e, s1) \<Rightarrow> (Inl e, s1)
      | (None, s1) \<Rightarrow> (Inr (dur_add (time_sub (time_add startTime timeout) now) Second), s1))"

text \<open>After the Jobs are ensured (lines 155 to 229).\<close>

definition reconcileJobs :: "'w kube \<Rightarrow> pkgs \<Rightarrow> CheckRun \<Rightarrow> time \<Rightarrow> duration \<Rightarrow> (string \<times> Job) list \<Rightarrow>
    'w ctx \<Rightarrow> (api_error + duration) \<times> 'w ctx" where
  "reconcileJobs K P run now timeout jobs s =
     (let startTime = deref (st_StartTime (run_Status run)) now in
      if after now (time_add startTime timeout) then
        finish K P run CheckRunError now None
          (conditionTrue ConditionDeadlineExceeded ''Timeout'' (deadlineMessage timeout))
          (warning run ''DeadlineExceeded'' (deadlineMessage timeout) s)
      else case find (\<lambda>(rnName, job). jobFailed job) (p_range_jobs P jobs) of
        Some (rnName, job) \<Rightarrow>
          let msg = Sprintf ''runner Job %s failed: %s'' [AStr (job_Name job), AStr (jobFailureMessage job)] in
          finish K P run CheckRunError now None
            (conditionTrue ConditionCompleted ''RunnerError''
              (Sprintf ''runner %s could not execute checks'' [AStr rnName]))
            (warning run ''RunnerError'' (Sprintf ''%s'' [AMsg msg]) s)
      | None \<Rightarrow>
          if list_all (\<lambda>(rnName, job). jobSucceeded job) (p_range_jobs P jobs) then
            let s1 = warnOnForeignPodEntries run jobs s in
            case aggregate run of
              (complete, summary, failing) \<Rightarrow>
                if complete then
                  if sum_Failed summary > 0 then
                    finish K P run CheckRunFailed now (Some summary) noCondition
                      (emits (map (\<lambda>f. runEvent run EventTypeWarning ''CheckFailed'' (Sprintf ''%s'' [AMsg f])) failing) s1)
                  else finish K P run CheckRunSucceeded now (Some summary) noCondition s1
                else stillRunning K P run now timeout s1
          else stillRunning K P run now timeout s)"

definition CheckRun_Reconcile :: "'w kube \<Rightarrow> pkgs \<Rightarrow> CheckRunReconciler \<Rightarrow> nkey \<Rightarrow> 'w ctx \<Rightarrow>
    (api_error + duration) \<times> 'w ctx" where
  "CheckRun_Reconcile K P r req s =
     (case perform (Req (GetRun req)) (k_get_run K req) s of
        (Inl NotFound, s1) \<Rightarrow> (Inr 0, s1)
      | (Inl e, s1) \<Rightarrow> (Inl e, s1)
      | (Inr run, s1) \<Rightarrow>
          if isTerminalPhase (run_Phase run) then (Inr 0, s1)
          else
            let now = k_now K (world s1);
                timeout = deref (tpl_Timeout (run_Template run)) defaultRunTimeout;
                ensure = (\<lambda>s2.
                  case ensureJobs K P r run timeout (tpl_Runners (run_Template run)) [] s2 of
                    (Inl e, s3) \<Rightarrow> (Inl e, s3)
                  | (Inr jobs, s3) \<Rightarrow> reconcileJobs K P run now timeout jobs s3)
            in case st_StartTime (run_Status run) of
                 Some _ \<Rightarrow> ensure s1
               | None \<Rightarrow>
                   let saKey = (run_Namespace run, runnerServiceAccount r) in
                   (case perform (Req (GetServiceAccount saKey)) (k_get_sa K saKey) s1 of
                      (None, s2) \<Rightarrow> ensure s2
                    | (Some NotFound, s2) \<Rightarrow>
                        let msg = saMissingMessage r run in
                        finish K P run CheckRunError now None
                          (conditionTrue ConditionRunnerServiceAccountMissing ''ServiceAccountNotFound'' msg)
                          (warning run ''RunnerServiceAccountMissing'' (Sprintf ''%s'' [AMsg msg]) s2)
                    | (Some e, s2) \<Rightarrow> (Inl e, s2)))"

section \<open>What aggregation computes\<close>

text \<open>
  The specification: the pairs of a runner and a check assigned to it, when they have passed, and
  when every runner has reported.
\<close>

definition assignments :: "CheckRun \<Rightarrow> (RunnerSpec \<times> CheckSpec) list" where
  "assignments run = concat (map (\<lambda>rn.
     map (Pair rn) (FilterChecks (tpl_Checks (run_Template run)) (rn_Name rn))) (tpl_Runners (run_Template run)))"

fun assignmentPassed :: "CheckRun \<Rightarrow> RunnerSpec \<times> CheckSpec \<Rightarrow> bool" where
  "assignmentPassed run (rn, chk) = list_all (podPassed chk) (podsByRunner run (rn_Name rn))"

definition reported :: "CheckRun \<Rightarrow> bool" where
  "reported run \<longleftrightarrow> list_all (\<lambda>rn. deref (rn_Replicas rn) 1 \<le> int (length (podsByRunner run (rn_Name rn))))
     (tpl_Runners (run_Template run))"

fun failedMessage :: "RunnerSpec \<times> CheckSpec \<Rightarrow> message" where
  "failedMessage (rn, chk) =
     Sprintf ''check %q failed on runner %q'' [AStr (chk_Name chk), AStr (rn_Name rn)]"

definition addCounts :: "RunSummary \<Rightarrow> int \<Rightarrow> int \<Rightarrow> RunSummary" where
  "addCounts a p f = \<lparr>sum_Total = sum_Total a + p + f, sum_Passed = sum_Passed a + p, sum_Failed = sum_Failed a + f\<rparr>"

definition countPairs :: "CheckRun \<Rightarrow> (RunnerSpec \<times> CheckSpec) list \<Rightarrow> RunSummary \<times> message list \<Rightarrow>
    RunSummary \<times> message list" where
  "countPairs run ps acc =
     (addCounts (fst acc) (int (length (filter (assignmentPassed run) ps)))
        (int (length (filter (\<lambda>p. \<not> assignmentPassed run p) ps))),
      snd acc @ map failedMessage (filter (\<lambda>p. \<not> assignmentPassed run p) ps))"

lemma countPairs_Nil [simp]: "countPairs run [] acc = acc"
  by (cases acc) (simp add: countPairs_def addCounts_def)

lemma countPairs_append: "countPairs run (ps @ qs) acc = countPairs run qs (countPairs run ps acc)"
  by (simp add: countPairs_def addCounts_def)

lemma aggregateChecks_eq:
  "pods = podsByRunner run (rn_Name rn) \<Longrightarrow>
   aggregateChecks (rn_Name rn) pods chks acc = countPairs run (map (Pair rn) chks) acc"
proof (induction chks arbitrary: acc)
  case (Cons chk chks)
  have "countPairs run (map (Pair rn) (chk # chks)) acc =
      countPairs run (map (Pair rn) chks) (countPairs run [(rn, chk)] acc)"
    using countPairs_append [of run "[(rn, chk)]" "map (Pair rn) chks" acc] by simp
  also have "\<dots> = aggregateChecks (rn_Name rn) pods chks (countPairs run [(rn, chk)] acc)"
    using Cons by simp
  finally show ?case using Cons.prems
    by (cases acc; cases "fst acc") (simp add: countPairs_def addCounts_def Let_def)
qed simp

lemma aggregateRunners_eq:
  "aggregateRunners run rns acc =
     (if list_all (\<lambda>rn. deref (rn_Replicas rn) 1 \<le> int (length (podsByRunner run (rn_Name rn)))) rns
      then (True, countPairs run (concat (map (\<lambda>rn.
              map (Pair rn) (FilterChecks (tpl_Checks (run_Template run)) (rn_Name rn))) rns)) acc)
      else (False, zeroSummary, []))"
proof (induction rns arbitrary: acc)
  case Nil
  then show ?case by (cases acc) simp
next
  case (Cons rn rns)
  show ?case by (simp add: Cons.IH Let_def aggregateChecks_eq countPairs_append)
qed

lemma aggregate_eq:
  "aggregate run =
     (if reported run then (True, countPairs run (assignments run) (zeroSummary, []))
      else (False, zeroSummary, []))"
  by (simp add: aggregate_def aggregateRunners_eq reported_def assignments_def)

lemma countPairs_zero:
  "countPairs run ps (zeroSummary, []) =
     (\<lparr>sum_Total = int (length ps), sum_Passed = int (length (filter (assignmentPassed run) ps)),
       sum_Failed = int (length (filter (\<lambda>p. \<not> assignmentPassed run p) ps))\<rparr>,
      map failedMessage (filter (\<lambda>p. \<not> assignmentPassed run p) ps))"
  using filter_length_split [of ps "assignmentPassed run"] by (simp add: countPairs_def addCounts_def zeroSummary_def)

lemma podsByRunner_entry:
  assumes "distinct (map rs_Name (st_Runners (run_Status run)))" and "rs \<in> set (st_Runners (run_Status run))"
  shows "podsByRunner run (rs_Name rs) = rs_Pods rs"
proof -
  have *: "foldl (\<lambda>m rs. m(rs_Name rs \<mapsto> rs_Pods rs)) m xs (rs_Name rs) = Some (rs_Pods rs)"
    if "distinct (map rs_Name xs)" "rs \<in> set xs" for m xs
  proof -
    have other: "foldl (\<lambda>m rs. m(rs_Name rs \<mapsto> rs_Pods rs)) m ys n = m n" if "n \<notin> rs_Name ` set ys" for m ys n
      using that by (induction ys arbitrary: m) auto
    show ?thesis using that by (induction xs arbitrary: m) (auto simp: other)
  qed
  show ?thesis by (simp add: podsByRunner_def *[OF assms])
qed

section \<open>The decision\<close>

text \<open>
  The phase a run is to get, without regard to the order in which anything is looked at: an error
  once the deadline has passed or a Job has failed; a verdict when all Jobs are complete and all
  runners have reported; running otherwise.
\<close>

definition specPhase :: "CheckRun \<Rightarrow> time \<Rightarrow> duration \<Rightarrow> (string \<times> Job) list \<Rightarrow> CheckRunPhase" where
  "specPhase run now timeout jobs =
     (if time_add (deref (st_StartTime (run_Status run)) now) timeout < now
         \<or> (\<exists>(rnName, job) \<in> set jobs. jobFailed job)
      then CheckRunError
      else if (\<forall>(rnName, job) \<in> set jobs. jobSucceeded job) \<and> reported run
      then if (\<forall>p \<in> set (assignments run). assignmentPassed run p) then CheckRunSucceeded else CheckRunFailed
      else CheckRunRunning)"

text \<open>Actions other than writing a CheckRun, creating a Job, and reading one.\<close>

fun quiet :: "CheckRun \<Rightarrow> action \<Rightarrow> bool" where
  "quiet run (Req (GetSuite key)) \<longleftrightarrow> run_SuiteRef (run_Spec run) = Some (snd key) \<and> fst key = run_Namespace run"
| "quiet run (Ev e) \<longleftrightarrow> ev_Regarding e = meta_key (run_Meta run)"
| "quiet run (Met m) \<longleftrightarrow> well_labelled m"
| "quiet run _ \<longleftrightarrow> False"

lemma quiet_runEvent [simp]: "quiet run (runEvent run et rs n)"
  by (simp add: runEvent_def)

lemma quiet_warn: "issues (quiet run) s (warnOnForeignPodEntries run jobs s)"
  unfolding warnOnForeignPodEntries_def
  by (rule issues_emits) (auto simp: list_all_iff split: option.splits)

lemma quiet_warning: "issues (quiet run) s (warning run reason note s)"
  unfolding warning_def by (rule issues_emit) simp_all

lemma quiet_Met: "list_all well_labelled ops \<Longrightarrow> list_all (quiet run) (map Met ops)"
  by (simp add: list_all_iff)

lemma quiet_recordVerdicts: "issues (quiet run) s (recordVerdicts P run completedAt s)"
  unfolding recordVerdicts_def Let_def SetLastResults_emits
  by (intro issues_emit issues_emits quiet_Met issues_refl suite_ops_labelled)
    (auto simp: list_all_iff resultMetrics_def split: option.splits)

lemma quiet_recordMetrics: "issues (quiet run) s (recordMetrics K P run phase dur now s)"
proof -
  let ?ns = "run_Namespace run" and ?sn = "runSuiteName run"
  define s1 where "s1 = emits [Met (CounterInc CheckRunsTotal [?ns, ?sn, phase_string phase]),
      Met (Observe CheckRunDuration [?ns, ?sn] dur)] s"
  define s2 where "s2 = recordVerdicts P run now s1"
  have i1: "issues (quiet run) s s1" unfolding s1_def by (rule issues_emits) simp_all
  then have i2: "issues (quiet run) s s2"
    unfolding s2_def by (rule issues_trans) (rule quiet_recordVerdicts)
  obtain r s3 where g: "perform (Req (GetSuite (?ns, ?sn))) (k_get_suite K (?ns, ?sn)) s2 = (r, s3)" by fastforce
  have i3: "issues (quiet run) s s3" if "run_SuiteRef (run_Spec run) = Some suite" for suite
    by (rule issues_perform [OF g _ i2]) (simp add: runSuiteName_def that)
  then have i4: "issues (quiet run) s (DeleteSuite ?ns ?sn s3)" if "run_SuiteRef (run_Spec run) = Some suite" for suite
    unfolding DeleteSuite_emits using that by (intro issues_emits quiet_Met suite_ops_labelled) blast
  have "recordMetrics K P run phase dur now s =
      (if phase \<noteq> CheckRunSucceeded \<and> phase \<noteq> CheckRunFailed then s1
       else case run_SuiteRef (run_Spec run) of None \<Rightarrow> s2
         | Some _ \<Rightarrow> if r = Inl NotFound then DeleteSuite ?ns ?sn s3 else s3)"
    unfolding recordMetrics_def Let_def s1_def [symmetric] s2_def [symmetric] g by (simp split: option.split)
  then show ?thesis using i1 i2 i3 i4 by (simp split: option.split)
qed

section \<open>The status a handler applies\<close>

text \<open>\<open>writes run st s t\<close>: one status of the run was applied, with \<open>st\<close>, and nothing else but quiet actions.\<close>

definition writes :: "pkgs \<Rightarrow> CheckRun \<Rightarrow> controllerStatus \<Rightarrow> 'w ctx \<Rightarrow> 'w ctx \<Rightarrow> bool" where
  "writes P run st s t \<longleftrightarrow> (\<exists>m before behind.
     p_status_map P (newStatus P run st) = Inr m
     \<and> acts t = acts s @ before @ [Req (ApplyRunStatus (statusDocument run m) checkRunFieldManager)] @ behind
     \<and> list_all (quiet run) before \<and> list_all (quiet run) behind)"

lemma applyStatus_writes:
  assumes "applyStatus K P run st s = (r, t)"
  shows "(r = None \<longrightarrow> writes P run st s t)
    \<and> (acts t = acts s \<or> writes P run st s t)"
proof (cases "p_status_map P (newStatus P run st)")
  case (Inl e)
  then show ?thesis using assms by (auto simp: applyStatus_def)
next
  case (Inr m)
  then have "acts t = acts s @ [Req (ApplyRunStatus (statusDocument run m) checkRunFieldManager)]"
    using assms by (auto simp: applyStatus_def Let_def dest: acts_perform)
  then have "writes P run st s t" unfolding writes_def using Inr
    by (intro exI [of _ m] exI [of _ "[]"]) simp
  then show ?thesis by simp
qed

lemma writes_no_job:
  assumes "writes P run st s t"
  obtains new where "acts t = acts s @ new" "\<forall>job. Req (CreateJob job) \<notin> set new"
proof -
  obtain m before behind where acts: "acts t = acts s @ before
      @ [Req (ApplyRunStatus (statusDocument run m) checkRunFieldManager)] @ behind"
    "list_all (quiet run) before" "list_all (quiet run) behind" using assms by (auto simp: writes_def)
  have "Req (CreateJob job) \<notin> set xs" if "list_all (quiet run) xs" for xs job
    using that by (fastforce simp: list_all_iff)
  with acts show thesis by (intro that [OF acts(1)]) auto
qed

lemma writes_quiet:
  assumes "writes P run st s t" and "issues (quiet run) t u"
  shows "writes P run st s u"
proof -
  obtain new where "acts u = acts t @ new" "list_all (quiet run) new" using assms(2) by (auto simp: issues_def)
  moreover obtain m before behind where "p_status_map P (newStatus P run st) = Inr m"
    "acts t = acts s @ before @ [Req (ApplyRunStatus (statusDocument run m) checkRunFieldManager)] @ behind"
    "list_all (quiet run) before" "list_all (quiet run) behind" using assms(1) by (auto simp: writes_def)
  ultimately show ?thesis unfolding writes_def
    by (intro exI [of _ m] exI [of _ before] exI [of _ "behind @ new"]) simp
qed

lemma quiet_writes:
  assumes "issues (quiet run) r s" and "writes P run st s t"
  shows "writes P run st r t"
proof -
  obtain new where "acts s = acts r @ new" "list_all (quiet run) new" using assms(1) by (auto simp: issues_def)
  moreover obtain m before behind where "p_status_map P (newStatus P run st) = Inr m"
    "acts t = acts s @ before @ [Req (ApplyRunStatus (statusDocument run m) checkRunFieldManager)] @ behind"
    "list_all (quiet run) before" "list_all (quiet run) behind" using assms(2) by (auto simp: writes_def)
  ultimately show ?thesis unfolding writes_def
    by (intro exI [of _ m] exI [of _ "new @ before"] exI [of _ behind]) simp
qed

lemma finish_writes:
  assumes "finish K P run phase now summary c s = (r, t)"
  shows "(\<forall>d. r = Inr d \<longrightarrow> d = 0 \<and> writes P run (finishStatus run phase now summary c) s t)
    \<and> (issues (quiet run) s t \<or> writes P run (finishStatus run phase now summary c) s t)"
proof -
  obtain q u where a: "applyStatus K P run (finishStatus run phase now summary c) s = (q, u)" by fastforce
  show ?thesis
  proof (cases q)
    case (Some e)
    then have "r = Inl e" "t = u" using assms a by (simp_all add: finish_def)
    then show ?thesis using applyStatus_writes [OF a] by (auto simp: issues_def)
  next
    case None
    let ?m = "recordMetrics K P run phase (time_sub now (deref (st_StartTime (run_Status run)) now)) now u"
    have t: "t = (if phase = CheckRunSucceeded
        then emit (runEvent run EventTypeNormal ''Succeeded'' (Sprintf ''all checks passed'' [])) ?m else ?m)"
      and r: "r = Inr 0"
      using assms a None by (simp_all add: finish_def Let_def)
    have "issues (quiet run) u t" unfolding t
      by (simp add: quiet_recordMetrics issues_emit)
    with applyStatus_writes [OF a] None have "writes P run (finishStatus run phase now summary c) s t"
      by (auto intro: writes_quiet)
    then show ?thesis using r by simp
  qed
qed

lemma stillRunning_writes:
  assumes "stillRunning K P run now timeout s = (r, t)"
  shows "(\<forall>d. r = Inr d \<longrightarrow> writes P run (runningStatus run now) s t
            \<and> d = dur_add (time_sub (time_add (deref (st_StartTime (run_Status run)) now) timeout) now) Second)
    \<and> (issues (quiet run) s t \<or> writes P run (runningStatus run now) s t)"
proof -
  obtain q u where a: "applyStatus K P run (runningStatus run now) s = (q, u)" by fastforce
  with assms have "t = u" and "r = (case q of Some e \<Rightarrow> Inl e | None \<Rightarrow>
      Inr (dur_add (time_sub (time_add (deref (st_StartTime (run_Status run)) now) timeout) now) Second))"
    by (auto simp: stillRunning_def split: option.splits)
  then show ?thesis using applyStatus_writes [OF a] by (cases q) (auto simp: issues_def)
qed

text \<open>What the handler writes once the Jobs are there, in each case of the decision.\<close>

definition summaryOf :: "CheckRun \<Rightarrow> RunSummary" where
  "summaryOf run = fst (countPairs run (assignments run) (zeroSummary, []))"

definition errorStatus :: "CheckRun \<Rightarrow> time \<Rightarrow> duration \<Rightarrow> (string \<times> Job) list \<Rightarrow> controllerStatus \<Rightarrow> bool" where
  "errorStatus run now timeout jobs st \<longleftrightarrow>
     (\<exists>c. st = finishStatus run CheckRunError now None c \<and>
       (if time_add (deref (st_StartTime (run_Status run)) now) timeout < now
        then c = conditionTrue ConditionDeadlineExceeded ''Timeout'' (deadlineMessage timeout)
        else \<exists>(rnName, job) \<in> set jobs. jobFailed job \<and> c = conditionTrue ConditionCompleted ''RunnerError''
               (Sprintf ''runner %s could not execute checks'' [AStr rnName])))"

fun statusFor :: "CheckRun \<Rightarrow> time \<Rightarrow> duration \<Rightarrow> (string \<times> Job) list \<Rightarrow> CheckRunPhase \<Rightarrow> controllerStatus \<Rightarrow> bool" where
  "statusFor run now timeout jobs CheckRunError st = errorStatus run now timeout jobs st"
| "statusFor run now timeout jobs CheckRunRunning st = (st = runningStatus run now)"
| "statusFor run now timeout jobs phase st = (st = finishStatus run phase now (Some (summaryOf run)) noCondition)"

lemma statusFor_phase: "statusFor run now timeout jobs phase st \<Longrightarrow> cs_phase st = phase"
  by (cases "(run, now, timeout, jobs, phase, st)" rule: statusFor.cases)
    (auto simp: errorStatus_def finishStatus_def runningStatus_def)

lemma failed_count: "sum_Failed (summaryOf run) > 0 \<longleftrightarrow> \<not> (\<forall>p \<in> set (assignments run). assignmentPassed run p)"
  by (auto simp: summaryOf_def countPairs_zero filter_empty_conv)

lemma find_set: "find P xs = Some x \<Longrightarrow> x \<in> set xs \<and> P x"
  by (auto simp: find_Some_iff)

text \<open>
  \<open>settles\<close>: the outcome of a handler that has decided. Unless it fails it has written the
  status the specified phase calls for, and only a run that goes on is looked at again.
\<close>

definition settles :: "pkgs \<Rightarrow> CheckRun \<Rightarrow> time \<Rightarrow> duration \<Rightarrow> (string \<times> Job) list \<Rightarrow> 'w ctx \<Rightarrow>
    (api_error + duration) \<times> 'w ctx \<Rightarrow> bool" where
  "settles P run now timeout jobs s out \<longleftrightarrow>
     (\<exists>st. statusFor run now timeout jobs (specPhase run now timeout jobs) st
       \<and> (\<forall>d. fst out = Inr d \<longrightarrow> writes P run st s (snd out)
              \<and> (specPhase run now timeout jobs \<noteq> CheckRunRunning \<longrightarrow> d = 0))
       \<and> (issues (quiet run) s (snd out) \<or> writes P run st s (snd out)))"

lemma settles_finish:
  assumes "issues (quiet run) s u" and "specPhase run now timeout jobs = ph"
    and "statusFor run now timeout jobs ph (finishStatus run ph now sm c)"
  shows "settles P run now timeout jobs s (finish K P run ph now sm c u)"
proof -
  obtain r t where f: "finish K P run ph now sm c u = (r, t)" by fastforce
  show ?thesis unfolding settles_def f assms(2)
    using finish_writes [OF f] assms(3) quiet_writes [OF assms(1)] issues_trans [OF assms(1)]
    by (intro exI [of _ "finishStatus run ph now sm c"]) auto
qed

lemma settles_running:
  assumes "issues (quiet run) s u" and "specPhase run now timeout jobs = CheckRunRunning"
  shows "settles P run now timeout jobs s (stillRunning K P run now timeout u)"
proof -
  obtain r t where f: "stillRunning K P run now timeout u = (r, t)" by fastforce
  show ?thesis unfolding settles_def f assms(2)
    using stillRunning_writes [OF f] quiet_writes [OF assms(1)] issues_trans [OF assms(1)] by auto
qed

definition overdue :: "CheckRun \<Rightarrow> time \<Rightarrow> duration \<Rightarrow> bool" where
  "overdue run now timeout \<longleftrightarrow> time_add (deref (st_StartTime (run_Status run)) now) timeout < now"

lemma settles_overdue:
  assumes "overdue run now timeout"
  shows "settles P run now timeout jobs s (reconcileJobs K P run now timeout jobs s)"
proof -
  have "reconcileJobs K P run now timeout jobs s = finish K P run CheckRunError now None
      (conditionTrue ConditionDeadlineExceeded ''Timeout'' (deadlineMessage timeout))
      (warning run ''DeadlineExceeded'' (deadlineMessage timeout) s)"
    using assms by (simp add: reconcileJobs_def after_def overdue_def)
  also have "settles P run now timeout jobs s \<dots>"
    using assms by (intro settles_finish quiet_warning) (auto simp: specPhase_def overdue_def errorStatus_def)
  finally show ?thesis .
qed

lemma settles_failed:
  assumes "\<not> overdue run now timeout" and "ranges (p_range_jobs P)"
    and "find (\<lambda>(rnName, job). jobFailed job) (p_range_jobs P jobs) = Some (rn, job)"
  shows "settles P run now timeout jobs s (reconcileJobs K P run now timeout jobs s)"
proof -
  have mem: "(rn, job) \<in> set jobs" "jobFailed job"
    using find_set [OF assms(3)] ranges_set [OF assms(2)] by auto
  let ?c = "conditionTrue ConditionCompleted ''RunnerError''
    (Sprintf ''runner %s could not execute checks'' [AStr rn])"
  let ?msg = "Sprintf ''runner Job %s failed: %s'' [AStr (job_Name job), AStr (jobFailureMessage job)]"
  have "reconcileJobs K P run now timeout jobs s =
      finish K P run CheckRunError now None ?c (warning run ''RunnerError'' (Sprintf ''%s'' [AMsg ?msg]) s)"
    using assms by (simp add: reconcileJobs_def after_def overdue_def Let_def)
  also have "settles P run now timeout jobs s \<dots>"
  proof (rule settles_finish [OF quiet_warning])
    show "statusFor run now timeout jobs CheckRunError (finishStatus run CheckRunError now None ?c)"
      using assms(1) mem by (auto simp: errorStatus_def overdue_def intro!: exI)
  qed (use mem in \<open>auto simp: specPhase_def\<close>)
  finally show ?thesis .
qed

lemma settles_complete:
  assumes "\<not> overdue run now timeout" and "ranges (p_range_jobs P)"
    and "\<forall>(rnName, job) \<in> set jobs. \<not> jobFailed job \<and> jobSucceeded job" and "reported run"
  shows "settles P run now timeout jobs s (reconcileJobs K P run now timeout jobs s)"
proof -
  let ?u = "warnOnForeignPodEntries run jobs s"
  obtain failing where cnt: "countPairs run (assignments run) (zeroSummary, []) = (summaryOf run, failing)"
    by (cases "countPairs run (assignments run) (zeroSummary, [])") (simp add: summaryOf_def)
  let ?ev = "map (\<lambda>f. runEvent run EventTypeWarning ''CheckFailed'' (Sprintf ''%s'' [AMsg f])) failing"
  have jobs: "find (\<lambda>(rnName, job). jobFailed job) (p_range_jobs P jobs) = None"
    "list_all (\<lambda>(rnName, job). jobSucceeded job) (p_range_jobs P jobs)"
    using assms(3) ranges_set [OF assms(2)] by (auto simp: find_None_iff list_all_iff)
  have eq: "reconcileJobs K P run now timeout jobs s =
      (if sum_Failed (summaryOf run) > 0
       then finish K P run CheckRunFailed now (Some (summaryOf run)) noCondition (emits ?ev ?u)
       else finish K P run CheckRunSucceeded now (Some (summaryOf run)) noCondition ?u)"
    using assms(1,4) jobs cnt by (simp add: reconcileJobs_def after_def overdue_def Let_def aggregate_eq)
  have phase: "specPhase run now timeout jobs =
      (if sum_Failed (summaryOf run) > 0 then CheckRunFailed else CheckRunSucceeded)"
    using assms by (auto simp: specPhase_def overdue_def failed_count)
  have ev: "issues (quiet run) s (emits ?ev ?u)" by (rule issues_emits) (simp_all add: list_all_iff quiet_warn)
  show ?thesis unfolding eq using phase by (auto intro!: settles_finish ev quiet_warn)
qed

lemma settles_waiting:
  assumes "\<not> overdue run now timeout" and "ranges (p_range_jobs P)"
    and "\<forall>(rnName, job) \<in> set jobs. \<not> jobFailed job"
    and "\<not> ((\<forall>(rnName, job) \<in> set jobs. jobSucceeded job) \<and> reported run)"
  shows "settles P run now timeout jobs s (reconcileJobs K P run now timeout jobs s)"
proof -
  have none: "find (\<lambda>(rnName, job). jobFailed job) (p_range_jobs P jobs) = None"
    and all: "list_all (\<lambda>(rnName, job). jobSucceeded job) (p_range_jobs P jobs) =
      (\<forall>(rnName, job) \<in> set jobs. jobSucceeded job)"
    using assms(3) ranges_set [OF assms(2)] by (auto simp: find_None_iff list_all_iff)
  have eq: "reconcileJobs K P run now timeout jobs s = stillRunning K P run now timeout
      (if \<forall>(rnName, job) \<in> set jobs. jobSucceeded job then warnOnForeignPodEntries run jobs s else s)"
    using assms(1,4) none all by (auto simp: reconcileJobs_def after_def overdue_def Let_def aggregate_eq)
  have "specPhase run now timeout jobs = CheckRunRunning"
    using assms by (auto simp: specPhase_def overdue_def)
  then show ?thesis unfolding eq by (intro settles_running) (simp_all add: quiet_warn)
qed

lemma reconcileJobs_settles:
  assumes "ranges (p_range_jobs P)"
  shows "settles P run now timeout jobs s (reconcileJobs K P run now timeout jobs s)"
proof (cases "overdue run now timeout")
  case False
  show ?thesis
  proof (cases "find (\<lambda>(rnName, job). jobFailed job) (p_range_jobs P jobs)")
    case None
    then have nf: "\<forall>(rnName, job) \<in> set jobs. \<not> jobFailed job"
      using ranges_set [OF assms] by (auto simp: find_None_iff)
    show ?thesis
    proof (cases "(\<forall>(rnName, job) \<in> set jobs. jobSucceeded job) \<and> reported run")
      case True
      with nf show ?thesis by (intro settles_complete [OF False assms]) auto
    next
      case w: False
      with nf show ?thesis by (intro settles_waiting [OF False assms])
    qed
  qed (use settles_failed [OF False assms] in auto)
qed (rule settles_overdue)

section \<open>Ensuring the Jobs\<close>

text \<open>The actions on Jobs the handler may take for a run.\<close>

definition jobKey :: "CheckRun \<Rightarrow> RunnerSpec \<Rightarrow> nkey" where
  "jobKey run rn = (run_Namespace run, jobName (run_Name run) (rn_Name rn))"

fun jobAction :: "pkgs \<Rightarrow> CheckRunReconciler \<Rightarrow> CheckRun \<Rightarrow> duration \<Rightarrow> RunnerSpec list \<Rightarrow> action \<Rightarrow> bool" where
  "jobAction P r run timeout rns (Req (GetJob key)) \<longleftrightarrow> key \<in> jobKey run ` set rns"
| "jobAction P r run timeout rns (Req (CreateJob job)) \<longleftrightarrow> (\<exists>rn \<in> set rns. buildJob P r run rn timeout = Inr job)"
| "jobAction P r run timeout rns _ \<longleftrightarrow> False"

lemma jobAction_mono: "jobAction P r run timeout rns a \<Longrightarrow> set rns \<subseteq> set rns' \<Longrightarrow> jobAction P r run timeout rns' a"
  by (cases "(P, r, run, timeout, rns, a)" rule: jobAction.cases) auto

lemma ensureJobs_issues:
  "issues (jobAction P r run timeout rns) s (snd (ensureJobs K P r run timeout rns jobs s))"
proof (induction rns arbitrary: jobs s)
  case (Cons rn rns)
  let ?P = "jobAction P r run timeout (rn # rns)"
  have IH: "issues ?P t (snd (ensureJobs K P r run timeout rns js t))" for js t
    using Cons.IH by (rule issues_mono) (erule jobAction_mono, auto)
  obtain q s1 where g: "perform (Req (GetJob (jobKey run rn))) (k_get_job K (jobKey run rn)) s = (q, s1)" by fastforce
  have i1: "issues ?P s s1" by (rule issues_perform [OF g]) simp_all
  have step: "issues ?P s (snd (ensureJobs K P r run timeout rns js s1))" for js
    using i1 IH by (rule issues_trans)
  have create: "issues ?P s (snd (case perform (Req (CreateJob d)) (k_create_job K d) s1 of
        (Inr stored, s2) \<Rightarrow> ensureJobs K P r run timeout rns (AList.update (rn_Name rn) stored jobs) s2
      | (Inl AlreadyExists, s2) \<Rightarrow> ensureJobs K P r run timeout rns (AList.update (rn_Name rn) d jobs) s2
      | (Inl e, s2) \<Rightarrow> (Inl e, s2)))" if "buildJob P r run rn timeout = Inr d" for d
  proof -
    obtain c s2 where p: "perform (Req (CreateJob d)) (k_create_job K d) s1 = (c, s2)" by fastforce
    have i2: "issues ?P s s2" using that by (intro issues_perform [OF p _ i1]) simp
    then show ?thesis using p IH by (auto split: sum.split api_error.split intro: issues_trans)
  qed
  show ?case
    using g i1 step create
    by (auto simp: jobKey_def Let_def split: sum.split api_error.split)
qed simp

text \<open>The requests of all rounds: one read per runner, and the Job made by \<open>buildJob\<close> where there is none yet.\<close>

fun ensureActs :: "pkgs \<Rightarrow> CheckRunReconciler \<Rightarrow> CheckRun \<Rightarrow> duration \<Rightarrow> RunnerSpec list \<Rightarrow> nkey set \<Rightarrow> action list" where
  "ensureActs P r run timeout [] present = []"
| "ensureActs P r run timeout (rn # rns) present =
     Req (GetJob (jobKey run rn))
     # (if jobKey run rn \<in> present then [] else
          case buildJob P r run rn timeout of Inl _ \<Rightarrow> [] | Inr job \<Rightarrow> [Req (CreateJob job)])
     @ ensureActs P r run timeout rns (insert (jobKey run rn) present)"

text \<open>Over a store of Jobs, when ownership never fails and does not change a Job's key.\<close>

locale job_store =
  object_store look "k_get_job K" "k_create_job K" "\<lambda>j. meta_key (job_Meta j)"
    for look :: "'w \<Rightarrow> nkey \<Rightarrow> Job option" and K :: "'w kube" +
  fixes P :: pkgs
  assumes own_key: "\<exists>j'. p_own_job P run j = Inr j' \<and> meta_key (job_Meta j') = meta_key (job_Meta j)"
begin

lemma build_key: "\<exists>j. buildJob P r run rn timeout = Inr j \<and> meta_key (job_Meta j) = jobKey run rn"
proof -
  define j0 where "j0 = \<lparr>job_Meta = \<lparr>om_Name = jobName (run_Name run) (rn_Name rn), om_Namespace = run_Namespace run,
      om_UID = '''', om_Generation = 0, om_CreationTimestamp = 0, om_Labels = jobLabels run rn,
      om_Annotations = Map.empty, om_Controller = None,
        om_ResourceVersion = ''''\<rparr>,
    job_Spec = \<lparr>js_Parallelism = Some (deref (rn_Replicas rn) 1), js_Completions = Some (deref (rn_Replicas rn) 1),
      js_BackoffLimit = Some 2, js_ActiveDeadlineSeconds = Some (quot timeout Second), js_PodLabels = jobLabels run rn,
      js_PodSpec = \<lparr>ps_RestartPolicy = ''Never'', ps_ServiceAccountName = runnerServiceAccount r,
        ps_NodeSelector = rn_NodeSelector rn, ps_Tolerations = rn_Tolerations rn, ps_RunAsNonRoot = Some True,
        ps_SeccompProfile = ''RuntimeDefault'', ps_Containers = [runnerContainer r run rn],
        ps_TopologySpread = spreadConstraints rn (jobName (run_Name run) (rn_Name rn))\<rparr>\<rparr>, job_Conditions = []\<rparr>"
  have "buildJob P r run rn timeout = p_own_job P run j0" by (simp add: buildJob_def j0_def Let_def)
  moreover have "meta_key (job_Meta j0) = jobKey run rn" by (simp add: j0_def meta_key_def jobKey_def)
  ultimately show ?thesis using own_key [of run j0] by simp
qed

text \<open>One round: the Job of the runner is stored afterwards, nothing stored is changed.\<close>

lemma ensure_one:
  obtains job u where
    "ensureJobs K P r run timeout (rn # rns) jobs s = ensureJobs K P r run timeout rns (AList.update (rn_Name rn) job jobs) u"
    "look (world u) = (look (world s))(jobKey run rn \<mapsto> job)"
    "look (world s) (jobKey run rn) = None \<or> look (world s) (jobKey run rn) = Some job
       \<and> acts u = acts s @ [Req (GetJob (jobKey run rn))]"
    "acts u = acts s @ ensureActs P r run timeout [rn] (dom (look (world s)))"
proof (cases "look (world s) (jobKey run rn)")
  case (Some job)
  let ?u = "s\<lparr>world := world s, acts := acts s @ [Req (GetJob (jobKey run rn))]\<rparr>"
  have "perform (Req (GetJob (jobKey run rn))) (k_get_job K (jobKey run rn)) s = (Inr job, ?u)"
    by (rule perform_eq) (simp add: get_look Some)
  then show thesis using Some by (intro that [of job ?u]) (auto simp: jobKey_def Let_def fun_upd_idem)
next
  case None
  let ?u = "s\<lparr>world := world s, acts := acts s @ [Req (GetJob (jobKey run rn))]\<rparr>"
  have g: "perform (Req (GetJob (jobKey run rn))) (k_get_job K (jobKey run rn)) s = (Inl NotFound, ?u)"
    by (rule perform_eq) (simp add: get_look None)
  obtain j where j: "buildJob P r run rn timeout = Inr j" "meta_key (job_Meta j) = jobKey run rn"
    using build_key by blast
  from create_fresh [of "world s" j] None j(2) obtain job w where
    c: "k_create_job K j (world s) = (Inr job, w)" "look w = (look (world s))(jobKey run rn \<mapsto> job)" by auto
  let ?v = "?u\<lparr>world := w, acts := acts ?u @ [Req (CreateJob j)]\<rparr>"
  have p: "perform (Req (CreateJob j)) (k_create_job K j) ?u = (Inr job, ?v)"
    by (rule perform_eq) (simp add: c(1))
  show thesis using None g j(1) p c(2) by (intro that [of job ?v]) (simp_all add: jobKey_def Let_def domIff)
qed

lemma ensure_store:
  "\<exists>js t. ensureJobs K P r run timeout rns jobs s = (Inr js, t)
     \<and> (\<forall>k j. look (world s) k = Some j \<longrightarrow> look (world t) k = Some j)
     \<and> (\<forall>rn \<in> set rns. look (world t) (jobKey run rn) \<noteq> None)
     \<and> (\<forall>k. k \<notin> jobKey run ` set rns \<longrightarrow> look (world t) k = look (world s) k)
     \<and> acts t = acts s @ ensureActs P r run timeout rns (dom (look (world s)))"
proof (induction rns arbitrary: jobs s)
  case (Cons rn rns)
  obtain job u where u:
    "ensureJobs K P r run timeout (rn # rns) jobs s = ensureJobs K P r run timeout rns (AList.update (rn_Name rn) job jobs) u"
    "look (world u) = (look (world s))(jobKey run rn \<mapsto> job)"
    "look (world s) (jobKey run rn) = None \<or> look (world s) (jobKey run rn) = Some job
       \<and> acts u = acts s @ [Req (GetJob (jobKey run rn))]"
    "acts u = acts s @ ensureActs P r run timeout [rn] (dom (look (world s)))" by (rule ensure_one)
  obtain js t where IH: "ensureJobs K P r run timeout rns (AList.update (rn_Name rn) job jobs) u = (Inr js, t)"
    "\<forall>k j. look (world u) k = Some j \<longrightarrow> look (world t) k = Some j"
    "\<forall>rn \<in> set rns. look (world t) (jobKey run rn) \<noteq> None"
    "\<forall>k. k \<notin> jobKey run ` set rns \<longrightarrow> look (world t) k = look (world u) k"
    "acts t = acts u @ ensureActs P r run timeout rns (dom (look (world u)))" using Cons.IH by blast
  have own: "look (world t) (jobKey run rn) = Some job"
    using IH(2) [rule_format, of "jobKey run rn" job] u(2) by simp
  have kept: "look (world t) k = Some j" if "look (world s) k = Some j" for k j
    using that own IH(2) [rule_format, of k j] u(2,3) by (cases "k = jobKey run rn") auto
  have trace: "acts t = acts s @ ensureActs P r run timeout (rn # rns) (dom (look (world s)))"
    using IH(5) u(2,4) by simp
  show ?case
    using IH(1) kept own IH(3,4) u(1,2) trace
    by (intro exI [of _ js] exI [of _ t]) (simp del: ensureJobs.simps ensureActs.simps)
qed auto

lemma ensure_jobs:
  "ensureJobs K P r run timeout rns jobs s = (Inr js, t) \<Longrightarrow>
   (\<forall>(n, j) \<in> set jobs. look (world s) (run_Namespace run, jobName (run_Name run) n) = Some j) \<Longrightarrow>
   distinct (map fst jobs) \<Longrightarrow>
   (\<forall>(n, j) \<in> set js. look (world t) (run_Namespace run, jobName (run_Name run) n) = Some j)
     \<and> distinct (map fst js) \<and> fst ` set js = fst ` set jobs \<union> rn_Name ` set rns"
proof (induction rns arbitrary: jobs s)
  case (Cons rn rns)
  obtain job u where u:
    "ensureJobs K P r run timeout (rn # rns) jobs s = ensureJobs K P r run timeout rns (AList.update (rn_Name rn) job jobs) u"
    "look (world u) = (look (world s))(jobKey run rn \<mapsto> job)"
    "look (world s) (jobKey run rn) = None \<or> look (world s) (jobKey run rn) = Some job
       \<and> acts u = acts s @ [Req (GetJob (jobKey run rn))]" by (rule ensure_one)
  have kept: "look (world u) k = Some j" if "look (world s) k = Some j" for k j
    using that u(2,3) by (auto split: if_splits)
  have "(\<forall>(n, j) \<in> set (AList.update (rn_Name rn) job jobs).
      look (world u) (run_Namespace run, jobName (run_Name run) n) = Some j)"
  proof (intro ballI, clarify)
    fix n j assume "(n, j) \<in> set (AList.update (rn_Name rn) job jobs)"
    moreover have "distinct (map fst (AList.update (rn_Name rn) job jobs))"
      using Cons.prems(3) by (rule distinct_update)
    ultimately have "map_of (AList.update (rn_Name rn) job jobs) n = Some j" by simp
    then have "n = rn_Name rn \<and> j = job \<or> (n, j) \<in> set jobs"
      by (auto simp: update_conv' split: if_splits dest: map_of_SomeD)
    then show "look (world u) (run_Namespace run, jobName (run_Name run) n) = Some j"
    proof
      assume "(n, j) \<in> set jobs"
      with Cons.prems(2) show ?thesis by (intro kept) auto
    qed (simp add: u(2) jobKey_def)
  qed
  note rec = Cons.IH [OF Cons.prems(1) [unfolded u(1)] this distinct_update [OF Cons.prems(3)]]
  have "fst ` set (AList.update (rn_Name rn) job jobs) = insert (rn_Name rn) (fst ` set jobs)"
    by (induction jobs) auto
  with rec show ?case by auto
qed auto

text \<open>Once they are all there, ensuring the Jobs only reads.\<close>

lemma ensure_again:
  "\<forall>rn \<in> set rns. look (world s) (jobKey run rn) \<noteq> None \<Longrightarrow>
   acts (snd (ensureJobs K P r run timeout rns jobs s)) = acts s @ map (\<lambda>rn. Req (GetJob (jobKey run rn))) rns"
proof (induction rns arbitrary: jobs s)
  case (Cons rn rns)
  obtain job u where u:
    "ensureJobs K P r run timeout (rn # rns) jobs s = ensureJobs K P r run timeout rns (AList.update (rn_Name rn) job jobs) u"
    "look (world u) = (look (world s))(jobKey run rn \<mapsto> job)"
    "look (world s) (jobKey run rn) = None \<or> look (world s) (jobKey run rn) = Some job
       \<and> acts u = acts s @ [Req (GetJob (jobKey run rn))]" by (rule ensure_one)
  have "\<forall>rn \<in> set rns. look (world u) (jobKey run rn) \<noteq> None" using u(2) Cons.prems by simp
  from Cons.IH [OF this] u Cons.prems show ?case by auto
qed simp

end

section \<open>The whole handler\<close>

definition runTimeout :: "CheckRun \<Rightarrow> duration" where
  "runTimeout run = deref (tpl_Timeout (run_Template run)) defaultRunTimeout"

text \<open>Everything the handler may do to a run it has read.\<close>

fun runAction :: "pkgs \<Rightarrow> CheckRunReconciler \<Rightarrow> nkey \<Rightarrow> CheckRun \<Rightarrow> action \<Rightarrow> bool" where
  "runAction P r req run (Req (GetRun key)) \<longleftrightarrow> key = req"
| "runAction P r req run (Req (GetServiceAccount key)) \<longleftrightarrow> key = (run_Namespace run, runnerServiceAccount r)"
| "runAction P r req run (Req (ApplyRunStatus doc owner)) \<longleftrightarrow>
     owner = checkRunFieldManager \<and> (\<exists>m. doc = statusDocument run m)"
| "runAction P r req run a \<longleftrightarrow>
     quiet run a \<or> jobAction P r run (runTimeout run) (tpl_Runners (run_Template run)) a"

lemma quiet_runAction: "quiet run a \<Longrightarrow> runAction P r req run a"
  by (cases "(run, a)" rule: quiet.cases) auto

lemma job_runAction:
  "jobAction P r run (runTimeout run) (tpl_Runners (run_Template run)) a \<Longrightarrow> runAction P r req run a"
  by (cases "(P, r, run, runTimeout run, tpl_Runners (run_Template run), a)" rule: jobAction.cases) auto

lemma issues_quiet: "issues (quiet run) s t \<Longrightarrow> issues (runAction P r req run) s t"
  by (erule issues_mono) (rule quiet_runAction)

lemma writes_runAction:
  assumes "writes P run st s t"
  shows "issues (runAction P' r req run) s t"
proof -
  obtain m before behind where new: "acts t = acts s @ before
      @ [Req (ApplyRunStatus (statusDocument run m) checkRunFieldManager)] @ behind"
    and q: "list_all (quiet run) before" "list_all (quiet run) behind"
    using assms by (auto simp: writes_def)
  have "list_all (runAction P' r req run) xs" if "list_all (quiet run) xs" for xs
    using that by (rule list.pred_mono_strong) (rule quiet_runAction)
  with q have "list_all (runAction P' r req run) (before
      @ [Req (ApplyRunStatus (statusDocument run m) checkRunFieldManager)] @ behind)" by auto
  with new show ?thesis unfolding issues_def by blast
qed

lemma settles_runAction:
  assumes "settles P run now timeout jobs s out"
  shows "issues (runAction P' r req run) s (snd out)"
proof -
  obtain st where "issues (quiet run) s (snd out) \<or> writes P run st s (snd out)"
    using assms by (auto simp: settles_def)
  then show ?thesis by (elim disjE) (rule issues_quiet writes_runAction, assumption)+
qed

lemma finish_runAction: "issues (runAction P' r req run) s (snd (finish K P run ph now sm c s))"
proof -
  obtain q t where f: "finish K P run ph now sm c s = (q, t)" by fastforce
  from finish_writes [OF f] have "issues (quiet run) s t
      \<or> writes P run (finishStatus run ph now sm c) s t" by blast
  then show ?thesis unfolding f snd_conv by (elim disjE) (rule issues_quiet writes_runAction, assumption)+
qed

text \<open>The part of the handler after the service account.\<close>

definition ensureAndSettle :: "'w kube \<Rightarrow> pkgs \<Rightarrow> CheckRunReconciler \<Rightarrow> CheckRun \<Rightarrow> time \<Rightarrow> 'w ctx \<Rightarrow>
    (api_error + duration) \<times> 'w ctx" where
  "ensureAndSettle K P r run now s =
     (case ensureJobs K P r run (runTimeout run) (tpl_Runners (run_Template run)) [] s of
        (Inl e, t) \<Rightarrow> (Inl e, t)
      | (Inr jobs, t) \<Rightarrow> reconcileJobs K P run now (runTimeout run) jobs t)"

lemma ensureAndSettle_runAction:
  assumes "ranges (p_range_jobs P)"
  shows "issues (runAction P r req run) s (snd (ensureAndSettle K P r run now s))"
proof -
  obtain q t where e: "ensureJobs K P r run (runTimeout run) (tpl_Runners (run_Template run)) [] s = (q, t)"
    by fastforce
  have i: "issues (runAction P r req run) s t"
    using ensureJobs_issues [of P r run "runTimeout run" "tpl_Runners (run_Template run)" s K "[]"] e
    by (auto elim: issues_mono intro: job_runAction)
  show ?thesis
  proof (cases q)
    case (Inr jobs)
    have "issues (runAction P r req run) t
        (snd (reconcileJobs K P run now (runTimeout run) jobs t))"
      using reconcileJobs_settles [OF assms] by (rule settles_runAction)
    with i Inr e show ?thesis by (auto simp: ensureAndSettle_def intro: issues_trans)
  qed (use e i in \<open>simp add: ensureAndSettle_def\<close>)
qed

lemma Reconcile_eq:
  assumes "perform (Req (GetRun req)) (k_get_run K req) s = (Inr run, s1)"
  shows "CheckRun_Reconcile K P r req s =
     (if isTerminalPhase (run_Phase run) then (Inr 0, s1)
      else let now = k_now K (world s1) in
        if st_StartTime (run_Status run) \<noteq> None then ensureAndSettle K P r run now s1
        else let saKey = (run_Namespace run, runnerServiceAccount r) in
          case perform (Req (GetServiceAccount saKey)) (k_get_sa K saKey) s1 of
            (None, s2) \<Rightarrow> ensureAndSettle K P r run now s2
          | (Some NotFound, s2) \<Rightarrow>
              finish K P run CheckRunError now None
                (conditionTrue ConditionRunnerServiceAccountMissing ''ServiceAccountNotFound'' (saMissingMessage r run))
                (warning run ''RunnerServiceAccountMissing'' (Sprintf ''%s'' [AMsg (saMissingMessage r run)]) s2)
          | (Some e, s2) \<Rightarrow> (Inl e, s2))"
  unfolding CheckRun_Reconcile_def ensureAndSettle_def runTimeout_def Let_def assms
  by (cases "st_StartTime (run_Status run)") simp_all

lemma Reconcile_runAction:
  assumes "ranges (p_range_jobs P)"
    and g: "perform (Req (GetRun req)) (k_get_run K req) s = (Inr run, s1)"
  shows "issues (runAction P r req run) s (snd (CheckRun_Reconcile K P r req s))"
proof -
  let ?R = "runAction P r req run"
  have i1: "issues ?R s s1" by (rule issues_perform [OF g]) simp_all
  have ens: "issues ?R s (snd (ensureAndSettle K P r run now u))" if "issues ?R s u" for now u
    using that ensureAndSettle_runAction [OF assms(1)] by (rule issues_trans)
  have fin: "issues ?R s (snd (finish K P run ph now sm c (warning run rs n u)))" if "issues ?R s u" for ph now sm c rs n u
  proof -
    have "issues ?R u (warning run rs n u)" by (rule issues_quiet [OF quiet_warning])
    then show ?thesis by (rule issues_trans [OF issues_trans [OF that] finish_runAction])
  qed
  let ?sa = "(run_Namespace run, runnerServiceAccount r)"
  obtain q s2 where sa: "perform (Req (GetServiceAccount ?sa)) (k_get_sa K ?sa) s1 = (q, s2)" by fastforce
  have i2: "issues ?R s s2" by (rule issues_perform [OF sa _ i1]) simp
  show ?thesis
    using i1 i2 ens fin sa by (simp add: Reconcile_eq [OF g] Let_def split: option.split api_error.split)
qed

section \<open>Documents\<close>

text \<open>The fields of the status an apply document sets.\<close>

fun status_fields :: "json \<Rightarrow> string set" where
  "status_fields (JObj kvs) = (case map_of kvs ''status'' of Some (JObj fs) \<Rightarrow> fst ` set fs | _ \<Rightarrow> {})"
| "status_fields _ = {}"

lemma status_fields_controller: "status_fields (statusDocument run m) = fst ` set m - {''runners''}"
  by (force simp: statusDocument_def)

lemma status_fields_runner:
  "BuildApplyDocument P ns name rn pod = Inr doc \<Longrightarrow> status_fields doc = {''runners''}"
  by (auto simp: BuildApplyDocument_def split: sum.splits)

section \<open>Conditions\<close>

lemma newStatus_conditions:
  "st_Conditions (newStatus P run st) = foldl (p_set_condition P) (st_Conditions (run_Status run))
     (map (\<lambda>c. c\<lparr>cond_ObservedGeneration := om_Generation (run_Meta run)\<rparr>) (cs_conditions st))"
  by (simp add: newStatus_def foldl_map)

definition completedCondition :: "CheckRun \<Rightarrow> CheckRunPhase \<Rightarrow> Condition" where
  "completedCondition run phase =
     \<lparr>cond_Type = ConditionCompleted, cond_Status = ConditionTrue,
      cond_ObservedGeneration = om_Generation (run_Meta run), cond_Reason = phase_string phase,
      cond_Message = Sprintf ''run finished with phase %s'' [AStr (phase_string phase)]\<rparr>"

lemma finish_conditions:
  assumes "condition_list (p_set_condition P)"
  shows "find_condition (st_Conditions (newStatus P run (finishStatus run phase now sm c))) t =
     (if t = ConditionCompleted then Some (completedCondition run phase)
      else if cond_Type c \<noteq> '''' \<and> t = cond_Type c
      then Some (c\<lparr>cond_ObservedGeneration := om_Generation (run_Meta run)\<rparr>)
      else find_condition (st_Conditions (run_Status run)) t)"
  by (simp add: newStatus_conditions finishStatus_def condition_list.find_set [OF assms] completedCondition_def)

lemma newStatus_distinct:
  "condition_list (p_set_condition P) \<Longrightarrow> distinct (map cond_Type (st_Conditions (run_Status run))) \<Longrightarrow>
   distinct (map cond_Type (st_Conditions (newStatus P run st)))"
  unfolding newStatus_conditions by (rule condition_list.distinct_foldl)

section \<open>Gauges of a finished run\<close>

lemma addLastResult_keys:
  "fst ` set (addLastResult xs res) = insert (res_Name res) (fst ` set xs)"
  "distinct (map fst xs) \<Longrightarrow> distinct (map fst (addLastResult xs res))"
  by (simp_all add: addLastResult_def dom_update distinct_update)

lemma lastResults_distinct:
  "distinct (map fst xs) \<Longrightarrow> distinct (map fst (foldl addLastResult xs rs))"
  by (induction rs arbitrary: xs) (simp_all add: addLastResult_keys)

lemma lastResults_value:
  "map_of (foldl addLastResult xs rs) c =
     (if c \<in> res_Name ` set rs
      then Some ((\<forall>res \<in> set rs. res_Name res = c \<longrightarrow> res_Passed res) \<and> map_of xs c \<noteq> Some False)
      else map_of xs c)"
proof (induction rs arbitrary: xs)
  case (Cons r rs)
  have "map_of (addLastResult xs r) c =
      (if c = res_Name r then Some (res_Passed r \<and> map_of xs c \<noteq> Some False) else map_of xs c)"
    by (auto simp: addLastResult_def update_conv' split: option.split)
  then show ?case by (auto simp: Cons.IH rev_image_eqI)
qed simp

definition verdict_ops :: "pkgs \<Rightarrow> CheckRun \<Rightarrow> time \<Rightarrow> metric_op list" where
  "verdict_ops P run completedAt =
     concat (map (resultMetrics (run_Namespace run) (runSuiteName run)) (allResults run))
     @ last_result_ops (run_Namespace run) (runSuiteName run)
         (p_range_results P (foldl addLastResult [] (allResults run)))
     @ [GaugeSet CheckRunLastCompletion [run_Namespace run, runSuiteName run] (unix completedAt)]"

lemma recordVerdicts_ops: "recordVerdicts P run completedAt s = emits (map Met (verdict_ops P run completedAt)) s"
  by (simp add: recordVerdicts_def verdict_ops_def SetLastResults_emits Let_def emit_def emits_def)

context gauge_registry
begin

lemma verdict_gauges:
  assumes "ranges (p_range_results P)"
  shows "val (fold app (verdict_ops P run completedAt) m) CheckLastResult [run_Namespace run, runSuiteName run, c] =
     (if c \<in> res_Name ` set (allResults run)
      then Some (if \<forall>res \<in> set (allResults run). res_Name res = c \<longrightarrow> res_Passed res then 1 else 0)
      else None)" (is ?last)
    and "val (fold app (verdict_ops P run completedAt) m) CheckRunLastCompletion [run_Namespace run, runSuiteName run] =
      Some (unix completedAt)"
proof -
  define rs where "rs = foldl addLastResult [] (allResults run)"
  define n where "n = fold app (concat (map (resultMetrics (run_Namespace run) (runSuiteName run)) (allResults run))) m"
  have d: "distinct (map fst (p_range_results P rs))"
  proof -
    have "distinct (map fst rs)" unfolding rs_def by (rule lastResults_distinct) simp
    moreover have "mset (map fst (p_range_results P rs)) = mset (map fst rs)"
      using assms unfolding ranges_def by (metis mset_map)
    ultimately show ?thesis using mset_eq_imp_distinct_iff by blast
  qed
  have "map_of (p_range_results P rs) = map_of rs"
    using assms by (rule ranges_map_of) (simp add: rs_def lastResults_distinct)
  then have "map_of (p_range_results P rs) c =
      (if c \<in> res_Name ` set (allResults run)
       then Some (\<forall>res \<in> set (allResults run). res_Name res = c \<longrightarrow> res_Passed res) else None)"
    by (simp add: rs_def lastResults_value)
  with last_results_own [OF d, of "run_Namespace run" "runSuiteName run" n c]
  show ?last by (simp add: verdict_ops_def val_set n_def [symmetric] rs_def [symmetric])
  show "val (fold app (verdict_ops P run completedAt) m) CheckRunLastCompletion [run_Namespace run, runSuiteName run] =
      Some (unix completedAt)"
    by (simp add: verdict_ops_def val_set)
qed

end

section \<open>One pass over a store\<close>

text \<open>
  A server on which every write of the handler is answered: Jobs are stored, a status can be
  converted and applied.
\<close>

locale run_server = job_store look K P for look :: "'w \<Rightarrow> nkey \<Rightarrow> Job option" and K :: "'w kube" and P +
  assumes status_ok: "\<exists>m. p_status_map P st = Inr m"
    and apply_ok: "fst (k_apply_status K doc owner w) = None"
    and range_jobs: "ranges (p_range_jobs P)"
begin

lemma applyStatus_ok: "fst (applyStatus K P run st s) = None"
proof -
  obtain m where "p_status_map P (newStatus P run st) = Inr m" using status_ok by blast
  then show ?thesis by (simp add: applyStatus_def Let_def perform_result apply_ok)
qed

lemma finish_ok: "fst (finish K P run ph now sm c s) = Inr 0"
  using applyStatus_ok [of run "finishStatus run ph now sm c" s]
  by (auto simp: finish_def Let_def split: prod.split option.split)

lemma stillRunning_ok: "\<exists>d. fst (stillRunning K P run now timeout s) = Inr d"
  using applyStatus_ok [of run "runningStatus run now" s]
  by (auto simp: stillRunning_def Let_def split: prod.split option.split)

lemma reconcileJobs_ok: "\<exists>d. fst (reconcileJobs K P run now timeout jobs s) = Inr d"
  using finish_ok stillRunning_ok
  by (simp add: reconcileJobs_def Let_def split: option.split prod.split)

text \<open>Without a request failing, a pass ensures all Jobs and writes the specified status.\<close>

lemma pass:
  assumes "\<not> isTerminalPhase (run_Phase run)"
    and get_run: "k_get_run K (meta_key (run_Meta run)) (world s) = (Inr run, world s)"
    and get_sa: "k_get_sa K (run_Namespace run, runnerServiceAccount r) (world s) = (None, world s)"
  obtains d jobs t0 t st where
    "CheckRun_Reconcile K P r (meta_key (run_Meta run)) s = (Inr d, t)"
    "acts t0 = acts s @ [Req (GetRun (meta_key (run_Meta run)))]
       @ (if st_StartTime (run_Status run) \<noteq> None then []
          else [Req (GetServiceAccount (run_Namespace run, runnerServiceAccount r))])
       @ ensureActs P r run (runTimeout run) (tpl_Runners (run_Template run)) (dom (look (world s)))"
    "\<forall>k. k \<notin> jobKey run ` set (tpl_Runners (run_Template run)) \<longrightarrow> look (world t0) k = look (world s) k"
    "fst ` set jobs = rn_Name ` set (tpl_Runners (run_Template run))"
    "\<forall>(n, j) \<in> set jobs. look (world t0) (run_Namespace run, jobName (run_Name run) n) = Some j"
    "\<forall>k j. look (world s) k = Some j \<longrightarrow> look (world t0) k = Some j"
    "statusFor run (k_now K (world s)) (runTimeout run) jobs
       (specPhase run (k_now K (world s)) (runTimeout run) jobs) st"
    "writes P run st t0 t"
    "specPhase run (k_now K (world s)) (runTimeout run) jobs \<noteq> CheckRunRunning \<Longrightarrow> d = 0"
proof -
  let ?now = "k_now K (world s)" and ?to = "runTimeout run" and ?rns = "tpl_Runners (run_Template run)"
  let ?req = "meta_key (run_Meta run)" and ?sa = "(run_Namespace run, runnerServiceAccount r)"
  let ?s1 = "s\<lparr>world := world s, acts := acts s @ [Req (GetRun ?req)]\<rparr>"
  have g: "perform (Req (GetRun ?req)) (k_get_run K ?req) s = (Inr run, ?s1)"
    by (rule perform_eq) (simp add: get_run)
  let ?s2 = "?s1\<lparr>world := world s, acts := acts ?s1 @ [Req (GetServiceAccount ?sa)]\<rparr>"
  have sa: "perform (Req (GetServiceAccount ?sa)) (k_get_sa K ?sa) ?s1 = (None, ?s2)"
    by (rule perform_eq) (simp add: get_sa)
  let ?u = "if st_StartTime (run_Status run) \<noteq> None then ?s1 else ?s2"
  have eq: "CheckRun_Reconcile K P r ?req s = ensureAndSettle K P r run ?now ?u"
    using assms(1) sa by (simp add: Reconcile_eq [OF g] Let_def)
  have wu: "world ?u = world s" by simp
  obtain jobs t0 where e: "ensureJobs K P r run ?to ?rns [] ?u = (Inr jobs, t0)"
    and kept: "\<forall>k j. look (world s) k = Some j \<longrightarrow> look (world t0) k = Some j"
      "\<forall>k. k \<notin> jobKey run ` set ?rns \<longrightarrow> look (world t0) k = look (world s) k"
    and trace: "acts t0 = acts ?u @ ensureActs P r run ?to ?rns (dom (look (world s)))"
    using ensure_store [of r run ?to ?rns "[]" ?u] unfolding wu by blast
  then have acts: "acts t0 = acts s @ [Req (GetRun ?req)]
      @ (if st_StartTime (run_Status run) \<noteq> None then [] else [Req (GetServiceAccount ?sa)])
      @ ensureActs P r run ?to ?rns (dom (look (world s)))" by simp
  obtain d t where rj: "reconcileJobs K P run ?now ?to jobs t0 = (Inr d, t)"
    using reconcileJobs_ok [of run ?now ?to jobs t0] by (metis prod.collapse)
  from ensure_jobs [OF e] have js: "fst ` set jobs = rn_Name ` set ?rns"
    "\<forall>(n, j) \<in> set jobs. look (world t0) (run_Namespace run, jobName (run_Name run) n) = Some j" by simp_all
  obtain st where st: "statusFor run ?now ?to jobs (specPhase run ?now ?to jobs) st"
    "writes P run st t0 t" "specPhase run ?now ?to jobs \<noteq> CheckRunRunning \<longrightarrow> d = 0"
    using reconcileJobs_settles [OF range_jobs, of run ?now ?to jobs t0 K]
    by (auto simp: settles_def rj)
  have res: "CheckRun_Reconcile K P r ?req s = (Inr d, t)"
    unfolding eq ensureAndSettle_def e by (simp add: rj)
  show thesis by (rule that [OF res acts kept(2) js kept(1) st(1,2)]) (use st(3) in blast)
qed

end

end
