(* ===== verification/CheckSuite_Controller.thy ===== *)
theory CheckSuite_Controller
  imports Names Metrics
begin

text \<open>
  \<open>internal/controller/checksuite_controller.go\<close>: the reconciler that creates CheckRuns on
  schedule and on the run-now annotation, applies the concurrency policy, and deletes finished runs
  beyond the history limits.

  The cron library is a parameter: \<open>p_parse_cron\<close> gives an error text or the function
  \<open>Next\<close> of the schedule, whose documented behaviour is the locale \<open>schedule\<close>. The
  sorting library is the parameter \<open>p_sort_runs\<close> with the contract \<open>run_sorter\<close>. Handlers
  return \<open>Inl\<close> an error or \<open>Inr\<close> the \<open>RequeueAfter\<close>, as in the CheckRun controller.
\<close>

section \<open>Constants\<close>

definition defaultStartingDeadline :: duration where
  "defaultStartingDeadline = 200 * Second"

definition maxMissedScans :: nat where
  "maxMissedScans = 80"

definition ConditionScheduleValid :: string where
  "ConditionScheduleValid = ''ScheduleValid''"

section \<open>Ticks\<close>

text \<open>The loop of \<open>mostRecentScheduleTime\<close>; \<open>nxt\<close> is \<open>sched.Next\<close>.\<close>

function scanTicks :: "(time \<Rightarrow> time) \<Rightarrow> time \<Rightarrow> time option \<Rightarrow> nat \<Rightarrow> time \<Rightarrow> time option \<times> time \<times> bool" where
  "scanTicks nxt now lastMissed scans t =
     (if \<not> after t now then
        let scans1 = scans + 1 in
        if scans1 > maxMissedScans then (Some t, nxt now, True)
        else scanTicks nxt now (Some t) scans1 (nxt t)
      else (lastMissed, t, False))"
  by pat_completeness auto
termination
  by (relation "measure (\<lambda>(nxt, now, lastMissed, scans, t). Suc maxMissedScans - scans)") auto

declare scanTicks.simps [simp del]

definition mostRecentScheduleTime :: "(time \<Rightarrow> time) \<Rightarrow> time \<Rightarrow> time \<Rightarrow> time option \<times> time \<times> bool" where
  "mostRecentScheduleTime nxt earliest now = scanTicks nxt now None 0 (nxt earliest)"

section \<open>Runs of a suite\<close>

definition runRef :: "CheckRun \<Rightarrow> ObjectReference" where
  "runRef run =
     \<lparr>ref_APIVersion = SchemeGroupVersion, ref_Kind = ''CheckRun'', ref_Namespace = run_Namespace run,
      ref_Name = run_Name run, ref_UID = om_UID (run_Meta run)\<rparr>"

definition activeRefs :: "CheckRun list \<Rightarrow> ObjectReference list" where
  "activeRefs runs = map runRef runs"

definition runRecency :: "CheckRun \<Rightarrow> time" where
  "runRecency run =
     (case st_StartTime (run_Status run) of
        Some t \<Rightarrow> t | None \<Rightarrow> om_CreationTimestamp (run_Meta run))"

definition historyLimits :: "HistoryLimit option \<Rightarrow> int \<times> int" where
  "historyLimits hl =
     (case hl of
        None \<Rightarrow> (3, 5)
      | Some h \<Rightarrow> (deref (hl_Successful h) 3, deref (hl_Failed h) 5))"

text \<open>The run a suite creates: its template under a label and an owner reference.\<close>

definition newRun :: "CheckSuite \<Rightarrow> string \<Rightarrow> CheckRun" where
  "newRun suite name =
     \<lparr>run_Meta = \<lparr>om_Name = name, om_Namespace = suite_Namespace suite, om_UID = '''', om_Generation = 0,
        om_CreationTimestamp = 0, om_Labels = [labelSuite \<mapsto> label63 (suite_Name suite)],
        om_Annotations = Map.empty, om_Controller = None,
        om_ResourceVersion = ''''\<rparr>,
      run_Spec = \<lparr>run_SuiteRef = Some (suite_Name suite), run_Suite = ss_Template (suite_Spec suite)\<rparr>,
      run_Status = \<lparr>st_ObservedGeneration = 0, st_Phase = PhaseUnset, st_StartTime = None,
        st_CompletionTime = None, st_Runners = [], st_Summary = None, st_Conditions = []\<rparr>\<rparr>"

definition createRun :: "'w kube \<Rightarrow> pkgs \<Rightarrow> CheckSuite \<Rightarrow> string \<Rightarrow> 'w ctx \<Rightarrow> (api_error + CheckRun) \<times> 'w ctx" where
  "createRun K P suite name s =
     (case p_own_run P suite (newRun suite name) of
        Inl e \<Rightarrow> (Inl e, s)
      | Inr run \<Rightarrow>
          (case perform (Req (CreateRun run)) (k_create_run K run) s of
             (Inr stored, s1) \<Rightarrow> (Inr stored, s1)
           | (Inl AlreadyExists, s1) \<Rightarrow>
               let key = meta_key (run_Meta run) in
               perform (Req (GetRun key)) (k_get_run K key) s1
           | (Inl e, s1) \<Rightarrow> (Inl e, s1)))"

text \<open>The deletion loops: a run that is already gone is fine, another error ends the loop.\<close>

fun deleteRuns :: "'w kube \<Rightarrow> CheckRun list \<Rightarrow> 'w ctx \<Rightarrow> api_error option \<times> 'w ctx" where
  "deleteRuns K [] s = (None, s)"
| "deleteRuns K (run # runs) s =
     (let key = meta_key (run_Meta run) in
      case perform (Req (DeleteRun key)) (k_delete_run K key) s of
        (None, s1) \<Rightarrow> deleteRuns K runs s1
      | (Some NotFound, s1) \<Rightarrow> deleteRuns K runs s1
      | (Some e, s1) \<Rightarrow> (Some e, s1))"

definition gcExcess :: "pkgs \<Rightarrow> CheckRun list \<Rightarrow> int \<Rightarrow> CheckRun list" where
  "gcExcess P runs limit = take (nat (int (length runs) - limit)) (p_sort_runs P runs)"

definition gcRuns :: "'w kube \<Rightarrow> pkgs \<Rightarrow> CheckRun list \<Rightarrow> int \<Rightarrow> 'w ctx \<Rightarrow> api_error option \<times> 'w ctx" where
  "gcRuns K P runs limit s =
     (if int (length runs) \<le> limit then (None, s) else deleteRuns K (gcExcess P runs limit) s)"

section \<open>Reconcile\<close>

definition updateStatus :: "'w kube \<Rightarrow> CheckSuite \<Rightarrow> CheckSuiteStatus \<Rightarrow> 'w ctx \<Rightarrow> api_error option \<times> 'w ctx" where
  "updateStatus K suite status s =
     (let suite1 = suite\<lparr>suite_Status := status\<rparr> in
      perform (Req (UpdateSuiteStatus suite1)) (k_update_suite_status K suite1) s)"

definition suiteEvent :: "CheckSuite \<Rightarrow> string \<Rightarrow> string \<Rightarrow> message \<Rightarrow> action" where
  "suiteEvent suite etype reason note = Ev (Event (meta_key (suite_Meta suite)) etype reason ''Reconcile'' note)"

definition isActive :: "CheckRun \<Rightarrow> bool" where
  "isActive run \<longleftrightarrow> run_Phase run \<notin> {CheckRunSucceeded, CheckRunFailed, CheckRunError}"

definition manualRunName :: "CheckSuite \<Rightarrow> string \<Rightarrow> string" where
  "manualRunName suite trigger = label63 (suite_Name suite @ ''-manual-'' @ hash8 trigger)"

definition scheduledRunName :: "CheckSuite \<Rightarrow> time \<Rightarrow> string" where
  "scheduledRunName suite tick = label63 (suite_Name suite @ ''-'' @ itoa (unix tick))"

text \<open>The run-now annotation (lines 122 to 133); the empty string is the missing annotation.\<close>

definition manualTrigger :: "'w kube \<Rightarrow> pkgs \<Rightarrow> CheckSuite \<Rightarrow> CheckSuiteStatus \<Rightarrow> 'w ctx \<Rightarrow>
    (api_error + CheckSuiteStatus) \<times> 'w ctx" where
  "manualTrigger K P suite status s =
     (let trigger = deref (om_Annotations (suite_Meta suite) RunNowAnnotation) '''' in
      if trigger \<noteq> '''' \<and> trigger \<noteq> sst_LastManualTrigger status then
        let name = manualRunName suite trigger in
        (case createRun K P suite name s of
           (Inl e, s1) \<Rightarrow> (Inl e, s1)
         | (Inr run, s1) \<Rightarrow>
             (Inr (status\<lparr>sst_LastManualTrigger := trigger, sst_Active := sst_Active status @ [runRef run]\<rparr>),
              emit (suiteEvent suite ''Normal'' ''ManualRunCreated''
                (Sprintf ''created CheckRun %s from %s annotation'' [AStr name, AStr RunNowAnnotation])) s1))
      else (Inr status, s))"

text \<open>A tick to be handled (lines 172 to 206).\<close>

definition fireTick :: "'w kube \<Rightarrow> pkgs \<Rightarrow> CheckSuite \<Rightarrow> CheckRun list \<Rightarrow> time \<Rightarrow> time \<Rightarrow> CheckSuiteStatus \<Rightarrow>
    'w ctx \<Rightarrow> (api_error + CheckSuiteStatus) \<times> 'w ctx" where
  "fireTick K P suite active now tick status s =
     (let startingDeadline = deref (ss_StartingDeadline (suite_Spec suite)) defaultStartingDeadline;
          policy = ss_ConcurrencyPolicy (suite_Spec suite);
          handled = status\<lparr>sst_LastScheduleTime := Some tick\<rparr> in
      if time_sub now tick > startingDeadline then (Inr handled, s)
      else if policy = ForbidConcurrent \<and> length active > 0 then
        (Inr handled,
         emit (suiteEvent suite ''Normal'' ''RunSkipped''
           (Sprintf ''skipping scheduled run at %s: %d run(s) still active (concurrencyPolicy: Forbid)''
              [ATime tick, AInt (int (length active))])) s)
      else
        case (if policy = ReplaceConcurrent then deleteRuns K active s else (None, s)) of
          (Some e, s1) \<Rightarrow> (Inl e, s1)
        | (None, s1) \<Rightarrow>
            (case createRun K P suite (scheduledRunName suite tick) s1 of
               (Inl e, s2) \<Rightarrow> (Inl e, s2)
             | (Inr run, s2) \<Rightarrow> (Inr (handled\<lparr>sst_Active := sst_Active status @ [runRef run]\<rparr>), s2)))"

definition scheduleCondition :: "CheckSuite \<Rightarrow> ConditionStatus \<Rightarrow> string \<Rightarrow> message \<Rightarrow> Condition" where
  "scheduleCondition suite status reason msg =
     \<lparr>cond_Type = ConditionScheduleValid, cond_Status = status,
      cond_ObservedGeneration = om_Generation (suite_Meta suite), cond_Reason = reason, cond_Message = msg\<rparr>"

definition setCondition :: "pkgs \<Rightarrow> Condition \<Rightarrow> CheckSuiteStatus \<Rightarrow> CheckSuiteStatus" where
  "setCondition P c status = status\<lparr>sst_Conditions := p_set_condition P (sst_Conditions status) c\<rparr>"

definition done_with :: "api_error option \<times> 'w ctx \<Rightarrow> duration \<Rightarrow> (api_error + duration) \<times> 'w ctx" where
  "done_with r requeue = (case r of (Some e, s) \<Rightarrow> (Inl e, s) | (None, s) \<Rightarrow> (Inr requeue, s))"

text \<open>The schedule (lines 135 to 211).\<close>

definition handleSchedule :: "'w kube \<Rightarrow> pkgs \<Rightarrow> CheckSuite \<Rightarrow> CheckRun list \<Rightarrow> time \<Rightarrow> CheckSuiteStatus \<Rightarrow>
    'w ctx \<Rightarrow> (api_error + duration) \<times> 'w ctx" where
  "handleSchedule K P suite active now status s =
     (case (if deref (ss_Suspend (suite_Spec suite)) False then None else ss_Schedule (suite_Spec suite)) of
        None \<Rightarrow> done_with (updateStatus K suite status s) 0
      | Some text \<Rightarrow>
          (case p_parse_cron P text of
             Inl err \<Rightarrow>
               let status1 = setCondition P (scheduleCondition suite ConditionFalse ''ParseError''
                     (Sprintf ''invalid schedule %q: %v'' [AStr text, AErr err])) status;
                   s1 = emit (suiteEvent suite ''Warning'' ''InvalidSchedule''
                     (Sprintf ''cannot parse schedule %q: %v'' [AStr text, AErr err])) s
               in done_with (updateStatus K suite status1 s1) 0
           | Inr nxt \<Rightarrow>
               let status1 = setCondition P (scheduleCondition suite ConditionTrue ''Parsed''
                     (Sprintf ''schedule parsed successfully'' [])) status;
                   earliest = deref (sst_LastScheduleTime status1) (om_CreationTimestamp (suite_Meta suite))
               in case mostRecentScheduleTime nxt earliest now of
                    (lastMissed, next, tooMany) \<Rightarrow>
                      let s1 = if tooMany then emit (suiteEvent suite ''Warning'' ''TooManyMissedRuns''
                                 (Sprintf ''too many missed scheduled ticks; check clock skew or schedule frequency'' [])) s
                               else s
                      in case (case lastMissed of
                                 None \<Rightarrow> (Inr status1, s1)
                               | Some tick \<Rightarrow> fireTick K P suite active now tick status1 s1) of
                           (Inl e, s2) \<Rightarrow> (Inl e, s2)
                         | (Inr status2, s2) \<Rightarrow> done_with (updateStatus K suite status2 s2) (time_sub next now)))"

definition CheckSuite_Reconcile :: "'w kube \<Rightarrow> pkgs \<Rightarrow> nkey \<Rightarrow> 'w ctx \<Rightarrow> (api_error + duration) \<times> 'w ctx" where
  "CheckSuite_Reconcile K P req s =
     (case perform (Req (GetSuite req)) (k_get_suite K req) s of
        (Inl NotFound, s1) \<Rightarrow> (Inr 0, DeleteSuite (fst req) (snd req) s1)
      | (Inl e, s1) \<Rightarrow> (Inl e, s1)
      | (Inr suite, s1) \<Rightarrow>
          let now = k_now K (world s1);
              ns = suite_Namespace suite;
              sel = (labelSuite, label63 (suite_Name suite)) in
          (case perform (Req (ListRuns ns sel)) (k_list_runs K ns sel) s1 of
             (Inl e, s2) \<Rightarrow> (Inl e, s2)
           | (Inr items, s2) \<Rightarrow>
               let runs = filter (\<lambda>run. p_controlled_by P run suite) items;
                   succeeded = filter (\<lambda>run. run_Phase run = CheckRunSucceeded) runs;
                   failed = filter (\<lambda>run. run_Phase run = CheckRunFailed \<or> run_Phase run = CheckRunError) runs;
                   active = filter isActive runs;
                   status = (suite_Status suite)
                     \<lparr>sst_ObservedGeneration := om_Generation (suite_Meta suite), sst_Active := activeRefs active\<rparr>;
                   limits = historyLimits (ss_HistoryLimit (suite_Spec suite)) in
               (case gcRuns K P succeeded (fst limits) s2 of
                  (Some e, s3) \<Rightarrow> (Inl e, s3)
                | (None, s3) \<Rightarrow>
                    (case gcRuns K P failed (snd limits) s3 of
                       (Some e, s4) \<Rightarrow> (Inl e, s4)
                     | (None, s4) \<Rightarrow>
                         (case manualTrigger K P suite status s4 of
                            (Inl e, s5) \<Rightarrow> (Inl e, s5)
                          | (Inr status1, s5) \<Rightarrow> handleSchedule K P suite active now status1 s5)))))"

section \<open>The scan\<close>

text \<open>
  The documented contract of \<open>Schedule.Next\<close> for a schedule that has ticks: the result is a
  tick, it is later than the argument, and it is the first such.
\<close>

locale schedule =
  fixes ticks :: "time \<Rightarrow> bool" and nxt :: "time \<Rightarrow> time"
  assumes nxt_tick: "ticks (nxt t)"
    and nxt_after: "t < nxt t"
    and nxt_first: "ticks u \<Longrightarrow> t < u \<Longrightarrow> nxt t \<le> u"
begin

lemma nxt_mono: "t \<le> u \<Longrightarrow> nxt t \<le> nxt u"
  using nxt_first [OF nxt_tick, of t u] nxt_after [of u] by simp

lemma iter_le: "m \<le> n \<Longrightarrow> (nxt ^^ m) t \<le> (nxt ^^ n) t"
proof (induction n)
  case (Suc n)
  then show ?case using nxt_after [of "(nxt ^^ n) t"] by (cases "m = Suc n") auto
qed simp

text \<open>Between an instant and the next tick after it, \<open>Next\<close> is constant.\<close>

lemma nxt_between: "t \<le> u \<Longrightarrow> u < nxt t \<Longrightarrow> nxt u = nxt t"
  using nxt_first [OF nxt_tick, of u t] nxt_mono [of t u] by simp

lemma scan_iter:
  "n \<le> maxMissedScans \<Longrightarrow> (nxt ^^ n) e \<le> now \<Longrightarrow> lm = (if n = 0 then None else Some ((nxt ^^ n) e)) \<Longrightarrow>
   if (nxt ^^ Suc maxMissedScans) e \<le> now
   then scanTicks nxt now lm n (nxt ((nxt ^^ n) e)) = (Some ((nxt ^^ Suc maxMissedScans) e), nxt now, True)
   else \<exists>m \<le> maxMissedScans. (nxt ^^ m) e \<le> now \<and> now < (nxt ^^ Suc m) e
     \<and> scanTicks nxt now lm n (nxt ((nxt ^^ n) e)) =
         (if m = 0 then None else Some ((nxt ^^ m) e), nxt now, False)"
proof (induction "Suc maxMissedScans - n" arbitrary: n lm)
  case (Suc k)
  let ?t = "nxt ((nxt ^^ n) e)"
  show ?case
  proof (cases "?t \<le> now")
    case False
    have "(nxt ^^ Suc n) e \<le> (nxt ^^ Suc maxMissedScans) e" using Suc.prems(1) by (intro iter_le) simp
    then have "\<not> (nxt ^^ Suc maxMissedScans) e \<le> now" using False by simp
    moreover have "nxt now = ?t" using Suc.prems(2) False by (intro nxt_between) simp_all
    ultimately show ?thesis using False Suc.prems
      by (auto simp: scanTicks.simps after_def intro!: exI [of _ n])
  next
    case True
    show ?thesis
    proof (cases "n = maxMissedScans")
      case full: True
      then show ?thesis using True by (simp add: scanTicks.simps after_def)
    next
      case False
      have eq: "scanTicks nxt now lm n ?t = scanTicks nxt now (Some ?t) (Suc n) (nxt ((nxt ^^ Suc n) e))"
        using True False Suc.prems(1) by (simp add: scanTicks.simps [of nxt now lm] after_def)
      have "k = Suc maxMissedScans - Suc n" and "Suc n \<le> maxMissedScans" using Suc(2) False Suc.prems(1) by auto
      then show ?thesis unfolding eq using True by (intro Suc.hyps(1)) simp_all
    qed
  qed
qed simp

text \<open>
  The scan finds the last tick in the window unless the window holds more than the cap, and the
  next tick after now in any case.
\<close>

lemma most_recent:
  assumes "e \<le> now" and "mostRecentScheduleTime nxt e now = (lm, next, tooMany)"
  shows "next = nxt now"
    and "tooMany \<longleftrightarrow> (nxt ^^ Suc maxMissedScans) e \<le> now"
    and "tooMany \<Longrightarrow> lm = Some ((nxt ^^ Suc maxMissedScans) e)"
    and "lm = Some l \<Longrightarrow> ticks l \<and> e < l \<and> l \<le> now"
    and "\<not> tooMany \<Longrightarrow> ticks u \<Longrightarrow> e < u \<Longrightarrow> u \<le> now \<Longrightarrow> \<exists>l. lm = Some l \<and> u \<le> l"
proof -
  let ?cap = "(nxt ^^ Suc maxMissedScans) e"
  have S: "mostRecentScheduleTime nxt e now = scanTicks nxt now None 0 (nxt ((nxt ^^ 0) e))"
    by (simp add: mostRecentScheduleTime_def)
  have first: "e < (nxt ^^ Suc m) e" for m
    using nxt_after [of e] iter_le [of 1 "Suc m" e] by simp
  have *: "next = nxt now \<and> (tooMany \<longleftrightarrow> ?cap \<le> now) \<and> (tooMany \<longrightarrow> lm = Some ?cap)
    \<and> (\<forall>l. lm = Some l \<longrightarrow> ticks l \<and> e < l \<and> l \<le> now)
    \<and> (\<not> tooMany \<longrightarrow> (\<forall>u. ticks u \<longrightarrow> e < u \<longrightarrow> u \<le> now \<longrightarrow> (\<exists>l. lm = Some l \<and> u \<le> l)))"
  proof (cases "?cap \<le> now")
    case True
    then have "lm = Some ?cap \<and> next = nxt now \<and> tooMany"
      using scan_iter [of 0 e now None] assms S by auto
    then show ?thesis using True first nxt_tick by auto
  next
    case False
    then obtain m where m: "(nxt ^^ m) e \<le> now" "now < (nxt ^^ Suc m) e"
      "mostRecentScheduleTime nxt e now = (if m = 0 then None else Some ((nxt ^^ m) e), nxt now, False)"
      using scan_iter [of 0 e now None] assms(1) S by auto
    have tick: "ticks ((nxt ^^ m) e) \<and> e < (nxt ^^ m) e" if "m \<noteq> 0"
      using that nxt_tick first [of "m - 1"] by (cases m) auto
    have cover: "u \<le> (nxt ^^ m) e" if "ticks u" "u \<le> now" for u
    proof (rule ccontr)
      assume "\<not> u \<le> (nxt ^^ m) e"
      then have "nxt ((nxt ^^ m) e) \<le> u" using that(1) by (intro nxt_first) simp_all
      then show False using that(2) m(2) by simp
    qed
    have "m \<noteq> 0" if "ticks u" "e < u" "u \<le> now" for u
      using cover [OF that(1,3)] that(2) by (cases m) auto
    then show ?thesis using m assms(2) False tick cover by (auto split: if_splits)
  qed
  show "next = nxt now" "tooMany \<longleftrightarrow> ?cap \<le> now" using * by simp_all
  show "lm = Some ?cap" if tooMany using * that by simp
  show "ticks l \<and> e < l \<and> l \<le> now" if "lm = Some l" using * that by simp
  show "\<exists>l. lm = Some l \<and> u \<le> l" if "\<not> tooMany" "ticks u" "e < u" "u \<le> now" using * that by blast
qed

end

text \<open>A schedule with a tick at every multiple of a period, such as \<open>* * * * *\<close> with a minute.\<close>

definition everyNext :: "duration \<Rightarrow> time \<Rightarrow> time" where
  "everyNext period t = (t div period + 1) * period"

lemma everyNext_schedule:
  assumes "0 < period"
  shows "schedule (\<lambda>t. period dvd t) (everyNext period)"
proof
  fix t u :: time
  show "period dvd everyNext period t" by (simp add: everyNext_def)
  have "t mod period < period" using assms by simp
  then show "t < everyNext period t"
    unfolding everyNext_def distrib_right mult_1 using div_mult_mod_eq [of t period] by linarith
  assume "period dvd u" "t < u"
  then obtain k where k: "u = k * period" by (metis dvd_div_mult_self)
  have "t div period < k"
  proof (rule ccontr)
    assume "\<not> t div period < k"
    then have "k * period \<le> t div period * period" using assms by (intro mult_right_mono) simp_all
    also have "\<dots> \<le> t" using assms div_mult_mod_eq [of t period] pos_mod_sign [of period t] by linarith
    finally show False using \<open>t < u\<close> k by simp
  qed
  then show "everyNext period t \<le> u" using assms k by (simp add: everyNext_def)
qed

interpretation minutely: schedule "\<lambda>t. Minute dvd t" "everyNext Minute"
  by (rule everyNext_schedule) simp

section \<open>History\<close>

text \<open>The contract of \<open>slices.SortFunc\<close> with the comparison of recency.\<close>

locale run_sorter =
  fixes sortr :: "CheckRun list \<Rightarrow> CheckRun list"
  assumes perm: "mset (sortr xs) = mset xs"
    and by_recency: "sorted (map runRecency (sortr xs))"
begin

lemma sortr_length: "length (sortr xs) = length xs"
  using perm by (rule mset_eq_length)

lemma sortr_set: "set (sortr xs) = set xs"
  using perm by (rule mset_eq_setD)

lemma prefix_older:
  "x \<in> set (take n (sortr xs)) \<Longrightarrow> y \<in> set (drop n (sortr xs)) \<Longrightarrow> runRecency x \<le> runRecency y"
  using by_recency [of xs] sorted_append [of "map runRecency (take n (sortr xs))" "map runRecency (drop n (sortr xs))"]
  by (simp flip: map_append)

lemma prefix_split: "mset (take n (sortr xs)) + mset (drop n (sortr xs)) = mset xs"
  by (simp add: perm flip: mset_append)

end

interpretation stable: run_sorter "sort_key runRecency"
  by unfold_locales simp_all

text \<open>What the collection of old runs deletes.\<close>

lemma gcExcess_run_sorter:
  assumes "run_sorter (p_sort_runs P)" and "0 \<le> limit" and "limit < int (length runs)"
  defines "kept \<equiv> drop (nat (int (length runs) - limit)) (p_sort_runs P runs)"
  shows "mset (gcExcess P runs limit) + mset kept = mset runs" and "int (length kept) = limit"
    and "x \<in> set (gcExcess P runs limit) \<Longrightarrow> y \<in> set kept \<Longrightarrow> runRecency x \<le> runRecency y"
  using run_sorter.prefix_split [OF assms(1), of _ runs] run_sorter.prefix_older [OF assms(1), of x _ runs y]
    run_sorter.sortr_length [OF assms(1), of runs] assms(2,3)
  by (simp_all add: gcExcess_def kept_def)

definition runKey :: "CheckRun \<Rightarrow> nkey" where
  "runKey run = meta_key (run_Meta run)"

lemma deleteRuns_issues:
  "issues (\<lambda>a. \<exists>run \<in> set runs. a = Req (DeleteRun (runKey run))) s (snd (deleteRuns K runs s))"
proof (induction runs arbitrary: s)
  case (Cons run runs)
  let ?P = "\<lambda>a. \<exists>x \<in> set (run # runs). a = Req (DeleteRun (runKey x))"
  obtain q s1 where p: "perform (Req (DeleteRun (runKey run))) (k_delete_run K (runKey run)) s = (q, s1)" by fastforce
  have "issues ?P s s1" by (rule issues_perform [OF p]) simp_all
  moreover have "issues ?P s1 (snd (deleteRuns K runs s1))" using Cons.IH by (rule issues_mono) auto
  ultimately show ?case using p
    by (auto simp: runKey_def Let_def split: option.split api_error.split intro: issues_trans)
qed simp

lemma deleteRuns_all:
  "deleteRuns K runs s = (None, t) \<Longrightarrow> acts t = acts s @ map (\<lambda>run. Req (DeleteRun (runKey run))) runs"
proof (induction runs arbitrary: s)
  case (Cons run runs)
  obtain q s1 where p: "perform (Req (DeleteRun (runKey run))) (k_delete_run K (runKey run)) s = (q, s1)" by fastforce
  with Cons.prems have "deleteRuns K runs s1 = (None, t)"
    by (auto simp: runKey_def Let_def split: option.splits api_error.splits)
  then show ?case using Cons.IH acts_perform [OF p] by simp
qed simp

lemma deleteRuns_ok:
  "(\<And>key w. fst (k_delete_run K key w) \<in> {None, Some NotFound}) \<Longrightarrow> fst (deleteRuns K runs s) = None"
proof (induction runs arbitrary: s)
  case (Cons run runs)
  obtain q s1 where p: "perform (Req (DeleteRun (runKey run))) (k_delete_run K (runKey run)) s = (q, s1)" by fastforce
  then have "q \<in> {None, Some NotFound}"
    using Cons.prems perform_result by (metis fst_conv)
  then show ?case using p Cons by (auto simp: runKey_def Let_def)
qed simp

lemma gcRuns_issues:
  "issues (\<lambda>a. \<exists>run \<in> set (gcExcess P runs limit). a = Req (DeleteRun (runKey run))) s (snd (gcRuns K P runs limit s))"
  using deleteRuns_issues [of "gcExcess P runs limit" s K] by (simp add: gcRuns_def)

section \<open>Creating runs\<close>

text \<open>The actions of creating the run of a suite under a name.\<close>

fun createAction :: "pkgs \<Rightarrow> CheckSuite \<Rightarrow> string \<Rightarrow> action \<Rightarrow> bool" where
  "createAction P suite name (Req (CreateRun run)) \<longleftrightarrow> p_own_run P suite (newRun suite name) = Inr run"
| "createAction P suite name (Req (GetRun key)) \<longleftrightarrow>
     (\<exists>run. p_own_run P suite (newRun suite name) = Inr run \<and> key = runKey run)"
| "createAction P suite name _ \<longleftrightarrow> False"

lemma createRun_issues: "issues (createAction P suite name) s (snd (createRun K P suite name s))"
proof (cases "p_own_run P suite (newRun suite name)")
  case (Inl e)
  then show ?thesis by (simp add: createRun_def)
next
  case (Inr run)
  obtain q s1 where p: "perform (Req (CreateRun run)) (k_create_run K run) s = (q, s1)" by fastforce
  obtain g s2 where h: "perform (Req (GetRun (meta_key (run_Meta run)))) (k_get_run K (meta_key (run_Meta run))) s1 = (g, s2)"
    by fastforce
  have "issues (createAction P suite name) s s1" by (rule issues_perform [OF p]) (simp_all add: Inr)
  moreover have "issues (createAction P suite name) s s2"
    by (rule issues_perform [OF h _ calculation]) (simp add: Inr runKey_def)
  ultimately show ?thesis using p h Inr
    by (auto simp: createRun_def Let_def split: sum.split api_error.split)
qed

lemma createRun_acts:
  assumes "createRun K P suite name s = (Inr run', t)"
  obtains run rest where "p_own_run P suite (newRun suite name) = Inr run"
    "acts t = acts s @ Req (CreateRun run) # rest" "rest \<in> {[], [Req (GetRun (runKey run))]}"
proof (cases "p_own_run P suite (newRun suite name)")
  case (Inr run)
  obtain q s1 where p: "perform (Req (CreateRun run)) (k_create_run K run) s = (q, s1)" by fastforce
  obtain g s2 where h: "perform (Req (GetRun (runKey run))) (k_get_run K (runKey run)) s1 = (g, s2)" by fastforce
  have "t = s1 \<or> t = s2"
    using assms Inr p h by (auto simp: createRun_def runKey_def Let_def split: sum.splits api_error.splits)
  then show thesis using Inr acts_perform [OF p] acts_perform [OF h]
    by (auto intro: that [of run "[]"] that [of run "[Req (GetRun (runKey run))]"])
qed (use assms in \<open>simp add: createRun_def\<close>)

text \<open>Over a store of runs: a create returns what is stored under the name, old or new.\<close>

locale run_store =
  object_store look "k_get_run K" "k_create_run K" runKey
    for look :: "'w \<Rightarrow> nkey \<Rightarrow> CheckRun option" and K :: "'w kube" +
  fixes P :: pkgs
  assumes own_run: "\<exists>r'. p_own_run P suite r = Inr r' \<and> runKey r' = runKey r"
begin

lemma create_run:
  obtains run t where "createRun K P suite name s = (Inr run, t)"
    "look (world t) = (look (world s))((suite_Namespace suite, name) \<mapsto> run)"
    "look (world s) (suite_Namespace suite, name) = None \<or> look (world s) (suite_Namespace suite, name) = Some run"
proof -
  let ?k = "(suite_Namespace suite, name)"
  obtain r0 where own: "p_own_run P suite (newRun suite name) = Inr r0" "runKey r0 = ?k"
    using own_run [of suite "newRun suite name"] by (auto simp: runKey_def newRun_def meta_key_def)
  show thesis
  proof (cases "look (world s) ?k")
    case None
    with own(2) create_fresh [of "world s" r0] obtain run w where
      c: "k_create_run K r0 (world s) = (Inr run, w)" "look w = (look (world s))(?k \<mapsto> run)" by auto
    let ?t = "s\<lparr>world := w, acts := acts s @ [Req (CreateRun r0)]\<rparr>"
    have "perform (Req (CreateRun r0)) (k_create_run K r0) s = (Inr run, ?t)" using c(1) by (rule perform_eq)
    then show thesis using own None c(2) by (intro that [of run ?t]) (simp_all add: createRun_def)
  next
    case (Some run)
    with own(2) create_existing [of "world s" r0]
    have c: "k_create_run K r0 (world s) = (Inl AlreadyExists, world s)" by simp
    let ?u = "s\<lparr>world := world s, acts := acts s @ [Req (CreateRun r0)]\<rparr>"
    have p: "perform (Req (CreateRun r0)) (k_create_run K r0) s = (Inl AlreadyExists, ?u)" using c by (rule perform_eq)
    let ?t = "?u\<lparr>world := world ?u, acts := acts ?u @ [Req (GetRun ?k)]\<rparr>"
    have "perform (Req (GetRun ?k)) (k_get_run K ?k) ?u = (Inr run, ?t)"
      by (rule perform_eq) (simp add: get_look Some)
    then show thesis using own p Some
      by (intro that [of run ?t]) (simp_all add: createRun_def runKey_def fun_upd_idem)
  qed
qed

text \<open>Creating again returns the same run and changes nothing.\<close>

lemma create_again:
  assumes "createRun K P suite name s = (Inr run, t)"
    and "look (world u) (suite_Namespace suite, name) = look (world t) (suite_Namespace suite, name)"
  shows "fst (createRun K P suite name u) = Inr run"
    and "look (world (snd (createRun K P suite name u))) = look (world u)"
proof -
  let ?k = "(suite_Namespace suite, name)"
  have "look (world t) ?k = Some run"
    by (rule create_run [of suite name s]) (use assms(1) in simp)
  then have u: "look (world u) ?k = Some run" using assms(2) by simp
  show "fst (createRun K P suite name u) = Inr run"
    by (rule create_run [of suite name u]) (use u in auto)
  show "look (world (snd (createRun K P suite name u))) = look (world u)"
    by (rule create_run [of suite name u]) (use u in \<open>auto simp: fun_upd_idem\<close>)
qed

end

section \<open>Which runs a pass creates\<close>

fun created :: "action list \<Rightarrow> CheckRun list" where
  "created [] = []"
| "created (Req (CreateRun run) # as) = run # created as"
| "created (_ # as) = created as"

lemma created_append [simp]: "created (as @ bs) = created as @ created bs"
  by (induction as rule: created.induct) simp_all

text \<open>\<open>creates runs s t\<close>: between the contexts exactly these creations were requested.\<close>

definition creates :: "CheckRun list \<Rightarrow> 'w ctx \<Rightarrow> 'w ctx \<Rightarrow> bool" where
  "creates runs s t \<longleftrightarrow> (\<exists>new. acts t = acts s @ new \<and> created new = runs)"

fun noCreate :: "action \<Rightarrow> bool" where
  "noCreate (Req (CreateRun run)) \<longleftrightarrow> False"
| "noCreate _ \<longleftrightarrow> True"

lemma created_none: "list_all noCreate as \<Longrightarrow> created as = []"
  by (induction as rule: created.induct) simp_all

lemma creates_none: "issues noCreate s t \<Longrightarrow> creates [] s t"
  by (auto simp: issues_def creates_def created_none)

lemma creates_trans: "creates xs s t \<Longrightarrow> creates ys t u \<Longrightarrow> creates (xs @ ys) s u"
  by (auto simp: creates_def)

lemma creates_then_none: "creates xs s t \<Longrightarrow> issues noCreate t u \<Longrightarrow> creates xs s u"
  using creates_trans [OF _ creates_none] by simp

lemma none_then_creates: "issues noCreate s t \<Longrightarrow> creates xs t u \<Longrightarrow> creates xs s u"
  using creates_trans [OF creates_none] by simp

lemma createRun_creates:
  assumes "createRun K P suite name s = (Inr run, t)"
  obtains run0 where "p_own_run P suite (newRun suite name) = Inr run0" "creates [run0] s t"
proof (cases "p_own_run P suite (newRun suite name)")
  case (Inl e)
  then show thesis using assms by (simp add: createRun_def)
next
  case (Inr run0)
  obtain q s1 where p: "perform (Req (CreateRun run0)) (k_create_run K run0) s = (q, s1)" by fastforce
  obtain g s2 where h: "perform (Req (GetRun (meta_key (run_Meta run0)))) (k_get_run K (meta_key (run_Meta run0))) s1 = (g, s2)"
    by fastforce
  have c: "creates [run0] s s1" using acts_perform [OF p] by (simp add: creates_def)
  moreover have "issues noCreate s1 s2" by (rule issues_perform [OF h]) simp_all
  ultimately have "creates [run0] s s2" by (rule creates_then_none)
  then show thesis using that [OF Inr] c assms p h Inr
    by (auto simp: createRun_def Let_def split: sum.splits api_error.splits)
qed

lemma deleteRuns_noCreate: "issues noCreate s (snd (deleteRuns K runs s))"
  by (rule issues_mono [OF deleteRuns_issues]) auto

section \<open>One tick\<close>

definition startingDeadline :: "CheckSuite \<Rightarrow> duration" where
  "startingDeadline suite = deref (ss_StartingDeadline (suite_Spec suite)) defaultStartingDeadline"

text \<open>A tick is fired when it is fresh and the policy lets it.\<close>

definition fires :: "CheckSuite \<Rightarrow> CheckRun list \<Rightarrow> time \<Rightarrow> time \<Rightarrow> bool" where
  "fires suite active now tick \<longleftrightarrow> time_sub now tick \<le> startingDeadline suite
     \<and> \<not> (ss_ConcurrencyPolicy (suite_Spec suite) = ForbidConcurrent \<and> active \<noteq> [])"

lemma fireTick_status:
  "fireTick K P suite active now tick status s = (Inr status', t) \<Longrightarrow>
   sst_LastScheduleTime status' = Some tick \<and> sst_LastManualTrigger status' = sst_LastManualTrigger status
     \<and> sst_Conditions status' = sst_Conditions status"
  by (auto simp: fireTick_def Let_def split: if_splits prod.splits option.splits sum.splits)

lemma fireTick_held:
  assumes "\<not> fires suite active now tick"
  shows "\<exists>t. fireTick K P suite active now tick status s = (Inr (status\<lparr>sst_LastScheduleTime := Some tick\<rparr>), t)
     \<and> issues noCreate s t"
  using assms by (auto simp: fireTick_def fires_def startingDeadline_def Let_def suiteEvent_def intro!: issues_emit)

lemma fireTick_fires:
  assumes "fires suite active now tick"
  shows "fireTick K P suite active now tick status s =
     (case (if ss_ConcurrencyPolicy (suite_Spec suite) = ReplaceConcurrent then deleteRuns K active s else (None, s)) of
        (Some e, s1) \<Rightarrow> (Inl e, s1)
      | (None, s1) \<Rightarrow>
          (case createRun K P suite (scheduledRunName suite tick) s1 of
             (Inl e, s2) \<Rightarrow> (Inl e, s2)
           | (Inr run, s2) \<Rightarrow>
               (Inr (status\<lparr>sst_LastScheduleTime := Some tick, sst_Active := sst_Active status @ [runRef run]\<rparr>), s2)))"
  using assms by (auto simp: fireTick_def fires_def startingDeadline_def Let_def)

lemma fireTick_creates:
  assumes "fireTick K P suite active now tick status s = (Inr status', t)" and "fires suite active now tick"
  obtains run0 where "p_own_run P suite (newRun suite (scheduledRunName suite tick)) = Inr run0" "creates [run0] s t"
proof -
  let ?d = "if ss_ConcurrencyPolicy (suite_Spec suite) = ReplaceConcurrent then deleteRuns K active s else (None, s)"
  obtain q s1 where d: "?d = (q, s1)" by fastforce
  have n: "issues noCreate s s1" using d deleteRuns_noCreate [of s K active] by (auto split: if_splits)
  obtain c s2 where c: "createRun K P suite (scheduledRunName suite tick) s1 = (c, s2)" by fastforce
  have "q = None" and "t = s2" and "\<exists>run. c = Inr run"
    using assms(1) d c by (auto simp: fireTick_fires [OF assms(2)] split: option.splits sum.splits)
  then obtain run0 where "p_own_run P suite (newRun suite (scheduledRunName suite tick)) = Inr run0" "creates [run0] s1 t"
    using createRun_creates c by metis
  then show thesis using that none_then_creates [OF n] by blast
qed

text \<open>With the policy Replace the active runs are deleted before the new one is created.\<close>

lemma fireTick_replaces:
  assumes "fireTick K P suite active now tick status s = (Inr status', t)" and "fires suite active now tick"
    and "ss_ConcurrencyPolicy (suite_Spec suite) = ReplaceConcurrent"
  shows "\<exists>new. acts t = acts s @ map (\<lambda>run. Req (DeleteRun (runKey run))) active @ new
     \<and> list_all (createAction P suite (scheduledRunName suite tick)) new"
proof -
  obtain q s1 where d: "deleteRuns K active s = (q, s1)" by fastforce
  obtain c s2 where c: "createRun K P suite (scheduledRunName suite tick) s1 = (c, s2)" by fastforce
  have "q = None" and t: "t = s2"
    using assms d c by (auto simp: fireTick_fires [OF assms(2)] split: option.splits sum.splits)
  with d have "acts s1 = acts s @ map (\<lambda>run. Req (DeleteRun (runKey run))) active" by (simp add: deleteRuns_all)
  then show ?thesis using createRun_issues [of P suite "scheduledRunName suite tick" s1 K] c t
    by (auto simp: issues_def)
qed

fun tickAction :: "pkgs \<Rightarrow> CheckSuite \<Rightarrow> CheckRun list \<Rightarrow> time \<Rightarrow> action \<Rightarrow> bool" where
  "tickAction P suite active tick (Req (DeleteRun key)) \<longleftrightarrow>
     ss_ConcurrencyPolicy (suite_Spec suite) = ReplaceConcurrent \<and> key \<in> runKey ` set active"
| "tickAction P suite active tick (Ev e) \<longleftrightarrow> ev_Regarding e = meta_key (suite_Meta suite)"
| "tickAction P suite active tick a \<longleftrightarrow> createAction P suite (scheduledRunName suite tick) a"

lemma create_tickAction: "createAction P suite (scheduledRunName suite tick) a \<Longrightarrow> tickAction P suite active tick a"
  by (cases "(P, suite, scheduledRunName suite tick, a)" rule: createAction.cases) auto

lemma fireTick_issues: "issues (tickAction P suite active tick) s (snd (fireTick K P suite active now tick status s))"
proof (cases "fires suite active now tick")
  case False
  then show ?thesis
    by (auto simp: fireTick_def fires_def startingDeadline_def Let_def suiteEvent_def intro!: issues_emit)
next
  case True
  let ?d = "if ss_ConcurrencyPolicy (suite_Spec suite) = ReplaceConcurrent then deleteRuns K active s else (None, s)"
  obtain q s1 where d: "?d = (q, s1)" by fastforce
  obtain c s2 where c: "createRun K P suite (scheduledRunName suite tick) s1 = (c, s2)" by fastforce
  have i1: "issues (tickAction P suite active tick) s s1"
  proof (cases "ss_ConcurrencyPolicy (suite_Spec suite) = ReplaceConcurrent")
    case True
    have "issues (tickAction P suite active tick) s (snd (deleteRuns K active s))"
      by (rule issues_mono [OF deleteRuns_issues]) (use True in auto)
    then show ?thesis using d True by simp
  qed (use d in simp)
  have "issues (tickAction P suite active tick) s1 s2"
    using createRun_issues [of P suite "scheduledRunName suite tick" s1 K] c
    by (auto elim: issues_mono intro: create_tickAction)
  with i1 have "issues (tickAction P suite active tick) s s2" by (rule issues_trans)
  then show ?thesis using True d c i1
    by (auto simp: fireTick_fires [OF True] split: option.split sum.split)
qed

section \<open>The schedule\<close>

text \<open>The tick a pass has to handle.\<close>

definition dueTick :: "pkgs \<Rightarrow> CheckSuite \<Rightarrow> time \<Rightarrow> CheckSuiteStatus \<Rightarrow> time option" where
  "dueTick P suite now status =
     (case (if deref (ss_Suspend (suite_Spec suite)) False then None else ss_Schedule (suite_Spec suite)) of
        None \<Rightarrow> None
      | Some text \<Rightarrow>
          (case p_parse_cron P text of
             Inl _ \<Rightarrow> None
           | Inr nxt \<Rightarrow> fst (mostRecentScheduleTime nxt
               (deref (sst_LastScheduleTime status) (om_CreationTimestamp (suite_Meta suite))) now)))"

text \<open>The delay after which a pass that fails nowhere asks to be called again.\<close>

definition requeueDelay :: "pkgs \<Rightarrow> CheckSuite \<Rightarrow> time \<Rightarrow> CheckSuiteStatus \<Rightarrow> duration" where
  "requeueDelay P suite now status =
     (case (if deref (ss_Suspend (suite_Spec suite)) False then None else ss_Schedule (suite_Spec suite)) of
        None \<Rightarrow> 0
      | Some text \<Rightarrow>
          (case p_parse_cron P text of
             Inl _ \<Rightarrow> 0
           | Inr nxt \<Rightarrow> time_sub (fst (snd (mostRecentScheduleTime nxt
               (deref (sst_LastScheduleTime status) (om_CreationTimestamp (suite_Meta suite))) now))) now))"

definition updates :: "CheckSuite \<Rightarrow> CheckSuiteStatus \<Rightarrow> action" where
  "updates suite status = Req (UpdateSuiteStatus (suite\<lparr>suite_Status := status\<rparr>))"

lemma done_with_updateStatus:
  assumes "done_with (updateStatus K suite status s) d = (r, t)"
  shows "acts t = acts s @ [updates suite status] \<and> (\<forall>d'. r = Inr d' \<longrightarrow> d' = d)"
  using assms by (auto simp: done_with_def updateStatus_def updates_def Let_def
      split: prod.splits option.splits dest: acts_perform)

text \<open>
  The handler, seen from outside: some events about the suite, then the tick if there is one,
  then, unless the tick failed, one update of the status.
\<close>

definition tickThenUpdate :: "'w kube \<Rightarrow> pkgs \<Rightarrow> CheckSuite \<Rightarrow> CheckRun list \<Rightarrow> time \<Rightarrow> CheckSuiteStatus \<Rightarrow>
    'w ctx \<Rightarrow> (api_error + duration) \<times> 'w ctx \<Rightarrow> bool" where
  "tickThenUpdate K P suite active now status s out \<longleftrightarrow> (\<exists>status1 s1.
     issues (\<lambda>a. \<exists>e. a = Ev e \<and> ev_Regarding e = meta_key (suite_Meta suite)) s s1
     \<and> sst_LastScheduleTime status1 = sst_LastScheduleTime status
     \<and> sst_LastManualTrigger status1 = sst_LastManualTrigger status
     \<and> (case dueTick P suite now status of
          None \<Rightarrow> acts (snd out) = acts s1 @ [updates suite status1]
        | Some tick \<Rightarrow>
            (case fireTick K P suite active now tick status1 s1 of
               (Inl e, s2) \<Rightarrow> out = (Inl e, s2)
             | (Inr status2, s2) \<Rightarrow> acts (snd out) = acts s2 @ [updates suite status2])))"

text \<open>The condition about the schedule, if there is one in force.\<close>

definition scheduleNote :: "pkgs \<Rightarrow> CheckSuite \<Rightarrow> Condition option" where
  "scheduleNote P suite =
     (case (if deref (ss_Suspend (suite_Spec suite)) False then None else ss_Schedule (suite_Spec suite)) of
        None \<Rightarrow> None
      | Some cron \<Rightarrow>
          (case p_parse_cron P cron of
             Inl err \<Rightarrow> Some (scheduleCondition suite ConditionFalse ''ParseError''
               (Sprintf ''invalid schedule %q: %v'' [AStr cron, AErr err]))
           | Inr nxt \<Rightarrow> Some (scheduleCondition suite ConditionTrue ''Parsed''
               (Sprintf ''schedule parsed successfully'' []))))"

definition noteSchedule :: "pkgs \<Rightarrow> CheckSuite \<Rightarrow> CheckSuiteStatus \<Rightarrow> CheckSuiteStatus" where
  "noteSchedule P suite status =
     (case scheduleNote P suite of None \<Rightarrow> status | Some c \<Rightarrow> setCondition P c status)"

lemma noteSchedule_simps [simp]:
  "sst_ObservedGeneration (noteSchedule P suite status) = sst_ObservedGeneration status"
  "sst_LastScheduleTime (noteSchedule P suite status) = sst_LastScheduleTime status"
  "sst_LastManualTrigger (noteSchedule P suite status) = sst_LastManualTrigger status"
  "sst_Active (noteSchedule P suite status) = sst_Active status"
  by (simp_all add: noteSchedule_def setCondition_def split: option.split)

text \<open>The schedule with its condition: at most one event before the tick.\<close>

lemma handleSchedule_noted:
  obtains s1 where "world s1 = world s"
    "issues (\<lambda>a. \<exists>e. a = Ev e \<and> ev_Regarding e = meta_key (suite_Meta suite)) s s1"
    "handleSchedule K P suite active now status s =
      (case (case dueTick P suite now status of None \<Rightarrow> (Inr (noteSchedule P suite status), s1)
         | Some tick \<Rightarrow> fireTick K P suite active now tick (noteSchedule P suite status) s1) of
         (Inl e, s2) \<Rightarrow> (Inl e, s2)
       | (Inr status2, s2) \<Rightarrow> done_with (updateStatus K suite status2 s2) (requeueDelay P suite now status))"
proof (cases "if deref (ss_Suspend (suite_Spec suite)) False then None else ss_Schedule (suite_Spec suite)")
  case None
  then show thesis
    by (intro that [of s]) (simp_all add: handleSchedule_def dueTick_def requeueDelay_def noteSchedule_def scheduleNote_def)
next
  case (Some cron)
  show thesis
  proof (cases "p_parse_cron P cron")
    case (Inl err)
    show thesis
      by (rule that [of "emit (suiteEvent suite ''Warning'' ''InvalidSchedule''
            (Sprintf ''cannot parse schedule %q: %v'' [AStr cron, AErr err])) s"])
        (simp_all add: handleSchedule_def dueTick_def requeueDelay_def noteSchedule_def scheduleNote_def Some Inl
          suiteEvent_def issues_emit)
  next
    case (Inr nxt)
    define status1 where "status1 = setCondition P (scheduleCondition suite ConditionTrue ''Parsed''
      (Sprintf ''schedule parsed successfully'' [])) status"
    have last: "sst_LastScheduleTime status1 = sst_LastScheduleTime status" by (simp add: status1_def setCondition_def)
    have noted: "noteSchedule P suite status = status1"
      by (simp add: noteSchedule_def scheduleNote_def Some Inr status1_def)
    obtain lm nx many where mr: "mostRecentScheduleTime nxt
        (deref (sst_LastScheduleTime status) (om_CreationTimestamp (suite_Meta suite))) now = (lm, nx, many)"
      by (rule prod_cases3)
    define s1 where "s1 = (if many then emit (suiteEvent suite ''Warning'' ''TooManyMissedRuns''
      (Sprintf ''too many missed scheduled ticks; check clock skew or schedule frequency'' [])) s else s)"
    have due: "dueTick P suite now status = lm" "requeueDelay P suite now status = time_sub nx now"
      by (simp_all add: dueTick_def requeueDelay_def Some Inr mr)
    show thesis
    proof (rule that [of s1], unfold due noted)
      show "world s1 = world s" by (simp add: s1_def)
      show "issues (\<lambda>a. \<exists>e. a = Ev e \<and> ev_Regarding e = meta_key (suite_Meta suite)) s s1"
        by (auto simp: s1_def suiteEvent_def intro!: issues_emit)
    qed (simp only: handleSchedule_def Some Inr option.case sum.case Let_def status1_def [symmetric] last mr
        prod.case s1_def)
  qed
qed

text \<open>
  The one form the three outcomes of the parse share: a status with the same times, triggers and
  active runs, nothing but events about the suite, then the due tick and the update.
\<close>

lemma handleSchedule_form:
  obtains status1 s1 d where "world s1 = world s"
    "issues (\<lambda>a. \<exists>e. a = Ev e \<and> ev_Regarding e = meta_key (suite_Meta suite)) s s1"
    "sst_LastScheduleTime status1 = sst_LastScheduleTime status"
    "sst_LastManualTrigger status1 = sst_LastManualTrigger status" "sst_Active status1 = sst_Active status"
    "sst_ObservedGeneration status1 = sst_ObservedGeneration status" "d = requeueDelay P suite now status"
    "handleSchedule K P suite active now status s =
      (case (case dueTick P suite now status of None \<Rightarrow> (Inr status1, s1)
         | Some tick \<Rightarrow> fireTick K P suite active now tick status1 s1) of
         (Inl e, s2) \<Rightarrow> (Inl e, s2)
       | (Inr status2, s2) \<Rightarrow> done_with (updateStatus K suite status2 s2) d)"
  by (rule handleSchedule_noted [of s suite K P active now status]) (rule that; simp)

lemma handleSchedule_cases: "tickThenUpdate K P suite active now status s (handleSchedule K P suite active now status s)"
proof -
  have upd: "acts (snd (done_with (updateStatus K suite st u) d)) = acts u @ [updates suite st]" for st u d
    using done_with_updateStatus by (metis prod.collapse)
  obtain status1 s1 d where *: "issues (\<lambda>a. \<exists>e. a = Ev e \<and> ev_Regarding e = meta_key (suite_Meta suite)) s s1"
    "sst_LastScheduleTime status1 = sst_LastScheduleTime status"
    "sst_LastManualTrigger status1 = sst_LastManualTrigger status"
    "handleSchedule K P suite active now status s =
      (case (case dueTick P suite now status of None \<Rightarrow> (Inr status1, s1)
         | Some tick \<Rightarrow> fireTick K P suite active now tick status1 s1) of
         (Inl e, s2) \<Rightarrow> (Inl e, s2)
       | (Inr status2, s2) \<Rightarrow> done_with (updateStatus K suite status2 s2) d)"
    by (rule handleSchedule_form [of s suite status P now K active])
  show ?thesis unfolding tickThenUpdate_def *(4)
    by (intro exI [of _ status1] exI [of _ s1]) (simp add: * upd split: option.split prod.split sum.split)
qed

section \<open>What a pass over the schedule does\<close>

lemma event_noCreate: "issues (\<lambda>a. \<exists>e. a = Ev e \<and> ev_Regarding e = k) s t \<Longrightarrow> issues noCreate s t"
  by (erule issues_mono) auto

lemma updates_creates: "acts t = acts s @ [updates suite st] \<Longrightarrow> issues noCreate s t"
  by (simp add: issues_def updates_def)

text \<open>A pass that succeeds has created the run of the due tick, if that fires, and no other run.\<close>

lemma handleSchedule_creates:
  assumes "handleSchedule K P suite active now status s = (Inr d, t)"
    and "\<And>tick. dueTick P suite now status = Some tick \<Longrightarrow> fires suite active now tick \<Longrightarrow>
      p_own_run P suite (newRun suite (scheduledRunName suite tick)) = Inr (run0 tick)"
  shows "creates (case dueTick P suite now status of
      Some tick \<Rightarrow> if fires suite active now tick then [run0 tick] else [] | None \<Rightarrow> []) s t"
proof -
  from handleSchedule_cases [of K P suite active now status s] obtain status1 s1 where
    ev: "issues noCreate s s1" and step: "case dueTick P suite now status of
          None \<Rightarrow> acts t = acts s1 @ [updates suite status1]
        | Some tick \<Rightarrow>
            (case fireTick K P suite active now tick status1 s1 of
               (Inl e, s2) \<Rightarrow> (Inr d, t) = (Inl e, s2)
             | (Inr status2, s2) \<Rightarrow> acts t = acts s2 @ [updates suite status2])"
    unfolding tickThenUpdate_def assms(1) snd_conv by (blast intro: event_noCreate)
  show ?thesis
  proof (cases "dueTick P suite now status")
    case None
    then have "issues noCreate s1 t" using step by (simp add: updates_creates)
    with ev have "issues noCreate s t" by (rule issues_trans)
    then show ?thesis using None by (simp add: creates_none)
  next
    case (Some tick)
    obtain q s2 where f: "fireTick K P suite active now tick status1 s1 = (q, s2)" by fastforce
    with step Some obtain status2 where q: "q = Inr status2" and u: "acts t = acts s2 @ [updates suite status2]"
      by (cases q) auto
    have "creates (if fires suite active now tick then [run0 tick] else []) s1 s2"
    proof (cases "fires suite active now tick")
      case True
      show ?thesis
        by (rule fireTick_creates [OF f [unfolded q] True]) (use assms(2) [OF Some True] True in simp)
    next
      case False
      then show ?thesis using fireTick_held [OF False, of K P status1 s1] f creates_none by auto
    qed
    then show ?thesis
      using Some none_then_creates [OF ev] creates_then_none updates_creates [OF u] by fastforce
  qed
qed

text \<open>The status it writes has the due tick as the last schedule time.\<close>

lemma handleSchedule_update:
  assumes "handleSchedule K P suite active now status s = (Inr d, t)"
  obtains before status' where "acts t = acts s @ before @ [updates suite status']"
    "sst_LastScheduleTime status' = (case dueTick P suite now status of
       Some tick \<Rightarrow> Some tick | None \<Rightarrow> sst_LastScheduleTime status)"
    "sst_LastManualTrigger status' = sst_LastManualTrigger status"
proof -
  from handleSchedule_cases [of K P suite active now status s] obtain status1 s1 where
    ev: "issues (\<lambda>a. \<exists>e. a = Ev e \<and> ev_Regarding e = meta_key (suite_Meta suite)) s s1"
    and st: "sst_LastScheduleTime status1 = sst_LastScheduleTime status"
      "sst_LastManualTrigger status1 = sst_LastManualTrigger status"
    and step: "case dueTick P suite now status of
          None \<Rightarrow> acts t = acts s1 @ [updates suite status1]
        | Some tick \<Rightarrow>
            (case fireTick K P suite active now tick status1 s1 of
               (Inl e, s2) \<Rightarrow> (Inr d, t) = (Inl e, s2)
             | (Inr status2, s2) \<Rightarrow> acts t = acts s2 @ [updates suite status2])"
    unfolding tickThenUpdate_def assms(1) snd_conv by blast
  obtain ev' where ev': "acts s1 = acts s @ ev'" using ev by (auto simp: issues_def)
  show thesis
  proof (cases "dueTick P suite now status")
    case None
    then show thesis using step st ev' by (intro that [of ev' status1]) simp_all
  next
    case (Some tick)
    obtain q s2 where f: "fireTick K P suite active now tick status1 s1 = (q, s2)" by fastforce
    with step Some obtain status2 where q: "q = Inr status2" and u: "acts t = acts s2 @ [updates suite status2]"
      by (cases q) auto
    obtain new where "acts s2 = acts s1 @ new"
      using fireTick_issues [of P suite active tick s1 K now status1] f by (auto simp: issues_def)
    then show thesis using u ev' Some st fireTick_status [OF f [unfolded q]]
      by (intro that [of "ev' @ new" status2]) simp_all
  qed
qed

section \<open>The whole pass\<close>

definition runNow :: "CheckSuite \<Rightarrow> string" where
  "runNow suite = deref (om_Annotations (suite_Meta suite) RunNowAnnotation) ''''"

definition triggered :: "CheckSuite \<Rightarrow> bool" where
  "triggered suite \<longleftrightarrow> runNow suite \<noteq> '''' \<and> runNow suite \<noteq> sst_LastManualTrigger (suite_Status suite)"

definition suiteRuns :: "pkgs \<Rightarrow> CheckSuite \<Rightarrow> CheckRun list \<Rightarrow> CheckRun list" where
  "suiteRuns P suite items = filter (\<lambda>run. p_controlled_by P run suite) items"

definition activeRuns :: "pkgs \<Rightarrow> CheckSuite \<Rightarrow> CheckRun list \<Rightarrow> CheckRun list" where
  "activeRuns P suite items = filter isActive (suiteRuns P suite items)"

definition startStatus :: "pkgs \<Rightarrow> CheckSuite \<Rightarrow> CheckRun list \<Rightarrow> CheckSuiteStatus" where
  "startStatus P suite items = (suite_Status suite)
     \<lparr>sst_ObservedGeneration := om_Generation (suite_Meta suite),
      sst_Active := activeRefs (activeRuns P suite items)\<rparr>"

text \<open>What follows the reads: the history, the annotation, the schedule.\<close>

definition suitePass :: "'w kube \<Rightarrow> pkgs \<Rightarrow> CheckSuite \<Rightarrow> time \<Rightarrow> CheckRun list \<Rightarrow> 'w ctx \<Rightarrow>
    (api_error + duration) \<times> 'w ctx" where
  "suitePass K P suite now items s =
     (let succeeded = filter (\<lambda>run. run_Phase run = CheckRunSucceeded) (suiteRuns P suite items);
          failed = filter (\<lambda>run. run_Phase run = CheckRunFailed \<or> run_Phase run = CheckRunError) (suiteRuns P suite items);
          limits = historyLimits (ss_HistoryLimit (suite_Spec suite)) in
      case gcRuns K P succeeded (fst limits) s of
        (Some e, s1) \<Rightarrow> (Inl e, s1)
      | (None, s1) \<Rightarrow>
          (case gcRuns K P failed (snd limits) s1 of
             (Some e, s2) \<Rightarrow> (Inl e, s2)
           | (None, s2) \<Rightarrow>
               (case manualTrigger K P suite (startStatus P suite items) s2 of
                  (Inl e, s3) \<Rightarrow> (Inl e, s3)
                | (Inr status, s3) \<Rightarrow> handleSchedule K P suite (activeRuns P suite items) now status s3)))"

definition listSelector :: "CheckSuite \<Rightarrow> string \<times> string" where
  "listSelector suite = (labelSuite, label63 (suite_Name suite))"

lemma Suite_Reconcile_eq:
  assumes "perform (Req (GetSuite req)) (k_get_suite K req) s = (Inr suite, s1)"
    and "perform (Req (ListRuns (suite_Namespace suite) (listSelector suite)))
      (k_list_runs K (suite_Namespace suite) (listSelector suite)) s1 = (Inr items, s2)"
  shows "CheckSuite_Reconcile K P req s = suitePass K P suite (k_now K (world s1)) items s2"
  using assms unfolding CheckSuite_Reconcile_def suitePass_def Let_def listSelector_def
    suiteRuns_def activeRuns_def startStatus_def by simp

text \<open>A pass over a suite that both reads found.\<close>

lemma reconcile_pass:
  assumes "k_get_suite K req (world s) = (Inr suite, w)"
    and "k_list_runs K (suite_Namespace suite) (listSelector suite) w = (Inr items, w')"
  obtains s2 where "world s2 = w'"
    "acts s2 = acts s @ [Req (GetSuite req), Req (ListRuns (suite_Namespace suite) (listSelector suite))]"
    "CheckSuite_Reconcile K P req s = suitePass K P suite (k_now K w) items s2"
proof -
  let ?s1 = "s\<lparr>world := w, acts := acts s @ [Req (GetSuite req)]\<rparr>"
  let ?l = "Req (ListRuns (suite_Namespace suite) (listSelector suite))"
  let ?s2 = "?s1\<lparr>world := w', acts := acts ?s1 @ [?l]\<rparr>"
  have l: "perform ?l (k_list_runs K (suite_Namespace suite) (listSelector suite)) ?s1 = (Inr items, ?s2)"
    by (rule perform_eq) (simp add: assms(2))
  show thesis
    using Suite_Reconcile_eq [OF perform_eq [of "k_get_suite K req", OF assms(1)] l, of P]
    by (intro that [of ?s2]) simp_all
qed

lemma startStatus_simps [simp]:
  "sst_LastManualTrigger (startStatus P suite items) = sst_LastManualTrigger (suite_Status suite)"
  "sst_LastScheduleTime (startStatus P suite items) = sst_LastScheduleTime (suite_Status suite)"
  by (simp_all add: startStatus_def)

lemma manualTrigger_eq:
  "manualTrigger K P suite (startStatus P suite items) s =
     (if triggered suite
      then (case createRun K P suite (manualRunName suite (runNow suite)) s of
           (Inl e, s1) \<Rightarrow> (Inl e, s1)
         | (Inr run, s1) \<Rightarrow>
             (Inr ((startStatus P suite items)\<lparr>sst_LastManualTrigger := runNow suite,
                sst_Active := sst_Active (startStatus P suite items) @ [runRef run]\<rparr>),
              emit (suiteEvent suite ''Normal'' ''ManualRunCreated''
                (Sprintf ''created CheckRun %s from %s annotation''
                   [AStr (manualRunName suite (runNow suite)), AStr RunNowAnnotation])) s1))
      else (Inr (startStatus P suite items), s))"
  unfolding manualTrigger_def triggered_def runNow_def Let_def by simp

lemma manualTrigger_creates:
  assumes "manualTrigger K P suite (startStatus P suite items) s = (Inr status, t)"
    and "\<And>name. p_own_run P suite (newRun suite name) = Inr (own name)"
  shows "creates (if triggered suite then [own (manualRunName suite (runNow suite))] else []) s t"
    and "sst_LastScheduleTime status = sst_LastScheduleTime (suite_Status suite)"
    and "sst_LastManualTrigger status =
      (if triggered suite then runNow suite else sst_LastManualTrigger (suite_Status suite))"
proof -
  have "creates (if triggered suite then [own (manualRunName suite (runNow suite))] else []) s t
    \<and> sst_LastScheduleTime status = sst_LastScheduleTime (suite_Status suite)
    \<and> sst_LastManualTrigger status =
      (if triggered suite then runNow suite else sst_LastManualTrigger (suite_Status suite))"
  proof (cases "triggered suite")
    case False
    then show ?thesis using assms(1) by (auto simp: manualTrigger_eq creates_def)
  next
    case True
    obtain c s1 where c: "createRun K P suite (manualRunName suite (runNow suite)) s = (c, s1)" by fastforce
    with assms(1) True obtain run where run: "c = Inr run" by (cases c) (auto simp: manualTrigger_eq)
    have "creates [own (manualRunName suite (runNow suite))] s s1"
      by (rule createRun_creates [OF c [unfolded run]]) (simp add: assms(2))
    moreover have "issues noCreate s1 t" and
      "sst_LastScheduleTime status = sst_LastScheduleTime (suite_Status suite)" "sst_LastManualTrigger status = runNow suite"
      using assms(1) True c run by (auto simp: manualTrigger_eq suiteEvent_def intro!: issues_emit)
    ultimately show ?thesis using True creates_then_none by simp
  qed
  then show "creates (if triggered suite then [own (manualRunName suite (runNow suite))] else []) s t"
    and "sst_LastScheduleTime status = sst_LastScheduleTime (suite_Status suite)"
    and "sst_LastManualTrigger status =
      (if triggered suite then runNow suite else sst_LastManualTrigger (suite_Status suite))" by simp_all
qed

lemma gcRuns_noCreate: "issues noCreate s (snd (gcRuns K P runs limit s))"
  by (rule issues_mono [OF gcRuns_issues]) auto

lemma dueTick_cong:
  "sst_LastScheduleTime status = sst_LastScheduleTime status' \<Longrightarrow> dueTick P suite now status = dueTick P suite now status'"
  unfolding dueTick_def by (simp only:)

text \<open>The runs a pass asks for.\<close>

definition wantedRuns :: "pkgs \<Rightarrow> CheckSuite \<Rightarrow> CheckRun list \<Rightarrow> time \<Rightarrow> string list" where
  "wantedRuns P suite items now =
     (if triggered suite then [manualRunName suite (runNow suite)] else [])
     @ (case dueTick P suite now (suite_Status suite) of
          None \<Rightarrow> []
        | Some tick \<Rightarrow>
            if fires suite (activeRuns P suite items) now tick then [scheduledRunName suite tick] else [])"

lemma suitePass_ok:
  assumes "suitePass K P suite now items s = (Inr d, t)"
  obtains s2 s3 status where "issues noCreate s s2"
    "manualTrigger K P suite (startStatus P suite items) s2 = (Inr status, s3)"
    "handleSchedule K P suite (activeRuns P suite items) now status s3 = (Inr d, t)"
proof -
  let ?succ = "filter (\<lambda>run. run_Phase run = CheckRunSucceeded) (suiteRuns P suite items)"
  let ?fail = "filter (\<lambda>run. run_Phase run = CheckRunFailed \<or> run_Phase run = CheckRunError) (suiteRuns P suite items)"
  let ?lim = "historyLimits (ss_HistoryLimit (suite_Spec suite))"
  obtain q1 s1 where g1: "gcRuns K P ?succ (fst ?lim) s = (q1, s1)" by fastforce
  obtain q2 s2 where g2: "gcRuns K P ?fail (snd ?lim) s1 = (q2, s2)" by fastforce
  obtain m s3 where m: "manualTrigger K P suite (startStatus P suite items) s2 = (m, s3)" by fastforce
  have q: "q1 = None" "q2 = None" using assms g1 g2 by (auto simp: suitePass_def Let_def split: option.splits)
  with assms g1 g2 m obtain status where st: "m = Inr status" by (cases m) (auto simp: suitePass_def Let_def)
  have "issues noCreate s s2"
    using gcRuns_noCreate [of s K P ?succ "fst ?lim"] gcRuns_noCreate [of s1 K P ?fail "snd ?lim"] g1 g2
    by (auto intro: issues_trans)
  moreover have "handleSchedule K P suite (activeRuns P suite items) now status s3 = (Inr d, t)"
    using assms g1 g2 m q st by (simp add: suitePass_def Let_def)
  ultimately show thesis using m st by (intro that) auto
qed

lemma suitePass_creates:
  assumes "suitePass K P suite now items s = (Inr d, t)"
    and own: "\<And>name. p_own_run P suite (newRun suite name) = Inr (own name)"
  shows "creates (map own (wantedRuns P suite items now)) s t"
proof -
  from suitePass_ok [OF assms(1)] obtain s2 s3 status where
    pre: "issues noCreate s s2" and m: "manualTrigger K P suite (startStatus P suite items) s2 = (Inr status, s3)"
    and h: "handleSchedule K P suite (activeRuns P suite items) now status s3 = (Inr d, t)" .
  have due: "dueTick P suite now status = dueTick P suite now (suite_Status suite)"
    by (rule dueTick_cong) (rule manualTrigger_creates(2) [OF m own])
  note c = creates_trans [OF none_then_creates [OF pre manualTrigger_creates(1) [OF m own]]
      handleSchedule_creates [OF h own]]
  then show ?thesis unfolding wantedRuns_def due
    by (auto split: option.splits if_splits)
qed

lemma suitePass_update:
  assumes "suitePass K P suite now items s = (Inr d, t)"
    and own: "\<And>name. p_own_run P suite (newRun suite name) = Inr (own name)"
  obtains before status' where "acts t = before @ [updates suite status']"
    "sst_LastScheduleTime status' = (case dueTick P suite now (suite_Status suite) of
       Some tick \<Rightarrow> Some tick | None \<Rightarrow> sst_LastScheduleTime (suite_Status suite))"
    "sst_LastManualTrigger status' =
       (if triggered suite then runNow suite else sst_LastManualTrigger (suite_Status suite))"
proof -
  from suitePass_ok [OF assms(1)] obtain s2 s3 status where
    m: "manualTrigger K P suite (startStatus P suite items) s2 = (Inr status, s3)"
    and h: "handleSchedule K P suite (activeRuns P suite items) now status s3 = (Inr d, t)" .
  note man = manualTrigger_creates(2,3) [OF m own]
  have due: "dueTick P suite now status = dueTick P suite now (suite_Status suite)"
    by (rule dueTick_cong) (rule man)
  from handleSchedule_update [OF h] obtain before status' where u: "acts t = acts s3 @ before @ [updates suite status']"
    "sst_LastScheduleTime status' = (case dueTick P suite now status of
       Some tick \<Rightarrow> Some tick | None \<Rightarrow> sst_LastScheduleTime status)"
    "sst_LastManualTrigger status' = sst_LastManualTrigger status" .
  show thesis
    by (rule that [of "acts s3 @ before" status']) (simp_all only: u due man append_assoc)
qed

text \<open>A pass succeeds only if the server has accepted the status it built.\<close>

lemma done_with_accepted:
  "done_with (updateStatus K suite status s) d = (Inr d', t) \<Longrightarrow>
   fst (k_update_suite_status K (suite\<lparr>suite_Status := status\<rparr>) (world s)) = None"
  using perform_result [of "Req (UpdateSuiteStatus (suite\<lparr>suite_Status := status\<rparr>))"
      "k_update_suite_status K (suite\<lparr>suite_Status := status\<rparr>)" s]
  by (auto simp: done_with_def updateStatus_def Let_def split: prod.splits option.splits)

lemma fireTick_active:
  "fireTick K P suite active now tick status s = (Inr status', t) \<Longrightarrow>
   length (sst_Active status) \<le> length (sst_Active status')"
  by (auto simp: fireTick_def Let_def split: if_splits prod.splits option.splits sum.splits)

lemma handleSchedule_accepted:
  assumes "handleSchedule K P suite active now status s = (Inr d, t)"
  shows "\<exists>status' w. fst (k_update_suite_status K (suite\<lparr>suite_Status := status'\<rparr>) w) = None
     \<and> sst_LastManualTrigger status' = sst_LastManualTrigger status
     \<and> length (sst_Active status) \<le> length (sst_Active status')"
proof -
  obtain status1 s1 d1 where st1: "sst_LastManualTrigger status1 = sst_LastManualTrigger status"
      "sst_Active status1 = sst_Active status"
    and form: "handleSchedule K P suite active now status s =
      (case (case dueTick P suite now status of None \<Rightarrow> (Inr status1, s1)
         | Some tick \<Rightarrow> fireTick K P suite active now tick status1 s1) of
         (Inl e, s2) \<Rightarrow> (Inl e, s2)
       | (Inr status2, s2) \<Rightarrow> done_with (updateStatus K suite status2 s2) d1)"
    by (rule handleSchedule_form [of s suite status P now K active])
  then obtain status2 s2 where o: "(case dueTick P suite now status of None \<Rightarrow> (Inr status1, s1)
      | Some tick \<Rightarrow> fireTick K P suite active now tick status1 s1) = (Inr status2, s2)"
    and upd: "done_with (updateStatus K suite status2 s2) d1 = (Inr d, t)"
    using assms by (auto split: prod.splits sum.splits)
  have "sst_LastManualTrigger status2 = sst_LastManualTrigger status
      \<and> length (sst_Active status) \<le> length (sst_Active status2)"
    using o st1 fireTick_status fireTick_active by (fastforce split: option.splits)
  with done_with_accepted [OF upd] show ?thesis by blast
qed

lemma suitePass_accepted:
  assumes "suitePass K P suite now items s = (Inr d, t)"
  shows "\<exists>status w. fst (k_update_suite_status K (suite\<lparr>suite_Status := status\<rparr>) w) = None
     \<and> (triggered suite \<longrightarrow> sst_LastManualTrigger status = runNow suite)
     \<and> length (activeRuns P suite items) \<le> length (sst_Active status)"
proof -
  from suitePass_ok [OF assms] obtain s2 s3 status where
    m: "manualTrigger K P suite (startStatus P suite items) s2 = (Inr status, s3)"
    and h: "handleSchedule K P suite (activeRuns P suite items) now status s3 = (Inr d, t)" .
  have "length (activeRuns P suite items) \<le> length (sst_Active status)"
    and "triggered suite \<longrightarrow> sst_LastManualTrigger status = runNow suite"
    using m unfolding manualTrigger_eq
    by (auto simp: startStatus_def activeRefs_def split: if_splits prod.splits sum.splits)
  with handleSchedule_accepted [OF h] show ?thesis by (metis order_trans)
qed

section \<open>What a pass may do\<close>

fun suiteAction :: "pkgs \<Rightarrow> CheckSuite \<Rightarrow> CheckRun list \<Rightarrow> action \<Rightarrow> bool" where
  "suiteAction P suite items (Req (DeleteRun key)) \<longleftrightarrow>
     (\<exists>run \<in> set (suiteRuns P suite items). key = runKey run
        \<and> (isActive run \<longrightarrow> ss_ConcurrencyPolicy (suite_Spec suite) = ReplaceConcurrent))"
| "suiteAction P suite items (Req (UpdateSuiteStatus x)) \<longleftrightarrow> (\<exists>st. x = suite\<lparr>suite_Status := st\<rparr>)"
| "suiteAction P suite items (Ev e) \<longleftrightarrow> ev_Regarding e = meta_key (suite_Meta suite)"
| "suiteAction P suite items a \<longleftrightarrow> (\<exists>name. createAction P suite name a)"

lemma create_suiteAction: "createAction P suite name a \<Longrightarrow> suiteAction P suite items a"
  by (cases "(P, suite, name, a)" rule: createAction.cases) auto

lemma tick_suiteAction: "tickAction P suite (activeRuns P suite items) tick a \<Longrightarrow> suiteAction P suite items a"
  by (cases "(P, suite, activeRuns P suite items, tick, a)" rule: tickAction.cases)
    (auto simp: activeRuns_def intro: create_suiteAction)

lemma gcRuns_suiteAction:
  assumes "run_sorter (p_sort_runs P)" and "set runs \<subseteq> set (suiteRuns P suite items)" and "\<forall>run \<in> set runs. \<not> isActive run"
  shows "issues (suiteAction P suite items) s (snd (gcRuns K P runs limit s))"
proof (rule issues_mono [OF gcRuns_issues])
  fix a assume "\<exists>run \<in> set (gcExcess P runs limit). a = Req (DeleteRun (runKey run))"
  then obtain run where "run \<in> set (gcExcess P runs limit)" and a: "a = Req (DeleteRun (runKey run))" by blast
  then have "run \<in> set runs"
    using run_sorter.sortr_set [OF assms(1), of runs] by (auto simp: gcExcess_def dest: in_set_takeD)
  then show "suiteAction P suite items a" using a assms(2,3) by auto
qed

lemma handleSchedule_suiteAction:
  "issues (suiteAction P suite items) s (snd (handleSchedule K P suite (activeRuns P suite items) now status s))"
proof -
  let ?out = "handleSchedule K P suite (activeRuns P suite items) now status s"
  from handleSchedule_cases [of K P suite "activeRuns P suite items" now status s] obtain status1 s1 where
    ev: "issues (\<lambda>a. \<exists>e. a = Ev e \<and> ev_Regarding e = meta_key (suite_Meta suite)) s s1"
    and step: "case dueTick P suite now status of
          None \<Rightarrow> acts (snd ?out) = acts s1 @ [updates suite status1]
        | Some tick \<Rightarrow>
            (case fireTick K P suite (activeRuns P suite items) now tick status1 s1 of
               (Inl e, s2) \<Rightarrow> ?out = (Inl e, s2)
             | (Inr status2, s2) \<Rightarrow> acts (snd ?out) = acts s2 @ [updates suite status2])"
    unfolding tickThenUpdate_def by blast
  have i1: "issues (suiteAction P suite items) s s1" by (rule issues_mono [OF ev]) auto
  have upd: "issues (suiteAction P suite items) s u" if "issues (suiteAction P suite items) s v"
    "acts u = acts v @ [updates suite st]" for u v :: "'a ctx" and st
    using that by (auto simp: issues_def updates_def)
  have tick: "issues (suiteAction P suite items) s (snd (fireTick K P suite (activeRuns P suite items) now tick status1 s1))" for tick
    by (rule issues_trans [OF i1]) (rule issues_mono [OF fireTick_issues], erule tick_suiteAction)
  show ?thesis
  proof (cases "dueTick P suite now status")
    case None
    then show ?thesis using step by (intro upd [OF i1]) simp
  next
    case (Some tk)
    obtain q s2 where f: "fireTick K P suite (activeRuns P suite items) now tk status1 s1 = (q, s2)" by fastforce
    then have "issues (suiteAction P suite items) s s2" using tick [of tk] by simp
    then show ?thesis using step Some f upd by (cases q) auto
  qed
qed

lemma suitePass_suiteAction:
  assumes "run_sorter (p_sort_runs P)"
  shows "issues (suiteAction P suite items) s (snd (suitePass K P suite now items s))"
proof -
  let ?A = "suiteAction P suite items"
  let ?succ = "filter (\<lambda>run. run_Phase run = CheckRunSucceeded) (suiteRuns P suite items)"
  let ?fail = "filter (\<lambda>run. run_Phase run = CheckRunFailed \<or> run_Phase run = CheckRunError) (suiteRuns P suite items)"
  let ?lim = "historyLimits (ss_HistoryLimit (suite_Spec suite))"
  obtain q1 s1 where g1: "gcRuns K P ?succ (fst ?lim) s = (q1, s1)" by fastforce
  obtain q2 s2 where g2: "gcRuns K P ?fail (snd ?lim) s1 = (q2, s2)" by fastforce
  obtain m s3 where m: "manualTrigger K P suite (startStatus P suite items) s2 = (m, s3)" by fastforce
  have i1: "issues ?A s s1"
    using gcRuns_suiteAction [OF assms, of ?succ suite items s K "fst ?lim"] g1 by (auto simp: isActive_def)
  have "issues ?A s1 s2"
    using gcRuns_suiteAction [OF assms, of ?fail suite items s1 K "snd ?lim"] g2 by (auto simp: isActive_def)
  with i1 have i2: "issues ?A s s2" by (rule issues_trans)
  have "issues ?A s2 (snd (createRun K P suite name s2))" for name
    by (rule issues_mono [OF createRun_issues]) (rule create_suiteAction)
  then have "issues ?A s2 s3" using m
    by (auto simp: manualTrigger_eq suiteEvent_def split: if_splits prod.splits sum.splits intro!: issues_emit) (metis snd_conv)+
  with i2 have i3: "issues ?A s s3" by (rule issues_trans)
  have i4: "issues ?A s (snd (handleSchedule K P suite (activeRuns P suite items) now status s3))" for status
    using i3 handleSchedule_suiteAction by (rule issues_trans)
  show ?thesis using g1 g2 m i1 i2 i3 i4
    by (simp add: suitePass_def Let_def split: option.split sum.split)
qed

section \<open>A server that answers\<close>

text \<open>A run store where deletes and status updates succeed, too: a pass over it succeeds.\<close>

locale suite_server = run_store look K P for look :: "'w \<Rightarrow> nkey \<Rightarrow> CheckRun option" and K :: "'w kube" and P +
  assumes delete_ok: "fst (k_delete_run K key w) \<in> {None, Some NotFound}"
    and update_ok: "fst (k_update_suite_status K suite w) = None"
begin

lemma updateStatus_ok: "fst (done_with (updateStatus K suite status s) d) = Inr d"
  using perform_result [of "Req (UpdateSuiteStatus (suite\<lparr>suite_Status := status\<rparr>))"
      "k_update_suite_status K (suite\<lparr>suite_Status := status\<rparr>)" s] update_ok
  by (simp add: done_with_def updateStatus_def Let_def split: prod.split option.split) (metis fst_conv option.distinct(1))

lemma createRun_ok: "\<exists>run. fst (createRun K P suite name s) = Inr run"
  by (rule create_run [of suite name s]) simp

lemma fireTick_ok: "\<exists>st. fst (fireTick K P suite active now tick status s) = Inr st"
proof (cases "fires suite active now tick")
  case False
  then show ?thesis using fireTick_held [OF False, of K P status s] by auto
next
  case True
  let ?d = "if ss_ConcurrencyPolicy (suite_Spec suite) = ReplaceConcurrent then deleteRuns K active s else (None, s)"
  obtain q s1 where d: "?d = (q, s1)" by fastforce
  have "fst (deleteRuns K active s) = None" using delete_ok by (rule deleteRuns_ok)
  then have "q = None" using d by (auto split: if_splits)
  moreover obtain run s2 where "createRun K P suite (scheduledRunName suite tick) s1 = (Inr run, s2)"
    using createRun_ok by (metis prod.collapse)
  ultimately show ?thesis using d by (simp add: fireTick_fires [OF True])
qed

lemma handleSchedule_ok: "\<exists>d. fst (handleSchedule K P suite active now status s) = Inr d"
proof -
  have tick: "\<exists>d. fst (case lm of None \<Rightarrow> (Inr st, u) | Some tk \<Rightarrow> fireTick K P suite active now tk st u) = Inr d" for lm st u
    using fireTick_ok by (cases lm) auto
  have upd: "\<exists>d'. fst (case x of (Inl e, s2) \<Rightarrow> (Inl e, s2) | (Inr st, s2) \<Rightarrow> done_with (updateStatus K suite st s2) d) = Inr d'"
    if "\<exists>st. fst x = Inr st" for x d
    using that updateStatus_ok by (cases x) auto
  show ?thesis unfolding handleSchedule_def Let_def
    using updateStatus_ok upd [OF tick] by (auto split: option.split sum.split prod.split)
qed

lemma suitePass_answers: "\<exists>d. fst (suitePass K P suite now items s) = Inr d"
proof -
  have gc: "fst (gcRuns K P runs limit u) = None" for runs limit u
    using deleteRuns_ok [OF delete_ok] by (simp add: gcRuns_def)
  let ?succ = "filter (\<lambda>run. run_Phase run = CheckRunSucceeded) (suiteRuns P suite items)"
  let ?fail = "filter (\<lambda>run. run_Phase run = CheckRunFailed \<or> run_Phase run = CheckRunError) (suiteRuns P suite items)"
  let ?lim = "historyLimits (ss_HistoryLimit (suite_Spec suite))"
  obtain s1 where g1: "gcRuns K P ?succ (fst ?lim) s = (None, s1)" using gc by (metis prod.collapse)
  obtain s2 where g2: "gcRuns K P ?fail (snd ?lim) s1 = (None, s2)" using gc by (metis prod.collapse)
  have "\<exists>st. fst (manualTrigger K P suite (startStatus P suite items) s2) = Inr st"
    using createRun_ok [of suite "manualRunName suite (runNow suite)" s2]
    by (auto simp: manualTrigger_eq split: prod.split)
  then obtain st s3 where "manualTrigger K P suite (startStatus P suite items) s2 = (Inr st, s3)" by (metis prod.collapse)
  then show ?thesis using g1 g2 handleSchedule_ok by (simp add: suitePass_def Let_def)
qed

end

end
