(* ===== verification/Admission.thy ===== *)
theory Admission
  imports Names Api_Types
begin

text \<open>
  What the API server admits: the \<open>kubebuilder\<close> validation markers of package \<open>v1alpha1\<close>,
  one predicate per type and in the order of its fields, and the DNS names that Kubernetes asks
  object names to be. A length limit counts code points (\<open>runes\<close>); \<open>+listType=map\<close> and
  \<open>+listType=set\<close> say that the keys of a list are distinct. The defaults that the markers
  give are applied before a validation and are not modelled.
\<close>

section \<open>Strings\<close>

text \<open>The code points of a UTF-8 string: the bytes that do not continue another.\<close>

definition runes :: "string \<Rightarrow> nat" where
  "runes s = length (filter (\<lambda>c. \<not> (128 \<le> (of_char c :: nat) \<and> (of_char c :: nat) < 192)) s)"

lemma runes_le_length: "runes s \<le> length s"
  by (simp add: runes_def)

definition alnum :: "char \<Rightarrow> bool" where
  "alnum c \<longleftrightarrow> (97 \<le> (of_char c :: nat) \<and> (of_char c :: nat) \<le> 122)
     \<or> (48 \<le> (of_char c :: nat) \<and> (of_char c :: nat) \<le> 57)"

text \<open>
  The DNS-1123 names as an automaton: inside a label a letter or digit was read last, or a dash, or
  a label is to begin. A subdomain is a sequence of labels with dots between them.
\<close>

datatype dns_state = LabelStart | LabelAlnum | LabelDash

fun dns_step :: "dns_state option \<Rightarrow> char \<Rightarrow> dns_state option" where
  "dns_step None c = None"
| "dns_step (Some LabelStart) c = (if alnum c then Some LabelAlnum else None)"
| "dns_step (Some LabelAlnum) c =
     (if alnum c then Some LabelAlnum else if c = CHR ''-'' then Some LabelDash
      else if c = CHR ''.'' then Some LabelStart else None)"
| "dns_step (Some LabelDash) c =
     (if alnum c then Some LabelAlnum else if c = CHR ''-'' then Some LabelDash else None)"

definition dns_subdomain :: "string \<Rightarrow> bool" where
  "dns_subdomain s \<longleftrightarrow> foldl dns_step (Some LabelStart) s = Some LabelAlnum \<and> length s \<le> 253"

text \<open>The pattern of the names of runners and checks.\<close>

definition dns_label :: "string \<Rightarrow> bool" where
  "dns_label s \<longleftrightarrow> s \<noteq> [] \<and> alnum (hd s) \<and> alnum (List.last s) \<and> list_all (\<lambda>c. alnum c \<or> c = CHR ''-'') s"

section \<open>Checks and runners (shared_types.go)\<close>

definition no_scheme :: "string list \<Rightarrow> string \<Rightarrow> bool" where
  "no_scheme schemes s \<longleftrightarrow> list_all (\<lambda>p. \<not> hasPrefix s p) schemes"

definition valid_tcp :: "TCPCheck \<Rightarrow> bool" where
  "valid_tcp t \<longleftrightarrow> 1 \<le> runes (tcp_Address t) \<and> runes (tcp_Address t) \<le> 253
     \<and> no_scheme [''http://'', ''https://'', ''tcp://''] (tcp_Address t)"

definition valid_header :: "HTTPHeader \<Rightarrow> bool" where
  "valid_header h \<longleftrightarrow> 1 \<le> runes (hdr_Name h) \<and> runes (hdr_Name h) \<le> 256 \<and> runes (hdr_Value h) \<le> 2048"

definition valid_http :: "HTTPCheck \<Rightarrow> bool" where
  "valid_http h \<longleftrightarrow> 1 \<le> runes (http_URL h) \<and> runes (http_URL h) \<le> 2048
     \<and> (hasPrefix (http_URL h) ''http://'' \<or> hasPrefix (http_URL h) ''https://'')
     \<and> http_Method h \<in> {'''', ''GET'', ''HEAD'', ''POST'', ''PUT'', ''PATCH'', ''DELETE'', ''OPTIONS''}
     \<and> length (http_Headers h) \<le> 32 \<and> distinct (map hdr_Name (http_Headers h))
     \<and> list_all valid_header (http_Headers h)
     \<and> length (http_ExpectedStatus h) \<le> 20 \<and> distinct (http_ExpectedStatus h)
     \<and> list_all (\<lambda>code. 100 \<le> code \<and> code \<le> 599) (http_ExpectedStatus h)"

definition valid_grpc :: "GRPCCheck \<Rightarrow> bool" where
  "valid_grpc g \<longleftrightarrow> 1 \<le> runes (grpc_Address g) \<and> runes (grpc_Address g) \<le> 253
     \<and> no_scheme [''http://'', ''https://'', ''grpc://''] (grpc_Address g) \<and> runes (grpc_Service g) \<le> 253"

definition valid_retries :: "RetryPolicy \<Rightarrow> bool" where
  "valid_retries rp \<longleftrightarrow> 1 \<le> rp_Attempts rp \<and> rp_Attempts rp \<le> 10"

definition one_probe :: "CheckSpec \<Rightarrow> bool" where
  "one_probe c \<longleftrightarrow>
     length (filter id [chk_TCP c \<noteq> None, chk_HTTP c \<noteq> None, chk_GRPC c \<noteq> None]) = 1"

definition valid_check :: "CheckSpec \<Rightarrow> bool" where
  "valid_check c \<longleftrightarrow> one_probe c \<and> runes (chk_Name c) \<le> 63 \<and> dns_label (chk_Name c)
     \<and> length (chk_Runners c) \<le> 16 \<and> distinct (chk_Runners c) \<and> list_all (\<lambda>r. runes r \<le> 30) (chk_Runners c)
     \<and> pred_option valid_tcp (chk_TCP c) \<and> pred_option valid_http (chk_HTTP c)
     \<and> pred_option valid_grpc (chk_GRPC c) \<and> pred_option valid_retries (chk_Retries c)"

definition valid_spread :: "TopologySpread \<Rightarrow> bool" where
  "valid_spread ts \<longleftrightarrow> runes (ts_TopologyKey ts) \<le> 316
     \<and> ts_WhenUnsatisfiable ts \<in> {'''', ''ScheduleAnyway'', ''DoNotSchedule''}"

definition valid_runner :: "RunnerSpec \<Rightarrow> bool" where
  "valid_runner rn \<longleftrightarrow> runes (rn_Name rn) \<le> 30 \<and> dns_label (rn_Name rn)
     \<and> pred_option (\<lambda>n. 1 \<le> n \<and> n \<le> 16) (rn_Replicas rn)
     \<and> card (dom (rn_NodeSelector rn)) \<le> 16 \<and> length (rn_Tolerations rn) \<le> 16
     \<and> pred_option valid_spread (rn_TopologySpread rn)"

definition valid_template :: "CheckSuiteTemplate \<Rightarrow> bool" where
  "valid_template t \<longleftrightarrow>
     list_all (\<lambda>c. set (chk_Runners c) \<subseteq> set (map rn_Name (tpl_Runners t))) (tpl_Checks t)
     \<and> 1 \<le> length (tpl_Runners t) \<and> length (tpl_Runners t) \<le> 16
     \<and> distinct (map rn_Name (tpl_Runners t)) \<and> list_all valid_runner (tpl_Runners t)
     \<and> 1 \<le> length (tpl_Checks t) \<and> length (tpl_Checks t) \<le> 128
     \<and> distinct (map chk_Name (tpl_Checks t)) \<and> list_all valid_check (tpl_Checks t)"

section \<open>Status of a run (checkrun_types.go)\<close>

definition valid_result :: "CheckResult \<Rightarrow> bool" where
  "valid_result r \<longleftrightarrow> runes (res_Name r) \<le> 63 \<and> res_Observed r \<noteq> ObservedUnset \<and> runes (res_Message r) \<le> 1024"

definition valid_pod :: "PodResult \<Rightarrow> bool" where
  "valid_pod p \<longleftrightarrow> runes (pod_PodName p) \<le> 253 \<and> runes (pod_NodeName p) \<le> 253
     \<and> length (pod_Checks p) \<le> 128 \<and> distinct (map res_Name (pod_Checks p)) \<and> list_all valid_result (pod_Checks p)"

definition valid_runner_status :: "RunnerStatus \<Rightarrow> bool" where
  "valid_runner_status rs \<longleftrightarrow> runes (rs_Name rs) \<le> 30 \<and> length (rs_Pods rs) \<le> 64
     \<and> distinct (map pod_PodName (rs_Pods rs)) \<and> list_all valid_pod (rs_Pods rs)"

definition valid_run_status :: "CheckRunStatus \<Rightarrow> bool" where
  "valid_run_status st \<longleftrightarrow> length (st_Runners st) \<le> 16 \<and> distinct (map rs_Name (st_Runners st))
     \<and> list_all valid_runner_status (st_Runners st) \<and> distinct (map cond_Type (st_Conditions st))"

text \<open>The specification of a run is immutable.\<close>

definition valid_run_update :: "CheckRun \<Rightarrow> CheckRun \<Rightarrow> bool" where
  "valid_run_update old new \<longleftrightarrow> run_Spec new = run_Spec old \<and> valid_template (run_Template new)"

section \<open>Suites (checksuite_types.go)\<close>

definition valid_history :: "HistoryLimit \<Rightarrow> bool" where
  "valid_history h \<longleftrightarrow> pred_option (\<lambda>n. 0 \<le> n) (hl_Successful h) \<and> pred_option (\<lambda>n. 0 \<le> n) (hl_Failed h)"

definition valid_suite_spec :: "CheckSuiteSpec \<Rightarrow> bool" where
  "valid_suite_spec ss \<longleftrightarrow> pred_option (\<lambda>cron. 1 \<le> runes cron \<and> runes cron \<le> 100) (ss_Schedule ss)
     \<and> pred_option valid_history (ss_HistoryLimit ss) \<and> valid_template (ss_Template ss)"

definition valid_suite_status :: "CheckSuiteStatus \<Rightarrow> bool" where
  "valid_suite_status st \<longleftrightarrow> runes (sst_LastManualTrigger st) \<le> 253 \<and> length (sst_Active st) \<le> 32
     \<and> distinct (map cond_Type (sst_Conditions st))"

section \<open>Facts\<close>

lemma one_probe_cases:
  assumes "one_probe c"
  obtains (tcp) t where "chk_TCP c = Some t" "chk_HTTP c = None" "chk_GRPC c = None"
  | (http) h where "chk_TCP c = None" "chk_HTTP c = Some h" "chk_GRPC c = None"
  | (grpc) g where "chk_TCP c = None" "chk_HTTP c = None" "chk_GRPC c = Some g"
  using assms
  by (cases "chk_TCP c"; cases "chk_HTTP c"; cases "chk_GRPC c") (auto simp: one_probe_def)

lemma alnum_not [simp]: "\<not> alnum (CHR ''-'')" "\<not> alnum (CHR ''.'')"
  by (simp_all add: alnum_def)

lemma hex_alnum: "c \<in> set hex_digits \<Longrightarrow> alnum c"
  by (auto simp: hex_digits_def alnum_def)

lemma dns_none [simp]: "foldl dns_step None s = None"
  by (induction s) simp_all

lemma dns_alnums: "list_all alnum s \<Longrightarrow> s \<noteq> [] \<Longrightarrow> foldl dns_step (Some q) s = Some LabelAlnum"
proof (induction s arbitrary: q)
  case (Cons c s)
  then have "dns_step (Some q) c = Some LabelAlnum" by (cases q) simp_all
  then show ?case using Cons by (cases "s = []") simp_all
qed simp

text \<open>A label is to begin exactly at the start and after a dot.\<close>

lemma dns_at_start:
  "foldl dns_step (Some LabelStart) s = Some q \<Longrightarrow> q = LabelStart \<longleftrightarrow> s = [] \<or> List.last s = CHR ''.''"
proof (induction s arbitrary: q rule: rev_induct)
  case (snoc c s)
  then obtain p where p: "foldl dns_step (Some LabelStart) s = Some p"
    by (cases "foldl dns_step (Some LabelStart) s") simp_all
  with snoc.prems show ?case by (cases p) (auto split: if_splits)
qed simp

lemma dns_prefix:
  assumes "foldl dns_step (Some LabelStart) s = Some q"
  obtains p where "foldl dns_step (Some LabelStart) (take k s) = Some p"
  using assms
  by (cases "foldl dns_step (Some LabelStart) (take k s)")
    (metis append_take_drop_id foldl_append dns_none option.distinct(1))+

text \<open>A cut name is a valid one unless the cut falls behind a dot.\<close>

lemma dns_truncated:
  assumes "dns_subdomain name" and "10 \<le> n" and "n < int (length name)" and "truncateName name n = Some t"
  shows "dns_subdomain t \<longleftrightarrow> name ! nat (n - 10) \<noteq> CHR ''.''"
proof -
  let ?k = "nat (n - 9)"
  let ?pre = "take ?k name"
  have t: "t = ?pre @ ''-'' @ hash8 name" using truncateName_long [of n name] assms(2-4) by simp
  have k: "0 < ?k" "?k \<le> length name" "?k - 1 = nat (n - 10)" using assms(2,3) by auto
  then have ne: "?pre \<noteq> []" by auto
  then have "List.last ?pre = ?pre ! (?k - 1)" using k(2) by (simp add: last_conv_nth)
  also have "\<dots> = name ! nat (n - 10)" using k by (simp flip: k(3))
  finally have last: "?pre \<noteq> []" "List.last ?pre = name ! nat (n - 10)" using ne by simp_all
  have len: "length t \<le> 253"
    using truncateName_length [OF _ assms(4)] assms(1-3) by (simp add: dns_subdomain_def)
  obtain p where p: "foldl dns_step (Some LabelStart) ?pre = Some p"
    using assms(1) dns_prefix unfolding dns_subdomain_def by blast
  have hash: "list_all alnum (hash8 name)" "hash8 name \<noteq> []"
    using hash8_alphabet hex_alnum length_hash8 [of name] by (auto simp: list_all_iff)
  have "foldl dns_step (Some LabelStart) t = foldl dns_step (dns_step (Some p) (CHR ''-'')) (hash8 name)"
    by (simp add: t p)
  also have "\<dots> = (if p = LabelStart then None else Some LabelAlnum)"
    using dns_alnums [OF hash] by (cases p) simp_all
  finally show ?thesis using dns_at_start [OF p] last len by (auto simp: dns_subdomain_def)
qed

text \<open>A run's name and a runner's name give a valid Job name before it is cut.\<close>

lemma dns_label_run: "dns_label s \<Longrightarrow> foldl dns_step (Some q) s = Some LabelAlnum"
proof -
  have *: "list_all (\<lambda>c. alnum c \<or> c = CHR ''-'') s \<Longrightarrow> s \<noteq> [] \<Longrightarrow> alnum (List.last s) \<Longrightarrow>
      q \<noteq> LabelStart \<or> alnum (hd s) \<Longrightarrow> foldl dns_step (Some q) s = Some LabelAlnum" for q
  proof (induction s arbitrary: q)
    case (Cons c s)
    show ?case
    proof (cases "s = []")
      case True
      then show ?thesis using Cons.prems by (cases q) simp_all
    next
      case False
      have "\<exists>p. dns_step (Some q) c = Some p \<and> p \<noteq> LabelStart" using Cons.prems by (cases q) auto
      then show ?thesis using Cons False by auto
    qed
  qed simp
  show "dns_label s \<Longrightarrow> foldl dns_step (Some q) s = Some LabelAlnum" by (rule *) (simp_all add: dns_label_def)
qed

lemma dns_joined:
  assumes "dns_subdomain r" and "dns_label rn" and "length r + 1 + length rn \<le> 253"
  shows "dns_subdomain (r @ ''-'' @ rn)"
  using assms by (simp add: dns_subdomain_def dns_label_run)

end
