(* ===== verification/Cluster.thy ===== *)
theory Cluster
  imports CheckRun_Controller CheckSuite_Controller Admission
begin

text \<open>
  A small API server and library packages over which the handlers run: association lists of stored
  objects, condition lists that keep the order of first appearance, three cron schedules (every minute, a constant delay, a day there is not),
  and the retry and network models of the other theories. It shows that the contracts the
  theorems are stated over can hold together, and it is what their witnesses evaluate on. An
  applied status is recorded as the server received it; its merge into the stored object is
  not modelled here.
\<close>

section \<open>The server\<close>

record cluster =
  cl_now :: time
  cl_uid :: int
  cl_runs :: "(nkey \<times> CheckRun) list"
  cl_suites :: "(nkey \<times> CheckSuite) list"
  cl_accounts :: "nkey list"
  cl_jobs :: "(nkey \<times> Job) list"
  cl_applied :: "(json \<times> string) list"

definition found :: "'o option \<Rightarrow> api_error + 'o" where
  "found q = (case q of None \<Rightarrow> Inl NotFound | Some ob \<Rightarrow> Inr ob)"

definition look_run :: "cluster \<Rightarrow> nkey \<Rightarrow> CheckRun option" where
  "look_run w = map_of (cl_runs w)"

definition look_job :: "cluster \<Rightarrow> nkey \<Rightarrow> Job option" where
  "look_job w = map_of (cl_jobs w)"

definition stamp :: "cluster \<Rightarrow> ObjectMeta \<Rightarrow> ObjectMeta" where
  "stamp w m = m\<lparr>om_UID := ''uid-'' @ itoa (cl_uid w), om_Generation := 1, om_CreationTimestamp := cl_now w\<rparr>"

definition cl_create_run :: "CheckRun \<Rightarrow> cluster \<Rightarrow> (api_error + CheckRun) \<times> cluster" where
  "cl_create_run run w =
     (if look_run w (runKey run) \<noteq> None then (Inl AlreadyExists, w)
      else let stored = run\<lparr>run_Meta := stamp w (run_Meta run)\<rparr> in
        (Inr stored, w\<lparr>cl_uid := cl_uid w + 1, cl_runs := (runKey run, stored) # cl_runs w\<rparr>))"

definition cl_create_job :: "Job \<Rightarrow> cluster \<Rightarrow> (api_error + Job) \<times> cluster" where
  "cl_create_job job w =
     (if look_job w (meta_key (job_Meta job)) \<noteq> None then (Inl AlreadyExists, w)
      else let stored = job\<lparr>job_Meta := stamp w (job_Meta job)\<rparr> in
        (Inr stored, w\<lparr>cl_uid := cl_uid w + 1, cl_jobs := (meta_key (job_Meta job), stored) # cl_jobs w\<rparr>))"

definition clusterKube :: "cluster kube" where
  "clusterKube =
     \<lparr>k_now = cl_now,
      k_get_run = (\<lambda>k w. (found (look_run w k), w)),
      k_get_suite = (\<lambda>k w. (found (map_of (cl_suites w) k), w)),
      k_get_sa = (\<lambda>k w. (if k \<in> set (cl_accounts w) then None else Some NotFound, w)),
      k_get_job = (\<lambda>k w. (found (look_job w k), w)),
      k_create_job = cl_create_job,
      k_apply_status = (\<lambda>doc owner w. (None, w\<lparr>cl_applied := cl_applied w @ [(doc, owner)]\<rparr>)),
      k_list_runs = (\<lambda>ns (label, v) w.
        (Inr (filter (\<lambda>run. run_Namespace run = ns \<and> om_Labels (run_Meta run) label = Some v)
           (map snd (cl_runs w))), w)),
      k_create_run = cl_create_run,
      k_delete_run = (\<lambda>k w.
        (if look_run w k = None then Some NotFound else None,
         w\<lparr>cl_runs := filter (\<lambda>(k', _). k' \<noteq> k) (cl_runs w)\<rparr>)),
      k_update_suite_status = (\<lambda>suite w.
        (None, w\<lparr>cl_suites := AList.update (meta_key (suite_Meta suite)) suite (cl_suites w)\<rparr>))\<rparr>"

section \<open>The packages\<close>

text \<open>The zero time of Go, the first day of the year 1.\<close>

definition zeroTime :: time where
  "zeroTime = - 62135596800 * Second"

definition runOwner :: "CheckRun \<Rightarrow> OwnerReference" where
  "runOwner run = \<lparr>ow_APIVersion = SchemeGroupVersion, ow_Kind = ''CheckRun'', ow_Name = run_Name run, ow_UID = om_UID (run_Meta run)\<rparr>"

definition suiteOwner :: "CheckSuite \<Rightarrow> OwnerReference" where
  "suiteOwner suite = \<lparr>ow_APIVersion = SchemeGroupVersion, ow_Kind = ''CheckSuite'', ow_Name = suite_Name suite, ow_UID = om_UID (suite_Meta suite)\<rparr>"

definition refPkgs :: pkgs where
  "refPkgs =
     \<lparr>p_set_condition = upsert_condition,
      p_status_map = (\<lambda>st. Inr [(''phase'', JStr (phase_string (st_Phase st))), (''runners'', JArr [])]),
      p_pod_map = (\<lambda>pod. Inr [(''podName'', JStr (pod_PodName pod))]),
      p_own_job = (\<lambda>run job. Inr (job\<lparr>job_Meta := (job_Meta job)\<lparr>om_Controller := Some (runOwner run)\<rparr>\<rparr>)),
      p_own_run = (\<lambda>suite run. Inr (run\<lparr>run_Meta := (run_Meta run)\<lparr>om_Controller := Some (suiteOwner suite)\<rparr>\<rparr>)),
      p_controlled_by = (\<lambda>run suite. map_option ow_UID (om_Controller (run_Meta run)) = Some (om_UID (suite_Meta suite))),
      p_parse_cron = (\<lambda>cron. if cron = ''* * * * *'' then Inr (everyNext Minute)
         else if cron = ''@every 1m'' then Inr (\<lambda>t. t div Second * Second + Minute)
         else if cron = ''0 0 30 2 *'' then Inr (\<lambda>_. zeroTime) else Inl ''expected exactly 5 fields''),
      p_sort_runs = sort_key runRecency,
      p_range_jobs = (\<lambda>xs. xs),
      p_range_results = (\<lambda>xs. xs)\<rparr>"

lemma refPkgs_simps [simp]:
  "p_set_condition refPkgs = upsert_condition"
  "p_sort_runs refPkgs = sort_key runRecency"
  "p_range_jobs refPkgs = (\<lambda>xs. xs)"
  "p_range_results refPkgs = (\<lambda>xs. xs)"
  "p_own_job refPkgs run job = Inr (job\<lparr>job_Meta := (job_Meta job)\<lparr>om_Controller := Some (runOwner run)\<rparr>\<rparr>)"
  "p_own_run refPkgs suite r = Inr (r\<lparr>run_Meta := (run_Meta r)\<lparr>om_Controller := Some (suiteOwner suite)\<rparr>\<rparr>)"
  by (simp_all add: refPkgs_def)

lemma ranges_id [simp]: "ranges (\<lambda>xs. xs)"
  by (simp add: ranges_def)

section \<open>The contracts hold\<close>

lemma found_case: "found q = (case q of None \<Rightarrow> Inl NotFound | Some ob \<Rightarrow> Inr ob)"
  by (simp add: found_def)

lemma stamp_key [simp]: "meta_key (stamp w m) = meta_key m"
  by (simp add: stamp_def meta_key_def)

interpretation jobs: job_store look_job clusterKube refPkgs
proof
  show "k_get_job clusterKube k w = (case look_job w k of None \<Rightarrow> Inl NotFound | Some ob \<Rightarrow> Inr ob, w)" for k w
    by (simp add: clusterKube_def found_def)
  show "look_job w (meta_key (job_Meta j)) \<noteq> None \<Longrightarrow> k_create_job clusterKube j w = (Inl AlreadyExists, w)" for w j
    by (simp add: clusterKube_def cl_create_job_def)
  show "\<exists>j' w'. k_create_job clusterKube j w = (Inr j', w') \<and> meta_key (job_Meta j') = meta_key (job_Meta j)
      \<and> look_job w' = (look_job w)(meta_key (job_Meta j) \<mapsto> j')"
    if "look_job w (meta_key (job_Meta j)) = None" for w j
    using that by (simp add: clusterKube_def cl_create_job_def Let_def look_job_def)
  show "\<exists>j'. p_own_job refPkgs run j = Inr j' \<and> meta_key (job_Meta j') = meta_key (job_Meta j)" for run j
    by (simp add: meta_key_def)
qed

interpretation runs: run_store look_run clusterKube refPkgs
proof
  show "k_get_run clusterKube k w = (case look_run w k of None \<Rightarrow> Inl NotFound | Some ob \<Rightarrow> Inr ob, w)" for k w
    by (simp add: clusterKube_def found_def)
  show "look_run w (runKey r) \<noteq> None \<Longrightarrow> k_create_run clusterKube r w = (Inl AlreadyExists, w)" for w r
    by (simp add: clusterKube_def cl_create_run_def)
  show "\<exists>r' w'. k_create_run clusterKube r w = (Inr r', w') \<and> runKey r' = runKey r
      \<and> look_run w' = (look_run w)(runKey r \<mapsto> r')"
    if "look_run w (runKey r) = None" for w r
    using that by (simp add: clusterKube_def cl_create_run_def Let_def look_run_def runKey_def)
  show "\<exists>r'. p_own_run refPkgs suite r = Inr r' \<and> runKey r' = runKey r" for suite r
    by (simp add: runKey_def meta_key_def)
qed

interpretation server: run_server look_job clusterKube refPkgs
  by unfold_locales (simp_all add: refPkgs_def clusterKube_def ranges_def)

interpretation suites: suite_server look_run clusterKube refPkgs
  by unfold_locales (simp_all add: clusterKube_def)

section \<open>Sample objects\<close>

text \<open>A suite with one check on one runner, a run of it, and the network it probes.\<close>

definition guardedOpts :: Options where
  "guardedOpts = \<lparr>opt_AllowLocalTargets = False\<rparr>"

definition webSpec :: CheckSpec where
  "webSpec = \<lparr>chk_Name = ''web'', chk_Runners = [], chk_TCP = None,
     chk_HTTP = Some \<lparr>http_URL = ''http://web'', http_Method = '''', http_Headers = [], http_Timeout = None,
       http_ExpectedStatus = [200, 204]\<rparr>,
     chk_GRPC = None, chk_Expect = ExpectSuccess,
     chk_Retries = Some \<lparr>rp_Attempts = 3, rp_Delay = None\<rparr>\<rparr>"

definition zoneRunner :: RunnerSpec where
  "zoneRunner = \<lparr>rn_Name = ''zone-a'', rn_Replicas = None, rn_NodeSelector = Map.empty, rn_Tolerations = [],
     rn_TopologySpread = None\<rparr>"

definition webTemplate :: CheckSuiteTemplate where
  "webTemplate = \<lparr>tpl_Runners = [zoneRunner], tpl_Checks = [webSpec], tpl_Timeout = None\<rparr>"

lemma webTemplate_valid: "valid_template webTemplate"
  by (simp add: valid_template_def webTemplate_def valid_runner_def valid_check_def one_probe_def webSpec_def
      zoneRunner_def valid_http_def valid_retries_def hasPrefix_def dns_label_def alnum_def runes_def)

definition newMeta :: "string \<Rightarrow> OwnerReference option \<Rightarrow> ObjectMeta" where
  "newMeta name ctl = \<lparr>om_Name = name, om_Namespace = ''prod'', om_UID = ''uid-'' @ name, om_Generation = 1,
     om_CreationTimestamp = 0, om_Labels = [labelSuite \<mapsto> ''demo''], om_Annotations = Map.empty, om_Controller = ctl,
     om_ResourceVersion = ''1''\<rparr>"

text \<open>A run named \<open>name\<close> in a phase, with the pods its runner has reported.\<close>

definition sampleRun :: "string \<Rightarrow> CheckRunPhase \<Rightarrow> PodResult list \<Rightarrow> CheckRun" where
  "sampleRun name phase pods =
     \<lparr>run_Meta = newMeta name (Some \<lparr>ow_APIVersion = SchemeGroupVersion, ow_Kind = ''CheckSuite'', ow_Name = ''demo'', ow_UID = ''uid-demo''\<rparr>),
      run_Spec = \<lparr>run_SuiteRef = Some ''demo'', run_Suite = webTemplate\<rparr>,
      run_Status = \<lparr>st_ObservedGeneration = 1, st_Phase = phase, st_StartTime = Some 0, st_CompletionTime = None,
        st_Runners = (if pods = [] then [] else [\<lparr>rs_Name = ''zone-a'', rs_Pods = pods\<rparr>]),
        st_Summary = None, st_Conditions = []\<rparr>\<rparr>"

definition webPod :: "bool \<Rightarrow> PodResult" where
  "webPod passed = \<lparr>pod_PodName = ''demo-zone-a-x'', pod_NodeName = ''node'', pod_StartTime = None,
     pod_CompletionTime = None,
     pod_Checks = [\<lparr>res_Name = ''web'', res_Passed = passed, res_Observed = ObservedSuccess, res_Attempts = 1,
       res_Message = '''', res_Duration = None\<rparr>]\<rparr>"

definition completeJob :: Job where
  "completeJob = \<lparr>job_Meta = newMeta ''demo-zone-a'' None,
     job_Spec = \<lparr>js_Parallelism = Some 1, js_Completions = Some 1, js_BackoffLimit = None,
       js_ActiveDeadlineSeconds = None, js_PodLabels = Map.empty,
       js_PodSpec = \<lparr>ps_RestartPolicy = '''', ps_ServiceAccountName = '''', ps_NodeSelector = Map.empty,
         ps_Tolerations = [], ps_RunAsNonRoot = None, ps_SeccompProfile = '''', ps_Containers = [],
         ps_TopologySpread = []\<rparr>\<rparr>,
     job_Conditions = [\<lparr>jc_Type = ''Complete'', jc_Status = ConditionTrue, jc_Message = ''''\<rparr>]\<rparr>"

definition sampleSuite :: "ConcurrencyPolicy \<Rightarrow> string \<Rightarrow> CheckSuite" where
  "sampleSuite policy trigger =
     \<lparr>suite_Meta = (newMeta ''demo'' None)\<lparr>om_Annotations :=
        (if trigger = '''' then Map.empty else [RunNowAnnotation \<mapsto> trigger])\<rparr>,
      suite_Spec = \<lparr>ss_Schedule = Some ''* * * * *'', ss_Suspend = None, ss_ConcurrencyPolicy = policy,
        ss_StartingDeadline = None, ss_HistoryLimit = None, ss_Template = webTemplate\<rparr>,
      suite_Status = \<lparr>sst_ObservedGeneration = 0, sst_LastScheduleTime = Some 0, sst_LastManualTrigger = '''',
        sst_Active = [], sst_Conditions = []\<rparr>\<rparr>"

definition sampleReconciler :: CheckRunReconciler where
  "sampleReconciler = \<lparr>rc_RunnerImage = ''verikube:1'', rc_RunnerServiceAccount = '''', rc_AllowLocalTargets = False\<rparr>"

text \<open>The cluster at a time, with a run, a suite, and Jobs.\<close>

definition sampleCluster :: "time \<Rightarrow> CheckRun list \<Rightarrow> CheckSuite \<Rightarrow> Job list \<Rightarrow> cluster ctx" where
  "sampleCluster now runs suite jobs =
     \<lparr>world = \<lparr>cl_now = now, cl_uid = 1, cl_runs = map (\<lambda>r. (runKey r, r)) runs,
        cl_suites = [(meta_key (suite_Meta suite), suite)], cl_accounts = [(''prod'', ''verikube-runner'')],
        cl_jobs = map (\<lambda>j. (meta_key (job_Meta j), j)) jobs, cl_applied = []\<rparr>,
      acts = []\<rparr>"

definition webScript :: script where
  "webScript = \<lparr>sc_now = Second, sc_cancelled = False,
     sc_resolve = (\<lambda>name. if name = ''http://web'' then [''127.0.0.1:80'', ''10.0.0.7:80''] else []),
     sc_connect = (\<lambda>now addr. 3 * Second \<le> now \<and> addr = ''10.0.0.7:80''), sc_answer = (\<lambda>addr. 204)\<rparr>"

definition webCtx :: "script ctx" where
  "webCtx = \<lparr>world = webScript, acts = []\<rparr>"

text \<open>A server that holds one run and accepts every report, for a runner pod.\<close>

definition podKube :: "CheckRun \<Rightarrow> 'w kube" where
  "podKube run =
     \<lparr>k_now = (\<lambda>w. 0), k_get_run = (\<lambda>k w. (Inr run, w)), k_get_suite = (\<lambda>k w. (Inl NotFound, w)),
      k_get_sa = (\<lambda>k w. (Some NotFound, w)), k_get_job = (\<lambda>k w. (Inl NotFound, w)),
      k_create_job = (\<lambda>j w. (Inl NotFound, w)), k_apply_status = (\<lambda>doc owner w. (None, w)),
      k_list_runs = (\<lambda>ns sel w. (Inr [run], w)), k_create_run = (\<lambda>r w. (Inl NotFound, w)),
      k_delete_run = (\<lambda>k w. (Some NotFound, w)), k_update_suite_status = (\<lambda>suite w. (None, w))\<rparr>"

lemma podKube_simps [simp]:
  "k_get_run (podKube run) k w = (Inr run, w)" "k_apply_status (podKube run) doc owner w = (None, w)"
  by (simp_all add: podKube_def)

definition podEnv :: "string \<Rightarrow> string" where
  "podEnv key =
     (if key = EnvCheckRunName then ''demo'' else if key = EnvCheckRunNamespace then ''prod''
      else if key = EnvRunnerName then ''zone-a'' else if key = EnvPodName then ''demo-zone-a-x'' else '''')"

definition podConfig :: Config where
  "podConfig = \<lparr>cfg_CheckRunName = ''demo'', cfg_Namespace = ''prod'', cfg_RunnerName = ''zone-a'',
     cfg_PodName = ''demo-zone-a-x'', cfg_NodeName = '''', cfg_MaxConcurrentChecks = 0\<rparr>"

lemma podEnv_config: "ConfigFromEnv podEnv = Inr podConfig"
  by (simp add: ConfigFromEnv_def podEnv_def podConfig_def EnvCheckRunName_def EnvCheckRunNamespace_def
      EnvRunnerName_def EnvPodName_def EnvNodeName_def)

text \<open>A group that runs one goroutine after the other.\<close>

definition inOrder :: errgroup where
  "inOrder limit n = concat (map (\<lambda>i. [Started i, Finished i]) [0..<n])"

lemma finished_inOrder: "finished (concat (map (\<lambda>i. [Started i, Finished i]) is)) = is"
  by (induction "is") simp_all

lemma in_flight_inOrder: "in_flight (take k (concat (map (\<lambda>i. [Started i, Finished i]) is))) \<le> 1"
proof (induction "is" arbitrary: k)
  case (Cons i "is")
  show ?case
  proof (cases k)
    case (Suc j)
    then show ?thesis using Cons.IH [of "j - 1"] by (cases j) simp_all
  qed simp
qed simp

lemma inOrder_schedules: "schedules inOrder"
proof -
  have "in_flight (take k (inOrder limit n)) \<le> limit" if "0 < limit" for limit n k
    using in_flight_inOrder [of k "[0..<n]"] that by (simp add: inOrder_def)
  then show ?thesis by (auto simp: schedules_def inOrder_def finished_inOrder)
qed

end
