(* ===== verification/Runner_Properties.thy ===== *)
theory Runner_Properties
  imports Cluster
begin

text \<open>
  Properties of the names, the target guard, the probes and the runner, each with a witness on the
  sample objects of \<open>Cluster\<close> where it has hypotheses. The facts behind them are proved
  with the components, in \<open>Names\<close>, \<open>Checker\<close> and \<open>Runner\<close>.
\<close>

section \<open>Names\<close>

text \<open>Note: \<open>truncateName\<close> never panics on the bounds its callers pass, Job names have at
  most 57 bytes and label values at most 63, and a name that fits is kept as it is.\<close>

theorem names_fit:
  "truncateName (r @ ''-'' @ rn) 57 = Some (jobName r rn) \<and> truncateName s 63 = Some (label63 s)
   \<and> length (jobName r rn) \<le> 57 \<and> length (label63 s) \<le> 63
   \<and> jobName r rn = (if length r + 1 + length rn \<le> 57 then r @ ''-'' @ rn
        else take 48 (r @ ''-'' @ rn) @ ''-'' @ hash8 (r @ ''-'' @ rn))"
  using truncateName_total [of 57 "r @ ''-'' @ rn"] truncateName_total [of 63 s]
  by (intro conjI length_jobName length_label63 jobName_eq) (auto simp: label63_def jobName_def)

text \<open>Note: the Job name does not separate the run's name from the runner's: moving a dash-joined
  part from one to the other gives the same Job.\<close>

theorem job_name_ambiguous: "jobName (a @ ''-'' @ b) c = jobName a (b @ ''-'' @ c)"
  by (simp add: jobName_def)

section \<open>The guard and the probes\<close>

text \<open>Note: the guard admits an address exactly when its host is an IP literal outside the loopback
  and link-local ranges, IPv4-mapped forms included; everything it cannot read it refuses.\<close>

theorem guard_admits_exactly: "dialGuard address = None \<longleftrightarrow> admits address"
  by (rule dialGuard_admits)

text \<open>Note: what the guard does on the addresses that reach the pod itself or its node: loopback and
  link-local literals are refused, the unspecified addresses, which Go's dialer takes for the
  local system, are admitted.\<close>

theorem guard_admits_unspecified:
  "dialGuard ''127.0.0.1:80'' \<noteq> None \<and> dialGuard ''169.254.169.254:80'' \<noteq> None
   \<and> dialGuard ''[::1]:80'' \<noteq> None \<and> dialGuard ''0.0.0.0:80'' = None \<and> dialGuard ''[::]:80'' = None"
proof -
  have v4: "dialGuard ''127.0.0.1:80'' = Some (BlockedIP (v4_prefix @ [127, 0, 0, 1]))"
    "dialGuard ''169.254.169.254:80'' = Some (BlockedIP (v4_prefix @ [169, 254, 169, 254]))"
    "dialGuard ''0.0.0.0:80'' = None"
    by code_simp+
  have split: "splitHostPort ''[::1]:80'' = Inr (''::1'', ''80'')" "splitHostPort ''[::]:80'' = Inr (''::'', ''80'')"
    by code_simp+
  have rep15: "replicate 14 (0 :: nat) @ [0] = replicate 15 0" by code_simp
  have "parseIP ''::1'' = Some ipv6loopback" "parseIP ''::'' = Some (replicate 16 0)"
    by (simp_all add: parseIP_def parse_v6_def v6_loop.simps v6_group_def ipv6loopback_def hex_digit_def hex_value_def Let_def v6_finish_def rep15)
  moreover have "local_ip ipv6loopback" "\<not> local_ip (replicate 16 0)" by code_simp+
  ultimately have "dialGuard ''[::1]:80'' \<noteq> None" "dialGuard ''[::]:80'' = None"
    by (simp_all add: dialGuard_admits admits_def split)
  with v4 show ?thesis by simp
qed

text \<open>Note: a dial with the guard in place connects if and only if one of the resolved addresses is
  permitted and accepts; refused addresses are skipped and do not end the search.\<close>

theorem dial_finds_permitted:
  assumes "\<And>ra w. fst (net_connect N timeout ra w) = None \<longleftrightarrow> ok ra"
  shows "(\<exists>ra. fst (dialSerial N (dialControl opts) timeout ras e addr s) = Inr ra)
     \<longleftrightarrow> (\<exists>ra \<in> set ras. allowed opts ra \<and> ok ra)"
proof (induction ras arbitrary: e s)
  case (Cons ra ras)
  have ctl: "(case dialControl opts of None \<Rightarrow> None | Some f \<Rightarrow> f ra) = None \<longleftrightarrow> allowed opts ra"
    by (auto simp: dialControl_def allowed_def dialGuard_admits)
  obtain q t where p: "perform (Connect ra) (net_connect N timeout ra) s = (q, t)" by fastforce
  then have "q = None \<longleftrightarrow> ok ra"
    using assms perform_result [of "Connect ra" "net_connect N timeout ra" s] by simp
  with Cons ctl p show ?case
    by (cases "case dialControl opts of None \<Rightarrow> None | Some f \<Rightarrow> f ra"; cases q) auto
qed simp

theorem dial_finds_permitted_witness:
  "\<exists>ra. fst (dialSerial
     (scriptNet\<lparr>net_connect := \<lambda>d ra w. (if ra = ''10.0.0.7:80'' then None else Some (NetError ''refused''), w)\<rparr>)
     (dialControl guardedOpts) 0 [''127.0.0.1:80'', ''10.0.0.7:80''] None ''http://web'' webCtx) = Inr ra"
proof -
  have g: "dialGuard ''10.0.0.7:80'' = None" by code_simp
  have "allowed guardedOpts ''10.0.0.7:80''" using g by (simp add: allowed_def dialGuard_admits)
  then show ?thesis
    by (subst dial_finds_permitted [where ok = "\<lambda>ra. ra = ''10.0.0.7:80''"]) simp_all
qed

text \<open>C34: an HTTP probe observes success exactly when the client got a response whose status is one
  of the expected ones (200 when none is listed); the request carries the configured method, GET
  by default.\<close>

theorem http_probe_verdict:
  assumes "chk_HTTP spec = Some cfg" and "net_new_request N (httpMethod cfg) (http_URL cfg) = None"
    and "net_http_do N (deref (http_Timeout cfg) defaultHTTPTimeout) (httpRequest cfg)
           (dialContext N (dialControl opts) 0) s = (r, t)"
  shows "\<exists>res. httpCheck N opts spec s = (Some res, t)
    \<and> (pr_Observed res \<longleftrightarrow> (\<exists>code. r = Inr code
         \<and> int32 code \<in> set (if http_ExpectedStatus cfg = [] then [200] else http_ExpectedStatus cfg)))
    \<and> rq_Method (httpRequest cfg) = (if http_Method cfg = '''' then ''GET'' else http_Method cfg)"
proof -
  have "rq_Method (foldl setHeader rq hs) = rq_Method rq" for rq hs
    by (induction hs arbitrary: rq) (simp_all add: setHeader_def)
  then have "rq_Method (httpRequest cfg) = httpMethod cfg" by (simp add: httpRequest_def)
  with assms show ?thesis
    by (cases r) (auto simp: httpCheck_def Let_def httpMethod_def httpExpected_def)
qed

text \<open>The sample network once its server accepts.\<close>

definition lateCtx :: "script ctx" where
  "lateCtx = \<lparr>world = webScript\<lparr>sc_now := 5 * Second\<rparr>, acts = []\<rparr>"

theorem http_probe_verdict_witness:
  "\<exists>res t. httpCheck scriptNet guardedOpts webSpec lateCtx = (Some res, t) \<and> pr_Observed res"
proof -
  define cfg where "cfg = the (chk_HTTP webSpec)"
  define X where "X = net_http_do scriptNet (deref (http_Timeout cfg) defaultHTTPTimeout) (httpRequest cfg)
      (dialContext scriptNet (dialControl guardedOpts) 0) lateCtx"
  have r: "fst X = Inr 204" unfolding X_def cfg_def by code_simp
  have "chk_HTTP webSpec = Some cfg" "http_ExpectedStatus cfg = [200, 204]" by (simp_all add: cfg_def webSpec_def)
  with http_probe_verdict [of webSpec cfg scriptNet guardedOpts lateCtx "fst X" "snd X"] r
  show ?thesis by (auto simp: X_def scriptNet_def int32_def)
qed

section \<open>The runner\<close>

text \<open>C12: a runner reaches only addresses the guard permits, whatever the checks say: every connect
  of a whole run, on every path, goes to a permitted address.\<close>

theorem run_connects_permitted:
  assumes "retrier onError" and "guarded_network N"
    and "Run K P onError N (standardRegistry N opts) order cfg s = (out, t)"
  shows "\<exists>new. acts t = acts s @ new \<and> (\<forall>address. Connect address \<in> set new \<longrightarrow> allowed opts address)"
proof -
  obtain new where new: "acts t = acts s @ new" "\<forall>a \<in> set new. runnerAction opts a"
    using Run_issues [OF assms(1,2), of opts s K P order cfg] assms(3) by (auto simp: issues_set)
  then have "\<forall>address. Connect address \<in> set new \<longrightarrow> allowed opts address" by (metis runnerAction.simps(1))
  with new(1) show ?thesis by blast
qed

theorem run_connects_permitted_witness:
  "Connect ''127.0.0.1:80'' \<notin> set (acts (snd (Run (podKube (sampleRun ''demo'' CheckRunRunning [])) refPkgs
     plainOnError scriptNet (standardRegistry scriptNet guardedOpts) inOrder podConfig webCtx)))"
proof -
  let ?R = "Run (podKube (sampleRun ''demo'' CheckRunRunning [])) refPkgs plainOnError scriptNet
      (standardRegistry scriptNet guardedOpts) inOrder podConfig webCtx"
  have "dialGuard ''127.0.0.1:80'' = Some (BlockedIP (v4_prefix @ [127, 0, 0, 1]))" by code_simp
  then have "\<not> allowed guardedOpts ''127.0.0.1:80''"
    by (simp add: allowed_def guardedOpts_def flip: dialGuard_admits)
  with run_connects_permitted [OF plain.retrier_axioms script.guarded_network_axioms, of _ _ guardedOpts
      inOrder podConfig webCtx "fst ?R" "snd ?R"]
  show ?thesis by (fastforce simp: webCtx_def)
qed

text \<open>C25: the exit code tells whether the checks were executed and reported, never how they came
  out: when the CheckRun can be read and the report is accepted, it is 0 over every network.\<close>

theorem exit_code_ignores_verdicts:
  assumes "retrier onError" and "guarded_network N"
    and "ConfigFromEnv getenv = Inr cfg"
    and "\<And>w. \<exists>run. fst (k_get_run K (cfg_Namespace cfg, cfg_CheckRunName cfg) w) = Inr run"
    and "\<And>pod. \<exists>m. p_pod_map P pod = Inr m" and "\<And>doc owner w. fst (k_apply_status K doc owner w) = None"
  shows "fst (runnerMain K P onError N order getenv maxConcurrent allowLocal True True s) = 0"
proof -
  have "fst (Run K P onError N (standardRegistry N opts) order (cfg\<lparr>cfg_MaxConcurrentChecks := m\<rparr>) s) = RunOk" for opts m
    using Run_ok [OF assms(1,2), of K "cfg\<lparr>cfg_MaxConcurrentChecks := m\<rparr>" P] assms(4-6) by simp
  then show ?thesis using assms(3)
    by (simp add: runnerMain_def Let_def split: prod.split run_outcome.split) (metis fst_conv run_outcome.distinct(3,5))
qed

theorem exit_code_ignores_verdicts_witness:
  "fst (runnerMain (podKube (sampleRun ''demo'' CheckRunRunning [])) refPkgs plainOnError scriptNet inOrder
     podEnv 0 False True True webCtx) = 0"
  by (rule exit_code_ignores_verdicts [OF plain.retrier_axioms script.guarded_network_axioms podEnv_config])
    (simp_all add: refPkgs_def)

text \<open>C22: a run that ends well has read its CheckRun once and, after its probes, applied one and the
  same document at least once and at most eight times as its pod; the document's results are in
  the order of the assigned checks, one for each.\<close>

theorem run_reports_assigned_checks:
  assumes "retrier onError" and "guarded_network N" and "schedules order"
    and "Run K P onError N (standardRegistry N opts) order cfg s = (RunOk, t)"
  shows "\<exists>run pod doc probes n.
    fst (k_get_run K (cfg_Namespace cfg, cfg_CheckRunName cfg) (world s)) = Inr run
    \<and> map res_Name (pod_Checks pod) = map chk_Name (FilterChecks (tpl_Checks (run_Template run)) (cfg_RunnerName cfg))
    \<and> pod_PodName pod = cfg_PodName cfg
    \<and> BuildApplyDocument P (cfg_Namespace cfg) (cfg_CheckRunName cfg) (cfg_RunnerName cfg) pod = Inr doc
    \<and> list_all (connect_to (allowed opts)) probes \<and> 1 \<le> n \<and> n \<le> 8
    \<and> acts t = acts s @ [Req (GetRun (cfg_Namespace cfg, cfg_CheckRunName cfg))] @ probes
        @ replicate n (Req (ApplyRunStatus doc (cfg_PodName cfg)))"
  by (rule Run_ok_trace [OF assms]) (unfold report_action_def, blast)

theorem run_reports_assigned_checks_witness:
  "\<exists>(pod :: PodResult) doc probes n (t :: script ctx). map res_Name (pod_Checks pod) = [''web''] \<and> 1 \<le> n
     \<and> acts t = [Req (GetRun (''prod'', ''demo''))] @ probes @ replicate n (Req (ApplyRunStatus doc ''demo-zone-a-x''))
     \<and> status_fields doc = {''runners''}"
proof -
  let ?run = "sampleRun ''demo'' CheckRunRunning []"
  have "fst (Run (podKube ?run) refPkgs plainOnError scriptNet (standardRegistry scriptNet guardedOpts)
      inOrder podConfig webCtx) = RunOk"
    by (rule Run_ok [OF plain.retrier_axioms script.guarded_network_axioms]) (simp_all add: refPkgs_def)
  then obtain t where "Run (podKube ?run) refPkgs plainOnError scriptNet (standardRegistry scriptNet guardedOpts)
      inOrder podConfig webCtx = (RunOk, t)" by (metis prod.collapse)
  from run_reports_assigned_checks [OF plain.retrier_axioms script.guarded_network_axioms inOrder_schedules this]
  obtain run pod doc probes n where *:
    "fst (k_get_run (podKube ?run) (cfg_Namespace podConfig, cfg_CheckRunName podConfig) (world webCtx)) = Inr run"
    "map res_Name (pod_Checks pod) = map chk_Name (FilterChecks (tpl_Checks (run_Template run)) (cfg_RunnerName podConfig))"
    "BuildApplyDocument refPkgs (cfg_Namespace podConfig) (cfg_CheckRunName podConfig) (cfg_RunnerName podConfig) pod = Inr doc"
    "1 \<le> n"
    "acts t = acts webCtx @ [Req (GetRun (cfg_Namespace podConfig, cfg_CheckRunName podConfig))] @ probes
        @ replicate n (Req (ApplyRunStatus doc (cfg_PodName podConfig)))" by (elim exE conjE) (rule that)
  have "run = ?run" using *(1) by simp
  then have "map res_Name (pod_Checks pod) = [''web'']"
    using *(2) by (simp add: sampleRun_def webTemplate_def webSpec_def FilterChecks_def)
  moreover have "status_fields doc = {''runners''}" using *(3) by (rule status_fields_runner)
  moreover have "acts t = [Req (GetRun (''prod'', ''demo''))] @ probes
      @ replicate n (Req (ApplyRunStatus doc ''demo-zone-a-x''))"
    using *(5) by (simp add: podConfig_def webCtx_def)
  ultimately show ?thesis using *(4)
    by (intro exI [of _ pod] exI [of _ doc] exI [of _ probes] exI [of _ n] exI [of _ t]) simp
qed

text \<open>C30: what a result says about a check of a known type: it stems from the last of at most the
  configured number of attempts, all earlier attempts went against the expectation, and the check
  passed if and only if the last observation is the expected one.\<close>

theorem result_of_last_attempt:
  assumes "ForSpec reg spec = Some chk" and "executeCheck N reg spec s = (Some r, t)"
  shows "\<exists>rs u. attempt_run N (ck_Check chk spec) (retryDelay spec) rs s u
    \<and> int (length rs) \<le> retryAttempts spec
    \<and> (\<forall>q \<in> set (butlast rs). observed_string (observe q) \<noteq> expected_string (expectedOutcome spec))
    \<and> res_Observed r = observe (List.last rs)
    \<and> res_Passed r = (observed_string (observe (List.last rs)) = expected_string (expectedOutcome spec))
    \<and> loop_end N (expected_string (expectedOutcome spec)) (retryAttempts spec) (retryDelay spec) 0 rs u (res_Attempts r) t"
proof -
  from executeCheck_known [OF assms] obtain res n where
    l: "retryLoop N (ck_Check chk spec) (expected_string (expectedOutcome spec)) (retryAttempts spec)
       (retryDelay spec) 0 s = (Some (res, observe res, n), t)"
    and r: "res_Passed r = meets (expected_string (expectedOutcome spec)) res" "res_Observed r = observe res"
      "res_Attempts r = n" by (metis CheckResult.select_convs(2,3,4))
  from retryLoop_attempts [OF l] retryAttempts_pos [of spec] show ?thesis
    unfolding r by (auto simp: meets_def)
qed

theorem result_of_last_attempt_witness:
  "\<exists>r t rs. executeCheck scriptNet (standardRegistry scriptNet guardedOpts) webSpec webCtx = (Some r, t)
     \<and> length rs \<le> 3 \<and> res_Passed r = (observe (List.last rs) = ObservedSuccess)"
proof -
  obtain r t where e: "executeCheck scriptNet (standardRegistry scriptNet guardedOpts) webSpec webCtx = (Some r, t)"
    using script.execute_total by (metis option.exhaust prod.collapse)
  have "ForSpec (standardRegistry scriptNet guardedOpts) webSpec = Some (NewHTTPChecker scriptNet guardedOpts)"
    by (simp add: ForSpec_standard webSpec_def)
  from result_of_last_attempt [OF this e] obtain rs where
    rs: "int (length rs) \<le> retryAttempts webSpec"
      "res_Passed r = (observed_string (observe (List.last rs)) = expected_string (expectedOutcome webSpec))" by blast
  have "observed_string ob = ''Success'' \<longleftrightarrow> ob = ObservedSuccess" for ob by (cases ob) simp_all
  with rs have "length rs \<le> 3 \<and> res_Passed r = (observe (List.last rs) = ObservedSuccess)"
    by (simp add: webSpec_def retryAttempts_def expectedOutcome_def)
  with e show ?thesis by blast
qed

text \<open>Note: a result keeps the limits of its type: between one attempt and the configured maximum, a
  message of at most 1024 bytes, the name of its check.\<close>

theorem result_within_limits:
  assumes "executeCheck N reg spec s = (Some r, t)"
  shows "1 \<le> res_Attempts r \<and> res_Attempts r \<le> (case chk_Retries spec of None \<Rightarrow> 1 | Some rp \<Rightarrow> max 1 (rp_Attempts rp))
    \<and> length (res_Message r) \<le> 1024 \<and> res_Name r = chk_Name spec"
  using executeCheck_bounds [OF assms] executeCheck_name [OF assms]
  by (auto simp: retryAttempts_def maxMessageLength_def max_def split: option.splits if_splits)

theorem result_within_limits_witness:
  "\<exists>r t. executeCheck scriptNet (standardRegistry scriptNet guardedOpts) webSpec webCtx = (Some r, t)
     \<and> res_Attempts r \<le> 3 \<and> res_Name r = ''web''"
proof -
  obtain r t where e: "executeCheck scriptNet (standardRegistry scriptNet guardedOpts) webSpec webCtx = (Some r, t)"
    using script.execute_total by (metis option.exhaust prod.collapse)
  from result_within_limits [OF this] have "res_Attempts r \<le> 3 \<and> res_Name r = ''web''"
    by (simp add: webSpec_def)
  with e show ?thesis by blast
qed



end
