(* ===== verification/CheckRun_Properties.thy ===== *)
theory CheckRun_Properties
  imports Cluster
begin

text \<open>
  Properties of the CheckRun controller and of its metrics, with witnesses on the sample objects of
  \<open>Cluster\<close>. The facts behind them are in \<open>CheckRun_Controller\<close> and \<open>Metrics\<close>.
\<close>

section \<open>One pass\<close>

text \<open>C1: a pass over a run that has not ended, on a server that answers: its requests, from the first to the last,
  are the read of the run, the look at the service account where the start is not recorded yet, for each runner
  in turn the read of its Job and the creation of the one \<open>buildJob\<close> makes where there is none, and one status
  document, that of the specified phase over the Jobs there are then; besides these it only reads the suite and
  records events and metrics. Other Jobs stay as they are, and it asks to be called again only for a run that
  goes on.\<close>

theorem pass_writes_specified_phase:
  assumes "run_server look K P"
    and "\<not> isTerminalPhase (run_Phase run)"
    and "k_get_run K (meta_key (run_Meta run)) (world s) = (Inr run, world s)"
    and "k_get_sa K (run_Namespace run, runnerServiceAccount r) (world s) = (None, world s)"
  shows "\<exists>d jobs t0 t st.
    CheckRun_Reconcile K P r (meta_key (run_Meta run)) s = (Inr d, t)
    \<and> acts t0 = acts s @ [Req (GetRun (meta_key (run_Meta run)))]
        @ (if st_StartTime (run_Status run) \<noteq> None then []
           else [Req (GetServiceAccount (run_Namespace run, runnerServiceAccount r))])
        @ ensureActs P r run (runTimeout run) (tpl_Runners (run_Template run)) (dom (look (world s)))
    \<and> (\<forall>k. k \<notin> jobKey run ` set (tpl_Runners (run_Template run)) \<longrightarrow> look (world t0) k = look (world s) k)
    \<and> fst ` set jobs = rn_Name ` set (tpl_Runners (run_Template run))
    \<and> (\<forall>(n, j) \<in> set jobs. look (world t0) (run_Namespace run, jobName (run_Name run) n) = Some j)
    \<and> (\<forall>k j. look (world s) k = Some j \<longrightarrow> look (world t0) k = Some j)
    \<and> statusFor run (k_now K (world s)) (runTimeout run) jobs
        (specPhase run (k_now K (world s)) (runTimeout run) jobs) st
    \<and> writes P run st t0 t
    \<and> (specPhase run (k_now K (world s)) (runTimeout run) jobs \<noteq> CheckRunRunning \<longrightarrow> d = 0)"
  by (rule run_server.pass [OF assms]) blast

definition doneRun :: CheckRun where
  "doneRun = sampleRun ''demo'' CheckRunRunning [webPod True]"

definition doneCluster :: "time \<Rightarrow> cluster ctx" where
  "doneCluster now = sampleCluster now [doneRun] (sampleSuite AllowConcurrent '''') [completeJob]"

lemma doneRun_key: "meta_key (run_Meta doneRun) = (''prod'', ''demo'')"
  by (simp add: doneRun_def sampleRun_def newMeta_def meta_key_def)

lemma doneRun_names: "run_Namespace doneRun = ''prod''" "run_Name doneRun = ''demo''"
  "tpl_Runners (run_Template doneRun) = [zoneRunner]" "\<not> isTerminalPhase (run_Phase doneRun)"
  by (simp_all add: doneRun_def sampleRun_def newMeta_def webTemplate_def isTerminalPhase_def)

lemma doneCluster_get:
  "k_get_run clusterKube (meta_key (run_Meta doneRun)) (world (doneCluster now)) = (Inr doneRun, world (doneCluster now))"
  by (simp add: clusterKube_def doneCluster_def sampleCluster_def look_run_def runKey_def found_def)

lemma doneCluster_sa:
  "k_get_sa clusterKube (run_Namespace doneRun, runnerServiceAccount sampleReconciler) (world (doneCluster now)) =
     (None, world (doneCluster now))"
  by (simp add: clusterKube_def doneCluster_def sampleCluster_def doneRun_names runnerServiceAccount_def
      sampleReconciler_def DefaultRunnerServiceAccount_def)

lemma doneCluster_job: "look_job (world (doneCluster now)) (''prod'', jobName ''demo'' ''zone-a'') = Some completeJob"
  by (simp add: doneCluster_def sampleCluster_def look_job_def meta_key_def completeJob_def newMeta_def jobName_short)

lemma doneRun_passed: "reported doneRun" "assignments doneRun = [(zoneRunner, webSpec)]" "assignmentPassed doneRun (zoneRunner, webSpec)"
  by (simp_all add: reported_def assignments_def podsByRunner_def podPassed_def doneRun_def sampleRun_def
      webTemplate_def zoneRunner_def webSpec_def webPod_def FilterChecks_def)

theorem pass_writes_specified_phase_witness:
  "\<exists>t0 t st. CheckRun_Reconcile clusterKube refPkgs sampleReconciler (''prod'', ''demo'') (doneCluster Minute) = (Inr 0, t)
     \<and> acts t0 = [Req (GetRun (''prod'', ''demo'')), Req (GetJob (''prod'', ''demo-zone-a''))]
     \<and> cs_phase st = CheckRunSucceeded \<and> writes refPkgs doneRun st t0 t"
proof -
  let ?now = "k_now clusterKube (world (doneCluster Minute))"
  from pass_writes_specified_phase [OF server.run_server_axioms doneRun_names(4) doneCluster_get doneCluster_sa, of Minute]
  obtain d jobs t0 t st where
    r: "CheckRun_Reconcile clusterKube refPkgs sampleReconciler (meta_key (run_Meta doneRun)) (doneCluster Minute) = (Inr d, t)"
    and trace: "acts t0 = acts (doneCluster Minute) @ [Req (GetRun (meta_key (run_Meta doneRun)))]
        @ (if st_StartTime (run_Status doneRun) \<noteq> None then []
           else [Req (GetServiceAccount (run_Namespace doneRun, runnerServiceAccount sampleReconciler))])
        @ ensureActs refPkgs sampleReconciler doneRun (runTimeout doneRun) (tpl_Runners (run_Template doneRun))
            (dom (look_job (world (doneCluster Minute))))"
    and j0: "fst ` set jobs = rn_Name ` set (tpl_Runners (run_Template doneRun))"
      "\<forall>(n, j) \<in> set jobs. look_job (world t0) (run_Namespace doneRun, jobName (run_Name doneRun) n) = Some j"
      "\<forall>k j. look_job (world (doneCluster Minute)) k = Some j \<longrightarrow> look_job (world t0) k = Some j"
    and st: "statusFor doneRun ?now (runTimeout doneRun) jobs (specPhase doneRun ?now (runTimeout doneRun) jobs) st"
      "writes refPkgs doneRun st t0 t" "specPhase doneRun ?now (runTimeout doneRun) jobs \<noteq> CheckRunRunning \<longrightarrow> d = 0"
    by (elim exE conjE) (rule that)
  have j: "fst ` set jobs = {''zone-a''}"
      "\<forall>(n, j) \<in> set jobs. look_job (world t0) (''prod'', jobName ''demo'' n) = Some j"
    using j0(1,2) unfolding doneRun_names by (simp_all add: zoneRunner_def)
  have stored: "look_job (world t0) (''prod'', jobName ''demo'' ''zone-a'') = Some completeJob"
    by (rule j0(3) [rule_format]) (rule doneCluster_job)
  have jobs: "job = completeJob" if "(n, job) \<in> set jobs" for n job
  proof -
    have "n \<in> fst ` set jobs" using that by (rule image_eqI [rotated]) simp
    then have "n = ''zone-a''" unfolding j(1) by simp
    moreover have "look_job (world t0) (''prod'', jobName ''demo'' n) = Some job" using j(2) that by blast
    ultimately show ?thesis using stored by simp
  qed
  have now: "k_now clusterKube (world (doneCluster Minute)) = Minute" "runTimeout doneRun = 10 * Minute"
    by (simp_all add: clusterKube_def doneCluster_def sampleCluster_def runTimeout_def doneRun_def sampleRun_def
        webTemplate_def defaultRunTimeout_def)
  have job: "\<not> jobFailed completeJob" "jobSucceeded completeJob"
    by (simp_all add: completeJob_def jobFailed_def jobSucceeded_def)
  have "\<not> (\<exists>(n, j) \<in> set jobs. jobFailed j)" "\<forall>(n, j) \<in> set jobs. jobSucceeded j"
    using jobs job by blast+
  moreover have start: "st_StartTime (run_Status doneRun) = Some 0" by (simp add: doneRun_def sampleRun_def)
  ultimately have "specPhase doneRun Minute (10 * Minute) jobs = CheckRunSucceeded"
    using doneRun_passed by (simp add: specPhase_def time_add_def)
  moreover have "acts t0 = [Req (GetRun (''prod'', ''demo'')), Req (GetJob (''prod'', ''demo-zone-a''))]"
    using trace start doneCluster_job [of Minute] unfolding doneRun_key doneRun_names
    by (simp add: jobKey_def doneRun_names zoneRunner_def jobName_short domI doneCluster_def sampleCluster_def)
  ultimately show ?thesis using r st statusFor_phase [OF st(1)] unfolding now doneRun_key by auto
qed

text \<open>C13: whatever the server answers, a pass over a run does nothing but read that run, its service
  account, its suite and the Jobs of its runners, create those Jobs as \<open>buildJob\<close> makes them,
  apply status documents of that run as the controller's field manager, and record events of
  that run and metrics that fit their collectors. It deletes nothing.\<close>

theorem pass_actions_bounded:
  assumes "ranges (p_range_jobs P)" and "k_get_run K req (world s) = (Inr run, w)"
    and "CheckRun_Reconcile K P r req s = (out, t)"
  shows "\<exists>new. acts t = acts s @ new \<and> (\<forall>a \<in> set new. runAction P r req run a)"
  using Reconcile_runAction [OF assms(1) perform_eq [of "k_get_run K req", OF assms(2)], of r] assms(3) by (simp add: issues_set)

theorem pass_actions_bounded_witness:
  "Req (DeleteRun (''prod'', ''demo'')) \<notin> set (acts (snd (CheckRun_Reconcile clusterKube refPkgs sampleReconciler
     (meta_key (run_Meta doneRun)) (doneCluster Minute))))"
proof -
  have "ranges (p_range_jobs refPkgs)" by simp
  from pass_actions_bounded [OF this doneCluster_get surjective_pairing, of sampleReconciler]
  show ?thesis by (fastforce simp: doneCluster_def sampleCluster_def)
qed

text \<open>Note: a run in a terminal phase is read and left alone: no other request, no event, no metric, and
  no further pass is asked for.\<close>

theorem terminal_run_left_alone:
  assumes "k_get_run K req (world s) = (Inr run, w)" and "isTerminalPhase (run_Phase run)"
  shows "CheckRun_Reconcile K P r req s = (Inr 0, s\<lparr>world := w, acts := acts s @ [Req (GetRun req)]\<rparr>)"
  using assms(2) by (simp add: Reconcile_eq [OF perform_eq [of "k_get_run K req", OF assms(1)]])

theorem terminal_run_left_alone_witness:
  "fst (CheckRun_Reconcile (podKube (sampleRun ''demo'' CheckRunFailed [])) refPkgs sampleReconciler (''prod'', ''demo'') webCtx) = Inr 0"
proof -
  have "isTerminalPhase (run_Phase (sampleRun ''demo'' CheckRunFailed []))"
    by (simp add: isTerminalPhase_def sampleRun_def)
  then show ?thesis by (subst terminal_run_left_alone [OF podKube_simps(1)]) simp_all
qed

text \<open>Note: once the Jobs of a run are ensured, ensuring them again only reads them, one read per runner.\<close>

theorem jobs_created_once:
  assumes "job_store look K P" and "ensureJobs K P r run timeout rns jobs s = (Inr js, t)"
    and "look (world u) = look (world t)"
  shows "acts (snd (ensureJobs K P r run timeout rns jobs' u)) = acts u @ map (\<lambda>rn. Req (GetJob (jobKey run rn))) rns"
proof (rule job_store.ensure_again [OF assms(1)])
  show "\<forall>rn \<in> set rns. look (world u) (jobKey run rn) \<noteq> None"
    using job_store.ensure_store [OF assms(1), of r run timeout rns jobs s] assms(2,3) by auto
qed

theorem jobs_created_once_witness:
  "\<exists>t. acts (snd (ensureJobs clusterKube refPkgs sampleReconciler doneRun Minute [zoneRunner] [] t)) =
     acts t @ [Req (GetJob (jobKey doneRun zoneRunner))]"
proof -
  obtain js t where "ensureJobs clusterKube refPkgs sampleReconciler doneRun Minute [zoneRunner] []
      (sampleCluster 0 [] (sampleSuite AllowConcurrent '''') []) = (Inr js, t)"
    using jobs.ensure_store by blast
  from jobs_created_once [OF jobs.job_store_axioms this refl, of "[]"] show ?thesis
    by (intro exI [of _ t]) simp
qed

section \<open>The verdict\<close>

text \<open>C19: aggregation is incomplete while a runner has fewer pod entries than replicas; then its
  summary counts every pair of a runner and a check assigned to it once, as passed exactly if
  all pods of the runner passed it, and the messages name the failed pairs in order.\<close>

theorem aggregate_counts_assignments:
  "aggregate run =
     (if reported run
      then (True,
        \<lparr>sum_Total = int (length (assignments run)),
         sum_Passed = int (length (filter (assignmentPassed run) (assignments run))),
         sum_Failed = int (length (filter (\<lambda>p. \<not> assignmentPassed run p) (assignments run)))\<rparr>,
        map failedMessage (filter (\<lambda>p. \<not> assignmentPassed run p) (assignments run)))
      else (False, zeroSummary, []))"
  by (simp add: aggregate_eq countPairs_zero)

text \<open>C3: a pass writes the phase Succeeded only, and always, when the deadline has not passed, every
  Job is complete and none failed, and every runner has its pods with a passing first result, on
  each pod, for each check assigned to the runner.\<close>

theorem succeeded_means_all_passed:
  assumes "ranges (p_range_jobs P)" and "reconcileJobs K P run now timeout jobs s = (Inr d, t)"
  shows "\<exists>st. writes P run st s t \<and> (cs_phase st = CheckRunSucceeded \<longleftrightarrow>
     now \<le> deref (st_StartTime (run_Status run)) now + timeout
     \<and> (\<forall>(n, job) \<in> set jobs. jobSucceeded job \<and> \<not> jobFailed job)
     \<and> (\<forall>rn \<in> set (tpl_Runners (run_Template run)).
          deref (rn_Replicas rn) 1 \<le> int (length (podsByRunner run (rn_Name rn)))
          \<and> (\<forall>chk \<in> set (FilterChecks (tpl_Checks (run_Template run)) (rn_Name rn)).
               \<forall>pod \<in> set (podsByRunner run (rn_Name rn)).
                 \<exists>res. find (\<lambda>q. res_Name q = chk_Name chk) (pod_Checks pod) = Some res \<and> res_Passed res)))"
proof -
  from reconcileJobs_settles [OF assms(1), of run now timeout jobs s K] obtain st where
    st: "statusFor run now timeout jobs (specPhase run now timeout jobs) st" "writes P run st s t"
    by (auto simp: settles_def assms(2))
  have pod: "podPassed chk pod \<longleftrightarrow> (\<exists>res. find (\<lambda>q. res_Name q = chk_Name chk) (pod_Checks pod) = Some res \<and> res_Passed res)"
    for chk pod by (auto simp: podPassed_def split: option.split)
  have all: "(\<forall>p \<in> set (assignments run). assignmentPassed run p) \<longleftrightarrow>
      (\<forall>rn \<in> set (tpl_Runners (run_Template run)).
        \<forall>chk \<in> set (FilterChecks (tpl_Checks (run_Template run)) (rn_Name rn)).
          \<forall>pod \<in> set (podsByRunner run (rn_Name rn)). podPassed chk pod)"
    by (auto simp: assignments_def list_all_iff)
  have "cs_phase st = specPhase run now timeout jobs" using st(1) by (rule statusFor_phase)
  moreover have "specPhase run now timeout jobs = CheckRunSucceeded \<longleftrightarrow>
      now \<le> deref (st_StartTime (run_Status run)) now + timeout
      \<and> (\<forall>(n, job) \<in> set jobs. jobSucceeded job \<and> \<not> jobFailed job)
      \<and> reported run \<and> (\<forall>p \<in> set (assignments run). assignmentPassed run p)"
    by (auto simp: specPhase_def time_add_def)
  ultimately show ?thesis using st(2) unfolding all pod reported_def list_all_iff
    by (intro exI [of _ st]) (simp add: ball_conj_distrib)
qed

theorem succeeded_means_all_passed_witness:
  "\<exists>st t. writes refPkgs doneRun st (doneCluster Minute) t \<and> cs_phase st = CheckRunSucceeded"
proof -
  obtain d t where "reconcileJobs clusterKube refPkgs doneRun Minute (10 * Minute) [(''zone-a'', completeJob)]
      (doneCluster Minute) = (Inr d, t)"
    using server.reconcileJobs_ok by (metis prod.collapse)
  from succeeded_means_all_passed [OF _ this] show ?thesis
    by (auto simp: doneRun_def sampleRun_def webTemplate_def zoneRunner_def webSpec_def webPod_def FilterChecks_def
        podsByRunner_def completeJob_def jobFailed_def jobSucceeded_def)
qed

section \<open>Error paths and conditions\<close>

text \<open>Note: once the Jobs are ensured, a run that is past its deadline ends in the phase Error with the
  condition DeadlineExceeded and is not looked at again, whatever its Jobs and results say.\<close>

theorem deadline_ends_run:
  assumes "run_server look K P" and "condition_list (p_set_condition P)"
    and "deref (st_StartTime (run_Status run)) now + timeout < now"
  shows "\<exists>t st. reconcileJobs K P run now timeout jobs s = (Inr 0, t) \<and> writes P run st s t
    \<and> cs_phase st = CheckRunError \<and> cs_completionTime st = Some now \<and> cs_summary st = None
    \<and> find_condition (st_Conditions (newStatus P run st)) ConditionDeadlineExceeded =
        Some \<lparr>cond_Type = ConditionDeadlineExceeded, cond_Status = ConditionTrue,
              cond_ObservedGeneration = om_Generation (run_Meta run), cond_Reason = ''Timeout'',
              cond_Message = deadlineMessage timeout\<rparr>"
proof -
  obtain d t where r: "reconcileJobs K P run now timeout jobs s = (Inr d, t)"
    using run_server.reconcileJobs_ok [OF assms(1)] by (metis prod.collapse)
  have ranges: "ranges (p_range_jobs P)" using assms(1) by (rule run_server.range_jobs)
  have phase: "specPhase run now timeout jobs = CheckRunError"
    using assms(3) by (simp add: specPhase_def time_add_def)
  from reconcileJobs_settles [OF ranges, of run now timeout jobs s K] obtain st where
    st: "errorStatus run now timeout jobs st" "writes P run st s t" "d = 0"
    by (auto simp: settles_def r phase)
  then have eq: "st = finishStatus run CheckRunError now None
      (conditionTrue ConditionDeadlineExceeded ''Timeout'' (deadlineMessage timeout))"
    using assms(3) by (auto simp: errorStatus_def time_add_def)
  have "find_condition (st_Conditions (newStatus P run st)) ConditionDeadlineExceeded =
        Some \<lparr>cond_Type = ConditionDeadlineExceeded, cond_Status = ConditionTrue,
              cond_ObservedGeneration = om_Generation (run_Meta run), cond_Reason = ''Timeout'',
              cond_Message = deadlineMessage timeout\<rparr>"
    unfolding eq by (simp add: finish_conditions [OF assms(2)] conditionTrue_def ConditionDeadlineExceeded_def
        ConditionCompleted_def)
  then show ?thesis using r st(2,3) by (intro exI [of _ t] exI [of _ st]) (simp add: eq finishStatus_def)
qed

theorem deadline_ends_run_witness:
  "fst (reconcileJobs clusterKube refPkgs doneRun (11 * Minute) (10 * Minute) [(''zone-a'', completeJob)]
     (doneCluster (11 * Minute))) = Inr 0"
proof -
  have "condition_list (p_set_condition refPkgs)" by (simp add: upsert.condition_list_axioms)
  from deadline_ends_run [OF server.run_server_axioms this, of doneRun "11 * Minute" "10 * Minute"
      "[(''zone-a'', completeJob)]" "doneCluster (11 * Minute)"]
  show ?thesis by (auto simp: doneRun_def sampleRun_def)
qed

text \<open>C31: a run whose service account is missing ends in the phase Error with the condition that says
  so, and no Job is created for it.\<close>

theorem missing_account_ends_run:
  assumes "k_get_run K req (world s) = (Inr run, w)" and "\<not> isTerminalPhase (run_Phase run)"
    and "st_StartTime (run_Status run) = None"
    and "k_get_sa K (run_Namespace run, runnerServiceAccount r) w = (Some NotFound, w')"
    and "run_server look K P" and "condition_list (p_set_condition P)"
  shows "\<exists>new t st. CheckRun_Reconcile K P r req s = (Inr 0, t) \<and> acts t = acts s @ new
    \<and> (\<forall>job. Req (CreateJob job) \<notin> set new)
    \<and> (\<exists>u. writes P run st u t) \<and> cs_phase st = CheckRunError
    \<and> find_condition (st_Conditions (newStatus P run st)) ConditionRunnerServiceAccountMissing =
        Some \<lparr>cond_Type = ConditionRunnerServiceAccountMissing, cond_Status = ConditionTrue,
              cond_ObservedGeneration = om_Generation (run_Meta run), cond_Reason = ''ServiceAccountNotFound'',
              cond_Message = saMissingMessage r run\<rparr>"
proof -
  let ?sa = "(run_Namespace run, runnerServiceAccount r)" and ?now = "k_now K w"
  let ?c = "conditionTrue ConditionRunnerServiceAccountMissing ''ServiceAccountNotFound'' (saMissingMessage r run)"
  let ?s1 = "s\<lparr>world := w, acts := acts s @ [Req (GetRun req)]\<rparr>"
  let ?s2 = "?s1\<lparr>world := w', acts := acts ?s1 @ [Req (GetServiceAccount ?sa)]\<rparr>"
  let ?s3 = "warning run ''RunnerServiceAccountMissing'' (Sprintf ''%s'' [AMsg (saMissingMessage r run)]) ?s2"
  have "perform (Req (GetServiceAccount ?sa)) (k_get_sa K ?sa) ?s1 = (Some NotFound, ?s2)"
    by (rule perform_eq) (simp add: assms(4))
  then have eq: "CheckRun_Reconcile K P r req s = finish K P run CheckRunError ?now None ?c ?s3"
    using assms(2,3) by (simp add: Reconcile_eq [OF perform_eq [of "k_get_run K req", OF assms(1)]] Let_def)
  obtain t where f: "finish K P run CheckRunError ?now None ?c ?s3 = (Inr 0, t)"
    using run_server.finish_ok [OF assms(5), of run CheckRunError ?now None ?c ?s3] by (metis prod.collapse)
  have w: "writes P run (finishStatus run CheckRunError ?now None ?c) ?s3 t"
    using finish_writes [OF f] by blast
  then obtain new where new: "acts t = acts ?s3 @ new" "\<forall>job. Req (CreateJob job) \<notin> set new" by (rule writes_no_job)
  have cond: "find_condition (st_Conditions (newStatus P run (finishStatus run CheckRunError ?now None ?c)))
      ConditionRunnerServiceAccountMissing =
        Some \<lparr>cond_Type = ConditionRunnerServiceAccountMissing, cond_Status = ConditionTrue,
              cond_ObservedGeneration = om_Generation (run_Meta run), cond_Reason = ''ServiceAccountNotFound'',
              cond_Message = saMissingMessage r run\<rparr>"
    by (simp add: finish_conditions [OF assms(6)] conditionTrue_def ConditionRunnerServiceAccountMissing_def
        ConditionCompleted_def)
  let ?new = "[Req (GetRun req), Req (GetServiceAccount ?sa), runEvent run EventTypeWarning ''RunnerServiceAccountMissing''
      (Sprintf ''%s'' [AMsg (saMissingMessage r run)])] @ new"
  have acts: "acts t = acts s @ ?new" using new(1) by (simp add: warning_def)
  have nojob: "\<forall>job. Req (CreateJob job) \<notin> set ?new" using new(2) by (simp add: runEvent_def)
  have phase: "cs_phase (finishStatus run CheckRunError ?now None ?c) = CheckRunError" by (simp add: finishStatus_def)
  show ?thesis unfolding eq f
    by (rule exI [of _ ?new], rule exI [of _ t], rule exI [of _ "finishStatus run CheckRunError ?now None ?c"])
      (intro conjI refl acts nojob exI [of _ ?s3] w phase cond)
qed

definition freshRun :: CheckRun where
  "freshRun = doneRun\<lparr>run_Status := (run_Status doneRun)\<lparr>st_StartTime := None\<rparr>\<rparr>"

text \<open>The sample reconciler with an account the cluster does not have.\<close>

definition strayReconciler :: CheckRunReconciler where
  "strayReconciler = sampleReconciler\<lparr>rc_RunnerServiceAccount := ''stray''\<rparr>"

theorem missing_account_ends_run_witness:
  "\<exists>t st u. CheckRun_Reconcile clusterKube refPkgs strayReconciler (''prod'', ''demo'')
       (sampleCluster Minute [freshRun] (sampleSuite AllowConcurrent '''') []) = (Inr 0, t)
     \<and> writes refPkgs freshRun st u t \<and> cs_phase st = CheckRunError"
proof -
  let ?s = "sampleCluster Minute [freshRun] (sampleSuite AllowConcurrent '''') []"
  have "k_get_run clusterKube (''prod'', ''demo'') (world ?s) = (Inr freshRun, world ?s)"
    by (simp add: clusterKube_def sampleCluster_def look_run_def runKey_def meta_key_def found_def freshRun_def doneRun_names)
  moreover have "\<not> isTerminalPhase (run_Phase freshRun)" "st_StartTime (run_Status freshRun) = None"
    using doneRun_names(4) by (simp_all add: freshRun_def)
  moreover have "k_get_sa clusterKube (run_Namespace freshRun, runnerServiceAccount strayReconciler) (world ?s) =
      (Some NotFound, world ?s)"
    by (simp add: clusterKube_def sampleCluster_def runnerServiceAccount_def strayReconciler_def)
  moreover have "condition_list (p_set_condition refPkgs)" by (simp add: upsert.condition_list_axioms)
  ultimately show ?thesis
    using missing_account_ends_run [of clusterKube "(''prod'', ''demo'')" ?s freshRun "world ?s" strayReconciler "world ?s",
        OF _ _ _ _ server.run_server_axioms] by blast
qed

text \<open>Note: when the server refuses a Job (say, as invalid), a pass ends with that error right after
  the refused create: no status is applied, so no start time is recorded, and since the deadline
  counts from it the run is retried without ever reaching its deadline.\<close>

theorem refused_job_records_nothing:
  assumes "k_get_run K req (world s) = (Inr run, w)" and "\<not> isTerminalPhase (run_Phase run)"
    and "st_StartTime (run_Status run) = None"
    and "k_get_sa K (run_Namespace run, runnerServiceAccount r) w = (None, w)"
    and "tpl_Runners (run_Template run) = rn # rns" and "k_get_job K (jobKey run rn) w = (Inl NotFound, w)"
    and "buildJob P r run rn (runTimeout run) = Inr job" and "k_create_job K job w = (Inl (ApiError e), w')"
  shows "CheckRun_Reconcile K P r req s = (Inl (ApiError e), s\<lparr>world := w', acts := acts s @
     [Req (GetRun req), Req (GetServiceAccount (run_Namespace run, runnerServiceAccount r)),
      Req (GetJob (jobKey run rn)), Req (CreateJob job)]\<rparr>)"
  using assms(2-)
  by (simp add: Reconcile_eq [OF perform_eq [of "k_get_run K req", OF assms(1)]] perform_def Let_def
      ensureAndSettle_def jobKey_def)

theorem refused_job_records_nothing_witness:
  "fst (CheckRun_Reconcile (clusterKube\<lparr>k_create_job := \<lambda>j w. (Inl (ApiError ''invalid''), w)\<rparr>) refPkgs sampleReconciler
     (''prod'', ''demo'') (sampleCluster Minute [freshRun] (sampleSuite AllowConcurrent '''') [])) = Inl (ApiError ''invalid'')"
proof -
  let ?s = "sampleCluster Minute [freshRun] (sampleSuite AllowConcurrent '''') []"
  let ?K = "clusterKube\<lparr>k_create_job := \<lambda>j w. (Inl (ApiError ''invalid''), w)\<rparr>"
  obtain job where job: "buildJob refPkgs sampleReconciler freshRun zoneRunner (runTimeout freshRun) = Inr job"
    using jobs.build_key by blast
  have "k_get_run ?K (''prod'', ''demo'') (world ?s) = (Inr freshRun, world ?s)"
    by (simp add: clusterKube_def sampleCluster_def look_run_def runKey_def meta_key_def found_def freshRun_def doneRun_names)
  moreover have "\<not> isTerminalPhase (run_Phase freshRun)" "st_StartTime (run_Status freshRun) = None"
    "tpl_Runners (run_Template freshRun) = [zoneRunner]"
    using doneRun_names(3,4) by (simp_all add: freshRun_def)
  moreover have "k_get_sa ?K (run_Namespace freshRun, runnerServiceAccount sampleReconciler) (world ?s) = (None, world ?s)"
    by (simp add: clusterKube_def sampleCluster_def runnerServiceAccount_def sampleReconciler_def freshRun_def
        doneRun_names DefaultRunnerServiceAccount_def)
  moreover have "k_get_job ?K (jobKey freshRun zoneRunner) (world ?s) = (Inl NotFound, world ?s)"
    by (simp add: clusterKube_def sampleCluster_def look_job_def found_def)
  ultimately show ?thesis
    using refused_job_records_nothing [of ?K "(''prod'', ''demo'')" ?s freshRun "world ?s" sampleReconciler zoneRunner "[]" refPkgs job]
      job by simp
qed

text \<open>Note: the conditions after a run has ended: Completed is true with the phase as its reason, the
  extra condition is there unless it has the same type, every other condition is as before,
  and each type still occurs once.\<close>

theorem finished_conditions:
  assumes "condition_list (p_set_condition P)" and "distinct (map cond_Type (st_Conditions (run_Status run)))"
  shows "distinct (map cond_Type (st_Conditions (newStatus P run (finishStatus run phase now sm c))))
    \<and> find_condition (st_Conditions (newStatus P run (finishStatus run phase now sm c))) t =
     (if t = ConditionCompleted then Some (completedCondition run phase)
      else if cond_Type c \<noteq> '''' \<and> t = cond_Type c
      then Some (c\<lparr>cond_ObservedGeneration := om_Generation (run_Meta run)\<rparr>)
      else find_condition (st_Conditions (run_Status run)) t)"
  using newStatus_distinct [OF assms] finish_conditions [OF assms(1)] by blast

theorem finished_conditions_witness:
  "find_condition (st_Conditions (newStatus refPkgs doneRun (finishStatus doneRun CheckRunSucceeded Minute None noCondition)))
     ConditionCompleted = Some (completedCondition doneRun CheckRunSucceeded)"
proof -
  have "condition_list (p_set_condition refPkgs)" by (simp add: upsert.condition_list_axioms)
  from finished_conditions [OF this, of doneRun] show ?thesis by (simp add: doneRun_def sampleRun_def)
qed

text \<open>Note: a run that ends because a Job failed does not keep the reason RunnerError that the handler
  gives its Completed condition: the general condition of the same type, set after it, takes its
  place, so the stored reason is Error and the message that names the runner is gone.\<close>

theorem runner_error_reason_replaced:
  assumes "condition_list (p_set_condition P)"
  shows "find_condition (st_Conditions (newStatus P run (finishStatus run CheckRunError now None
       (conditionTrue ConditionCompleted ''RunnerError'' (Sprintf ''runner %s could not execute checks'' [AStr rn])))))
     ConditionCompleted =
     Some \<lparr>cond_Type = ConditionCompleted, cond_Status = ConditionTrue,
       cond_ObservedGeneration = om_Generation (run_Meta run), cond_Reason = ''Error'',
       cond_Message = Sprintf ''run finished with phase %s'' [AStr ''Error'']\<rparr>"
  by (simp add: finish_conditions [OF assms] completedCondition_def)

theorem runner_error_reason_replaced_witness:
  "find_condition (st_Conditions (newStatus refPkgs doneRun (finishStatus doneRun CheckRunError Minute None
       (conditionTrue ConditionCompleted ''RunnerError'' (Sprintf ''runner %s could not execute checks'' [AStr ''zone-a''])))))
     ConditionCompleted =
     Some \<lparr>cond_Type = ConditionCompleted, cond_Status = ConditionTrue, cond_ObservedGeneration = 1,
       cond_Reason = ''Error'', cond_Message = Sprintf ''run finished with phase %s'' [AStr ''Error'']\<rparr>"
proof -
  have "condition_list (p_set_condition refPkgs)" by (simp add: upsert.condition_list_axioms)
  from runner_error_reason_replaced [OF this, of doneRun Minute "''zone-a''"]
  show ?thesis by (simp add: doneRun_def sampleRun_def newMeta_def)
qed

section \<open>Gauges\<close>

text \<open>C35: after the metrics of a completed run are recorded, the suite has a verdict gauge for exactly
  the checks with a reported result, 1 if every reported result of the check passed and 0
  otherwise, and the completion gauge has the time in whole seconds.\<close>

theorem verdict_gauges_recorded:
  assumes "gauge_registry val app" and "ranges (p_range_results P)" and "acts s = []"
  shows "let m' = fold app (metric_ops (acts (recordVerdicts P run completedAt s))) m in
    val m' CheckLastResult [run_Namespace run, runSuiteName run, c] =
     (if c \<in> res_Name ` set (allResults run)
      then Some (if \<forall>res \<in> set (allResults run). res_Name res = c \<longrightarrow> res_Passed res then 1 else 0)
      else None)
    \<and> val m' CheckRunLastCompletion [run_Namespace run, runSuiteName run] = Some (completedAt div 1000000000)"
  using gauge_registry.verdict_gauges(1) [OF assms(1,2), of run completedAt m c]
    gauge_registry.verdict_gauges(2) [OF assms(1,2), of run completedAt m] assms(3)
  by (simp add: recordVerdicts_ops Let_def metric_ops_map_Met [where f = "\<lambda>x. x", simplified] unix_def)

theorem verdict_gauges_recorded_witness:
  "gauge_val (fold gauge_app (metric_ops (acts (recordVerdicts refPkgs (sampleRun ''demo'' CheckRunRunning [webPod True, webPod False])
     Minute webCtx))) Map.empty) CheckLastResult [''prod'', ''demo'', ''web''] = Some 0"
proof -
  let ?run = "sampleRun ''demo'' CheckRunRunning [webPod True, webPod False]"
  have "ranges (p_range_results refPkgs)" and "acts webCtx = []" by (simp_all add: webCtx_def)
  from verdict_gauges_recorded [OF gauges.gauge_registry_axioms this, of ?run Minute Map.empty "''web''", unfolded Let_def]
  show ?thesis by (simp add: sampleRun_def newMeta_def runSuiteName_def allResults_def webPod_def)
qed

text \<open>Note: replacing and dropping a suite's gauges does not touch another suite: \<open>SetLastResults\<close>
  leaves exactly the given results for its suite, \<open>DeleteSuite\<close> none and no completion time,
  and the gauges of every other suite read as before.\<close>

theorem suite_gauges_isolated:
  assumes "gauge_registry val app" and "distinct (map fst rs)" and "acts s = []"
  shows "let m1 = fold app (metric_ops (acts (SetLastResults ns suite rs s))) m;
        m2 = fold app (metric_ops (acts (DeleteSuite ns suite s))) m in
    val m1 CheckLastResult [ns, suite, c] = map_option (\<lambda>p. if p then 1 else 0) (map_of rs c)
    \<and> val m2 CheckLastResult [ns, suite, c] = None \<and> val m2 CheckRunLastCompletion [ns, suite] = None
    \<and> ((ns', suite') \<noteq> (ns, suite) \<longrightarrow>
        val m1 CheckLastResult [ns', suite', c] = val m CheckLastResult [ns', suite', c]
        \<and> val m2 CheckLastResult [ns', suite', c] = val m CheckLastResult [ns', suite', c]
        \<and> val m2 CheckRunLastCompletion [ns', suite'] = val m CheckRunLastCompletion [ns', suite'])"
proof -
  have m: "metric_ops (acts (SetLastResults ns suite rs s)) = last_result_ops ns suite rs"
    "metric_ops (acts (DeleteSuite ns suite s)) = delete_suite_ops ns suite"
    using assms(3) by (simp_all add: SetLastResults_emits DeleteSuite_emits
        metric_ops_map_Met [where f = "\<lambda>x. x", simplified])
  show ?thesis unfolding m Let_def
    using gauge_registry.last_results_own [OF assms(1,2), of ns suite m c]
      gauge_registry.last_results_other [OF assms(1), of CheckLastResult ns' ns suite' suite "[c]" rs m]
      gauge_registry.deleted_suite [OF assms(1), of CheckLastResult "[c]" ns suite m]
      gauge_registry.deleted_suite [OF assms(1), of CheckRunLastCompletion "[]" ns suite m] by auto
qed

theorem suite_gauges_isolated_witness:
  "gauge_val (fold gauge_app (metric_ops (acts (SetLastResults ''prod'' ''demo'' [(''web'', False)] webCtx)))
     [(CheckLastResult, [''prod'', ''other'', ''web'']) \<mapsto> 1]) CheckLastResult [''prod'', ''other'', ''web''] = Some 1"
proof -
  have "distinct (map fst [(''web'', False)])" and "acts webCtx = []" by (simp_all add: webCtx_def)
  from suite_gauges_isolated [OF gauges.gauge_registry_axioms this, of "''prod''" "''demo''"
      "[(CheckLastResult, [''prod'', ''other'', ''web'']) \<mapsto> 1]" "''web''" "''prod''" "''other''", unfolded Let_def]
  show ?thesis by (simp add: gauge_val_def)
qed

definition gapRun :: CheckRun where
  "gapRun = sampleRun ''demo'' CheckRunRunning [webPod True, (webPod True)\<lparr>pod_Checks := []\<rparr>]"

text \<open>Note: the gauge and the verdict can disagree: when a pod of the runner reports no result for a
  check, the check counts as failed in the summary while its gauge, which only looks at reported
  results, reads 1.\<close>

theorem missing_result_gauge_reads_pass:
  "(case aggregate gapRun of (complete, summary, failing) \<Rightarrow> complete \<and> sum_Failed summary = 1)
    \<and> gauge_val (fold gauge_app (metric_ops (acts (recordVerdicts refPkgs gapRun Minute webCtx))) Map.empty)
        CheckLastResult [''prod'', ''demo'', ''web''] = Some 1"
proof
  show "case aggregate gapRun of (complete, summary, failing) \<Rightarrow> complete \<and> sum_Failed summary = 1"
    by (simp add: aggregate_eq countPairs_zero gapRun_def sampleRun_def reported_def assignments_def webTemplate_def
        zoneRunner_def webSpec_def webPod_def FilterChecks_def podsByRunner_def podPassed_def)
  show "gauge_val (fold gauge_app (metric_ops (acts (recordVerdicts refPkgs gapRun Minute webCtx))) Map.empty)
        CheckLastResult [''prod'', ''demo'', ''web''] = Some 1"
  proof -
    have "ranges (p_range_results refPkgs)" by simp
    from gauges.verdict_gauges(1) [OF this, of gapRun Minute Map.empty "''web''"]
    show ?thesis by (simp add: recordVerdicts_ops metric_ops_map_Met [where f = "\<lambda>x. x", simplified] webCtx_def
        gapRun_def sampleRun_def newMeta_def runSuiteName_def allResults_def webPod_def)
  qed
qed

end
