(* ===== verification/CheckSuite_Properties.thy ===== *)
theory CheckSuite_Properties
  imports Cluster
begin

text \<open>
  Properties of the CheckSuite controller, with witnesses on the sample objects of \<open>Cluster\<close>.
  The facts behind them are in \<open>CheckSuite_Controller\<close>.
\<close>

section \<open>Which runs a pass creates\<close>

text \<open>C8: a pass that succeeds asks for exactly the wanted runs, in this order: the manual run when
  the run-now annotation has a value that was not handled yet, and the run of the due tick when
  that tick is not older than the starting deadline and the policy is not Forbid with a run
  still active. Each is the suite's template under its own deterministic name.\<close>

theorem pass_creates_wanted_runs:
  assumes "k_get_suite K req (world s) = (Inr suite, w)"
    and "k_list_runs K (suite_Namespace suite) (listSelector suite) w = (Inr items, w')"
    and "\<And>name. p_own_run P suite (newRun suite name) = Inr (own name)"
    and "CheckSuite_Reconcile K P req s = (Inr d, t)"
  shows "\<exists>new. acts t = acts s @ new \<and> created new = map own (wantedRuns P suite items (k_now K w))"
proof -
  from reconcile_pass [OF assms(1,2), of P] obtain s2 where
    s2: "acts s2 = acts s @ [Req (GetSuite req), Req (ListRuns (suite_Namespace suite) (listSelector suite))]"
    and "suitePass K P suite (k_now K w) items s2 = (Inr d, t)"
    using assms(4) by metis
  from suitePass_creates [OF this(2) assms(3)]
  obtain new where "acts t = acts s2 @ new" "created new = map own (wantedRuns P suite items (k_now K w))"
    by (auto simp: creates_def)
  then show ?thesis using s2 by simp
qed

text \<open>The sample suite a minute and a half after its last scheduled tick.\<close>

definition suiteCtx :: "ConcurrencyPolicy \<Rightarrow> string \<Rightarrow> CheckRun list \<Rightarrow> cluster ctx" where
  "suiteCtx policy trigger runs = sampleCluster 90000000000 runs (sampleSuite policy trigger) []"

definition sampleItems :: "CheckRun list \<Rightarrow> CheckRun list" where
  "sampleItems runs = filter (\<lambda>run. run_Namespace run = ''prod'' \<and> om_Labels (run_Meta run) labelSuite = Some ''demo'') runs"

lemma sample_suite_get:
  "k_get_suite clusterKube (''prod'', ''demo'') (world (suiteCtx policy trigger runs)) =
     (Inr (sampleSuite policy trigger), world (suiteCtx policy trigger runs))"
  by (simp add: clusterKube_def suiteCtx_def sampleCluster_def sampleSuite_def newMeta_def meta_key_def found_def)

lemma sample_suite_names: "suite_Namespace (sampleSuite policy trigger) = ''prod''"
  "suite_Name (sampleSuite policy trigger) = ''demo''"
  by (simp_all add: sampleSuite_def newMeta_def)

lemma sample_suite_list:
  "k_list_runs clusterKube (suite_Namespace (sampleSuite policy trigger)) (listSelector (sampleSuite policy trigger))
     (world (suiteCtx policy trigger runs)) = (Inr (sampleItems runs), world (suiteCtx policy trigger runs))"
  by (simp add: clusterKube_def sample_suite_names listSelector_def label63_short sampleItems_def
      suiteCtx_def sampleCluster_def comp_def)

definition ownedRun :: "CheckSuite \<Rightarrow> string \<Rightarrow> CheckRun" where
  "ownedRun suite name = (newRun suite name)\<lparr>run_Meta :=
     (run_Meta (newRun suite name))\<lparr>om_Controller := Some (suiteOwner suite)\<rparr>\<rparr>"

lemma own_sample: "p_own_run refPkgs suite (newRun suite name) = Inr (ownedRun suite name)"
  by (simp add: ownedRun_def)

lemma sample_pass_ok:
  obtains d t where "CheckSuite_Reconcile clusterKube refPkgs (''prod'', ''demo'') (suiteCtx policy trigger runs) = (Inr d, t)"
  by (rule reconcile_pass [where P = refPkgs, OF sample_suite_get [of policy trigger runs] sample_suite_list])
    (metis suites.suitePass_answers prod.collapse that)

lemma sample_due:
  "dueTick refPkgs (sampleSuite policy trigger) 90000000000 (suite_Status (sampleSuite policy trigger)) = Some Minute"
  by (simp add: dueTick_def refPkgs_def sampleSuite_def mostRecentScheduleTime_def scanTicks.simps after_def
      everyNext_def maxMissedScans_def)

lemma sample_fires:
  "fires (sampleSuite policy trigger) active 90000000000 Minute \<longleftrightarrow> \<not> (policy = ForbidConcurrent \<and> active \<noteq> [])"
  by (simp add: fires_def startingDeadline_def sampleSuite_def defaultStartingDeadline_def time_sub_def)

lemma sample_triggered: "triggered (sampleSuite policy trigger) \<longleftrightarrow> trigger \<noteq> ''''"
  by (simp add: triggered_def runNow_def sampleSuite_def)

lemma sample_now: "k_now clusterKube (world (suiteCtx policy trigger runs)) = 90000000000"
  by (simp add: clusterKube_def suiteCtx_def sampleCluster_def)

lemma suite_acts: "acts (suiteCtx policy trigger runs) = []"
  by (simp add: suiteCtx_def sampleCluster_def)

lemmas sample_wanted = wantedRuns_def sample_due sample_fires sample_triggered

theorem pass_creates_wanted_runs_witness:
  "\<exists>d t. CheckSuite_Reconcile clusterKube refPkgs (''prod'', ''demo'') (suiteCtx AllowConcurrent '''' []) = (Inr d, t)
     \<and> created (acts t) = [ownedRun (sampleSuite AllowConcurrent '''') ''demo-60'']"
proof -
  obtain d t where r: "CheckSuite_Reconcile clusterKube refPkgs (''prod'', ''demo'') (suiteCtx AllowConcurrent '''' []) = (Inr d, t)"
    by (rule sample_pass_ok)
  from pass_creates_wanted_runs [OF sample_suite_get sample_suite_list own_sample r]
  have "created (acts t) = map (ownedRun (sampleSuite AllowConcurrent ''''))
      (wantedRuns refPkgs (sampleSuite AllowConcurrent '''') (sampleItems []) 90000000000)"
    by (auto simp: sample_now suite_acts)
  moreover have "scheduledRunName (sampleSuite AllowConcurrent '''') Minute = ''demo-60''"
  proof -
    have "itoa 60 = ''60''" by code_simp
    then show ?thesis by (simp add: scheduledRunName_def sample_suite_names unix_def label63_short)
  qed
  ultimately show ?thesis using r by (simp add: sample_wanted)
qed

text \<open>Note: with the policy Forbid the manual and the scheduled run of one pass both start: the check for
  active runs is on the runs listed before the manual one was created.\<close>

theorem forbid_starts_two_runs:
  "\<exists>d t. CheckSuite_Reconcile clusterKube refPkgs (''prod'', ''demo'') (suiteCtx ForbidConcurrent ''v1'' []) = (Inr d, t)
     \<and> length (created (acts t)) = 2"
proof -
  obtain d t where r: "CheckSuite_Reconcile clusterKube refPkgs (''prod'', ''demo'') (suiteCtx ForbidConcurrent ''v1'' []) = (Inr d, t)"
    by (rule sample_pass_ok)
  let ?suite = "sampleSuite ForbidConcurrent ''v1''"
  obtain s2 where "acts s2 = [Req (GetSuite (''prod'', ''demo'')),
      Req (ListRuns (suite_Namespace ?suite) (listSelector ?suite))]"
    and "suitePass clusterKube refPkgs ?suite 90000000000 (sampleItems []) s2 = (Inr d, t)"
    by (rule reconcile_pass [where P = refPkgs, OF sample_suite_get [of ForbidConcurrent "''v1''" "[]"] sample_suite_list])
      (simp add: r suite_acts sample_now)
  from suitePass_creates [OF this(2) own_sample] this(1) have "length (created (acts t)) =
      length (wantedRuns refPkgs ?suite (sampleItems []) 90000000000)"
    by (auto simp: creates_def suite_acts)
  then show ?thesis using r by (simp add: sample_wanted activeRuns_def suiteRuns_def sampleItems_def)
qed

text \<open>Note: nothing is created behind the user's back: without a new run-now value, a pass over a suite
  that is suspended or has no schedule, or whose policy is Forbid while a run is active, creates
  no run.\<close>

theorem held_back_creates_nothing:
  assumes "k_get_suite K req (world s) = (Inr suite, w)"
    and "k_list_runs K (suite_Namespace suite) (listSelector suite) w = (Inr items, w')"
    and "\<And>name. p_own_run P suite (newRun suite name) = Inr (own name)"
    and "CheckSuite_Reconcile K P req s = (Inr d, t)"
    and "\<not> triggered suite"
    and "ss_Suspend (suite_Spec suite) = Some True \<or> ss_Schedule (suite_Spec suite) = None
       \<or> ss_ConcurrencyPolicy (suite_Spec suite) = ForbidConcurrent \<and> activeRuns P suite items \<noteq> []"
  shows "\<exists>new. acts t = acts s @ new \<and> created new = []"
proof -
  from reconcile_pass [OF assms(1,2), of P] obtain s2 where
    s2: "acts s2 = acts s @ [Req (GetSuite req), Req (ListRuns (suite_Namespace suite) (listSelector suite))]"
    and "suitePass K P suite (k_now K w) items s2 = (Inr d, t)"
    using assms(4) by metis
  from suitePass_creates [OF this(2) assms(3)]
  obtain new where "acts t = acts s2 @ new" "created new = map own (wantedRuns P suite items (k_now K w))"
    by (auto simp: creates_def)
  moreover have "wantedRuns P suite items (k_now K w) = []"
    using assms(5,6) by (auto simp: wantedRuns_def dueTick_def fires_def split: option.split)
  ultimately show ?thesis using s2 by simp
qed

text \<open>An unfinished run of the sample suite.\<close>

definition activeRun :: CheckRun where
  "activeRun = sampleRun ''demo-0'' CheckRunRunning []"

theorem held_back_creates_nothing_witness:
  "\<exists>d t. CheckSuite_Reconcile clusterKube refPkgs (''prod'', ''demo'') (suiteCtx ForbidConcurrent '''' [activeRun]) = (Inr d, t)
     \<and> created (acts t) = []"
proof -
  obtain d t where r: "CheckSuite_Reconcile clusterKube refPkgs (''prod'', ''demo'') (suiteCtx ForbidConcurrent '''' [activeRun]) = (Inr d, t)"
    by (rule sample_pass_ok)
  have "sampleItems [activeRun] = [activeRun]"
    by (simp add: sampleItems_def activeRun_def sampleRun_def newMeta_def)
  moreover have "p_controlled_by refPkgs activeRun (sampleSuite ForbidConcurrent '''')" "isActive activeRun"
    by (simp_all add: refPkgs_def activeRun_def sampleRun_def newMeta_def sampleSuite_def isActive_def)
  ultimately have "activeRuns refPkgs (sampleSuite ForbidConcurrent '''') (sampleItems [activeRun]) \<noteq> []"
    by (simp add: activeRuns_def suiteRuns_def)
  moreover have "ss_ConcurrencyPolicy (suite_Spec (sampleSuite ForbidConcurrent '''')) = ForbidConcurrent"
    by (simp add: sampleSuite_def)
  ultimately show ?thesis
    using held_back_creates_nothing [OF sample_suite_get sample_suite_list own_sample r] r
    by (auto simp: sample_triggered suite_acts)
qed

section \<open>Ticks\<close>

text \<open>C32: the scan of a schedule with ticks returns the last tick between the last handled one and now,
  none if there is none, and the next tick after now, unless more than eighty ticks were missed.\<close>

theorem scan_finds_last_tick:
  assumes "schedule ticks nxt" and "earliest \<le> now" and "now < (nxt ^^ 81) earliest"
    and "mostRecentScheduleTime nxt earliest now = (lm, next, tooMany)"
  shows "\<not> tooMany \<and> next = nxt now
    \<and> (case lm of
         None \<Rightarrow> \<forall>u. ticks u \<longrightarrow> \<not> (earliest < u \<and> u \<le> now)
       | Some l \<Rightarrow> ticks l \<and> earliest < l \<and> l \<le> now \<and> (\<forall>u. ticks u \<longrightarrow> u \<le> now \<longrightarrow> u \<le> l))"
proof -
  note mr = schedule.most_recent [OF assms(1,2,4)]
  have n: "\<not> tooMany" using mr(2) assms(3) by (simp add: maxMissedScans_def)
  show ?thesis
  proof (cases lm)
    case None
    then show ?thesis using n mr(1) mr(5) by auto
  next
    case (Some l)
    have "u \<le> l" if "ticks u" "u \<le> now" for u
    proof (cases "earliest < u")
      case True
      then show ?thesis using mr(5) [OF n that(1)] that(2) Some by simp
    next
      case False
      then show ?thesis using mr(4) [OF Some] by simp
    qed
    then show ?thesis using n mr(1) mr(4) [OF Some] Some by simp
  qed
qed

lemma everyNext_iter: "0 < period \<Longrightarrow> (everyNext period ^^ n) 0 = int n * period"
  by (induction n) (simp_all add: everyNext_def distrib_right)

theorem scan_finds_last_tick_witness:
  "\<exists>l. fst (mostRecentScheduleTime (everyNext Minute) 0 (150 * Second)) = Some l \<and> 120 * Second \<le> l"
proof -
  obtain lm nx many where m: "mostRecentScheduleTime (everyNext Minute) 0 (150 * Second) = (lm, nx, many)"
    by (rule prod_cases3)
  have le: "0 \<le> (150 * Second :: int)" and lt: "150 * Second < (everyNext Minute ^^ 81) 0"
    by (simp_all add: everyNext_iter)
  note sf = scan_finds_last_tick [OF minutely.schedule_axioms le lt m]
  have due: "Minute dvd (120 * Second :: int)" by simp
  show ?thesis
  proof (cases lm)
    case None
    have "\<not> (0 < 120 * Second \<and> 120 * Second \<le> (150 * Second :: int))"
      using sf due unfolding None option.case by blast
    then show ?thesis by simp
  next
    case (Some l)
    have "120 * Second \<le> l" using sf due unfolding Some option.case by simp
    then show ?thesis using m Some by simp
  qed
qed

text \<open>Note: after more than eighty missed ticks the scan stops at the eighty-first and returns it as the
  most recent one although later ticks are due: a minutely schedule looked at after a hundred
  minutes gives the tick of minute 81.\<close>

theorem capped_scan_returns_old_tick:
  "mostRecentScheduleTime (everyNext Minute) 0 (100 * Minute) = (Some (81 * Minute), 101 * Minute, True)"
proof -
  obtain lm nx many where m: "mostRecentScheduleTime (everyNext Minute) 0 (100 * Minute) = (lm, nx, many)"
    by (rule prod_cases3)
  have iter: "(everyNext Minute ^^ Suc maxMissedScans) 0 = 81 * Minute"
    using everyNext_iter [of Minute "Suc maxMissedScans"] by (simp add: maxMissedScans_def)
  note mr = minutely.most_recent [OF _ m]
  have "many" using mr(2) iter by simp
  moreover from this have "lm = Some (81 * Minute)" using mr(3) iter by simp
  moreover have "nx = 101 * Minute" using mr(1) by (simp add: everyNext_def)
  ultimately show ?thesis using m by simp
qed

text \<open>C14: a tick is handled once: a pass that succeeds with a due tick records that tick, which lies
  after the last recorded one and not after now, and no pass with the recorded status ever finds
  that tick or an earlier one due again.\<close>

theorem tick_handled_once:
  assumes "schedule ticks nxt" and "ss_Schedule (suite_Spec suite) = Some cron" and "p_parse_cron P cron = Inr nxt"
    and "deref (sst_LastScheduleTime (suite_Status suite)) (om_CreationTimestamp (suite_Meta suite)) \<le> now"
    and "\<And>name. p_own_run P suite (newRun suite name) = Inr (own name)"
    and "suitePass K P suite now items s = (Inr d, t)"
    and "dueTick P suite now (suite_Status suite) = Some tick"
  shows "\<exists>before status. acts t = before @ [Req (UpdateSuiteStatus (suite\<lparr>suite_Status := status\<rparr>))]
    \<and> sst_LastScheduleTime status = Some tick \<and> ticks tick \<and> tick \<le> now
    \<and> deref (sst_LastScheduleTime (suite_Status suite)) (om_CreationTimestamp (suite_Meta suite)) < tick
    \<and> (\<forall>now' tick'. tick \<le> now' \<longrightarrow> dueTick P suite now' status = Some tick' \<longrightarrow> tick < tick')"
proof -
  have due: "\<exists>next many. mostRecentScheduleTime nxt
      (deref (sst_LastScheduleTime st) (om_CreationTimestamp (suite_Meta suite))) now' = (Some tk, next, many)"
    if "dueTick P suite now' st = Some tk" for st tk now'
    using that assms(2,3) by (auto simp: dueTick_def split: if_splits) (metis prod.collapse)
  from due [OF assms(7)] have tk: "ticks tick \<and> tick \<le> now
      \<and> deref (sst_LastScheduleTime (suite_Status suite)) (om_CreationTimestamp (suite_Meta suite)) < tick"
    using schedule.most_recent(4) [OF assms(1,4)] by blast
  obtain before status where
    u: "acts t = before @ [updates suite status]" "sst_LastScheduleTime status = Some tick"
    by (rule suitePass_update [OF assms(6,5)]) (use assms(7) in simp)
  have "tick < tick'" if "tick \<le> now'" "dueTick P suite now' status = Some tick'" for now' tick'
    using due [OF that(2)] u(2) schedule.most_recent(4) [OF assms(1) that(1)] by auto
  with tk u show ?thesis by (auto simp: updates_def)
qed

theorem tick_handled_once_witness:
  "\<exists>t status. acts (t :: cluster ctx) \<noteq> []
     \<and> List.last (acts t) = Req (UpdateSuiteStatus ((sampleSuite AllowConcurrent '''')\<lparr>suite_Status := status\<rparr>))
     \<and> sst_LastScheduleTime status = Some Minute"
proof -
  let ?suite = "sampleSuite AllowConcurrent ''''"
  obtain d t where p: "suitePass clusterKube refPkgs ?suite 90000000000 [] (suiteCtx AllowConcurrent '''' []) = (Inr d, t)"
    using suites.suitePass_answers by (metis prod.collapse)
  have "ss_Schedule (suite_Spec ?suite) = Some ''* * * * *''"
    and "deref (sst_LastScheduleTime (suite_Status ?suite)) (om_CreationTimestamp (suite_Meta ?suite)) \<le> 90000000000"
    by (simp_all add: sampleSuite_def)
  moreover have "p_parse_cron refPkgs ''* * * * *'' = Inr (everyNext Minute)" by (simp add: refPkgs_def)
  ultimately obtain before status where
    "acts t = before @ [Req (UpdateSuiteStatus (?suite\<lparr>suite_Status := status\<rparr>))]"
    "sst_LastScheduleTime status = Some Minute"
    using tick_handled_once [OF minutely.schedule_axioms _ _ _ own_sample p sample_due] by blast
  then show ?thesis by (intro exI [of _ t] exI [of _ status]) simp
qed

text \<open>Note: the names of the scheduled runs of a suite differ from tick to tick, if the ticks are whole
  seconds apart, and from the names of its manual runs, as long as they need no cutting.\<close>

theorem run_names_distinct:
  assumes "unix t \<noteq> unix u" and "length (suite_Name suite) + 1 + length (itoa (unix t)) \<le> 63"
    and "length (suite_Name suite) + 1 + length (itoa (unix u)) \<le> 63" and "length (suite_Name suite) \<le> 47"
  shows "scheduledRunName suite t \<noteq> scheduledRunName suite u \<and> scheduledRunName suite t \<noteq> manualRunName suite trigger"
proof
  have t: "scheduledRunName suite t = suite_Name suite @ ''-'' @ itoa (unix t)"
    and u: "scheduledRunName suite u = suite_Name suite @ ''-'' @ itoa (unix u)"
    using assms(2,3) by (simp_all add: scheduledRunName_def label63_short)
  have m: "manualRunName suite trigger = suite_Name suite @ ''-manual-'' @ hash8 trigger"
    using assms(4) by (simp add: manualRunName_def label63_short length_hash8)
  show "scheduledRunName suite t \<noteq> scheduledRunName suite u" using assms(1) by (simp add: t u itoa_inj)
  have "nat_str n \<noteq> CHR ''m'' # xs" for n xs
    using nat_str_digits [of "CHR ''m''" n] by auto
  then have "itoa (unix t) \<noteq> ''manual-'' @ hash8 trigger" by (auto simp: itoa_def)
  then show "scheduledRunName suite t \<noteq> manualRunName suite trigger" by (simp add: t m)
qed

theorem run_names_distinct_witness:
  "scheduledRunName (sampleSuite AllowConcurrent '''') Minute \<noteq> scheduledRunName (sampleSuite AllowConcurrent '''') (2 * Minute)"
proof -
  have "length (itoa 60) = 2" "length (itoa 120) = 3" by code_simp+
  then show ?thesis
    using run_names_distinct [of Minute "2 * Minute" "sampleSuite AllowConcurrent ''''"]
    by (simp add: unix_def sample_suite_names)
qed

section \<open>History\<close>

text \<open>C33: collecting old runs keeps exactly the newest ones: of the finished runs it is given, the
  collection deletes those beyond the limit, each at least as old as every run it keeps, asks for
  no other deletion, and keeps all of them when they are within the limit.\<close>

theorem history_keeps_newest:
  assumes "run_sorter (p_sort_runs P)" and "0 \<le> limit" and "gcRuns K P runs limit s = (None, t)"
  shows "\<exists>deleted kept. mset deleted + mset kept = mset runs
    \<and> acts t = acts s @ map (\<lambda>run. Req (DeleteRun (runKey run))) deleted
    \<and> int (length kept) = min limit (int (length runs))
    \<and> (\<forall>x \<in> set deleted. \<forall>y \<in> set kept. runRecency x \<le> runRecency y)"
proof (cases "limit < int (length runs)")
  case True
  then have "acts t = acts s @ map (\<lambda>run. Req (DeleteRun (runKey run))) (gcExcess P runs limit)"
    using assms(3) by (simp add: gcRuns_def deleteRuns_all)
  then show ?thesis using gcExcess_run_sorter [OF assms(1,2) True] True by (metis less_imp_le min.absorb1)
next
  case False
  then have "t = s" using assms(3) by (simp add: gcRuns_def)
  then show ?thesis using False by (intro exI [of _ "[]"] exI [of _ runs]) simp
qed

theorem history_keeps_newest_witness:
  "\<exists>t deleted kept. gcRuns clusterKube refPkgs [activeRun, sampleRun ''b'' CheckRunFailed []] 1
      (suiteCtx AllowConcurrent '''' []) = (None, t)
    \<and> mset deleted + mset kept = {#activeRun, sampleRun ''b'' CheckRunFailed []#} \<and> length kept = 1"
proof -
  let ?runs = "[activeRun, sampleRun ''b'' CheckRunFailed []]" and ?s = "suiteCtx AllowConcurrent '''' []"
  have "fst (gcRuns clusterKube refPkgs ?runs 1 ?s) = None"
    using deleteRuns_ok [OF suites.delete_ok] by (simp add: gcRuns_def)
  then obtain t where g: "gcRuns clusterKube refPkgs ?runs 1 ?s = (None, t)" by (metis prod.collapse)
  have "run_sorter (p_sort_runs refPkgs)" using stable.run_sorter_axioms by simp
  from history_keeps_newest [OF this _ g] g show ?thesis by auto
qed

section \<open>What a pass may do\<close>

text \<open>C26: the requests of a pass are confined to its suite: after reading the suite and listing its
  runs it only deletes runs the suite controls, active ones only with the policy Replace, creates
  or re-reads runs made from the suite's template, updates the status of the suite and nothing
  else of it, and reports events about it, whatever the server answers.\<close>

theorem suite_pass_confined:
  assumes "k_get_suite K req (world s) = (Inr suite, w)"
    and "k_list_runs K (suite_Namespace suite) (listSelector suite) w = (Inr items, w')"
    and "run_sorter (p_sort_runs P)"
  shows "\<exists>new. acts (snd (CheckSuite_Reconcile K P req s)) =
      acts s @ [Req (GetSuite req), Req (ListRuns (suite_Namespace suite) (listSelector suite))] @ new
    \<and> list_all (suiteAction P suite items) new"
proof -
  from reconcile_pass [OF assms(1,2), of P] obtain s2 where
    "acts s2 = acts s @ [Req (GetSuite req), Req (ListRuns (suite_Namespace suite) (listSelector suite))]"
    and "CheckSuite_Reconcile K P req s = suitePass K P suite (k_now K w) items s2" .
  then show ?thesis using suitePass_suiteAction [OF assms(3), of suite items s2 K "k_now K w"]
    by (simp add: issues_def)
qed

theorem suite_pass_confined_witness:
  "\<exists>new. acts (snd (CheckSuite_Reconcile clusterKube refPkgs (''prod'', ''demo'') (suiteCtx ReplaceConcurrent '''' [activeRun]))) =
      [Req (GetSuite (''prod'', ''demo'')), Req (ListRuns ''prod'' (labelSuite, ''demo''))] @ new
    \<and> list_all (suiteAction refPkgs (sampleSuite ReplaceConcurrent '''') (sampleItems [activeRun])) new"
proof -
  have "run_sorter (p_sort_runs refPkgs)" using stable.run_sorter_axioms by simp
  from suite_pass_confined [OF sample_suite_get sample_suite_list this]
  show ?thesis by (simp add: suite_acts sample_suite_names listSelector_def label63_short)
qed

text \<open>Note: with the policy Replace a fresh tick first deletes every active run of the suite, in order,
  and only then creates the new run.\<close>

theorem replace_deletes_before_creating:
  assumes "fireTick K P suite active now tick status s = (Inr status', t)"
    and "ss_ConcurrencyPolicy (suite_Spec suite) = ReplaceConcurrent"
    and "time_sub now tick \<le> startingDeadline suite"
  shows "\<exists>run rest. p_own_run P suite (newRun suite (scheduledRunName suite tick)) = Inr run
    \<and> acts t = acts s @ map (\<lambda>run. Req (DeleteRun (runKey run))) active @ Req (CreateRun run) # rest
    \<and> rest \<in> {[], [Req (GetRun (runKey run))]}"
proof -
  have fires: "fires suite active now tick" using assms(2,3) by (simp add: fires_def)
  obtain q s1 where d: "deleteRuns K active s = (q, s1)" by fastforce
  obtain c s2 where c: "createRun K P suite (scheduledRunName suite tick) s1 = (c, s2)" by fastforce
  have "q = None" and t: "t = s2" and "\<exists>run. c = Inr run"
    using assms(1,2) d c by (auto simp: fireTick_fires [OF fires] split: option.splits sum.splits)
  with d have "acts s1 = acts s @ map (\<lambda>run. Req (DeleteRun (runKey run))) active" by (simp add: deleteRuns_all)
  moreover from createRun_acts [of K P suite "scheduledRunName suite tick" s1] c \<open>\<exists>run. c = Inr run\<close>
  obtain run rest where "p_own_run P suite (newRun suite (scheduledRunName suite tick)) = Inr run"
    "acts s2 = acts s1 @ Req (CreateRun run) # rest" "rest \<in> {[], [Req (GetRun (runKey run))]}" by auto
  ultimately show ?thesis using t by simp
qed

theorem replace_deletes_before_creating_witness:
  "\<exists>t run rest. acts (t :: cluster ctx) = Req (DeleteRun (runKey activeRun)) # Req (CreateRun run) # rest
     \<and> run_Name run = scheduledRunName (sampleSuite ReplaceConcurrent '''') Minute"
proof -
  let ?suite = "sampleSuite ReplaceConcurrent ''''"
  obtain st t where f: "fireTick clusterKube refPkgs ?suite [activeRun] 90000000000 Minute (suite_Status ?suite)
      (suiteCtx ReplaceConcurrent '''' [activeRun]) = (Inr st, t)"
    using suites.fireTick_ok by (metis prod.collapse)
  have "ss_ConcurrencyPolicy (suite_Spec ?suite) = ReplaceConcurrent" by (simp add: sampleSuite_def)
  moreover have "time_sub 90000000000 Minute \<le> startingDeadline ?suite"
    by (simp add: startingDeadline_def sampleSuite_def defaultStartingDeadline_def time_sub_def)
  ultimately obtain run rest where "p_own_run refPkgs ?suite (newRun ?suite (scheduledRunName ?suite Minute)) = Inr run"
    "acts t = Req (DeleteRun (runKey activeRun)) # Req (CreateRun run) # rest"
    using replace_deletes_before_creating [OF f] by (auto simp: suite_acts)
  then show ?thesis by (intro exI [of _ t] exI [of _ run] exI [of _ rest]) (auto simp: newRun_def)
qed

section \<open>Repeated passes\<close>

text \<open>Note: creating a run is idempotent: after a pass that created the run of a name and then failed to
  record it, creating it again returns the stored run and leaves every stored run as it was.\<close>

theorem create_run_idempotent:
  assumes "run_store look K P" and "createRun K P suite name s = (Inr run, t)"
    and "look (world u) (suite_Namespace suite, name) = look (world t) (suite_Namespace suite, name)"
  shows "fst (createRun K P suite name u) = Inr run
    \<and> look (world (snd (createRun K P suite name u))) = look (world u)
    \<and> look (world t) (suite_Namespace suite, name) = Some run"
proof -
  have "look (world t) (suite_Namespace suite, name) = Some run"
    by (rule run_store.create_run [OF assms(1), of suite name s]) (use assms(2) in simp)
  then show ?thesis using run_store.create_again [OF assms] by simp
qed

theorem create_run_idempotent_witness:
  "\<exists>run t. createRun clusterKube refPkgs (sampleSuite AllowConcurrent '''') ''demo-60'' (suiteCtx AllowConcurrent '''' []) = (Inr run, t)
     \<and> fst (createRun clusterKube refPkgs (sampleSuite AllowConcurrent '''') ''demo-60'' t) = Inr run"
proof -
  obtain run t where "createRun clusterKube refPkgs (sampleSuite AllowConcurrent '''') ''demo-60'' (suiteCtx AllowConcurrent '''' []) = (Inr run, t)"
    using suites.createRun_ok by (metis prod.collapse)
  then show ?thesis using create_run_idempotent [OF runs.run_store_axioms, of _ _ _ run t t] by blast
qed

text \<open>Note: a run-now value whose run still exists starts nothing: when the annotation returns to a value
  used before, the new trigger is recorded as handled and an event says that a run was created,
  but the stored runs are unchanged and the old run, whatever its phase, is listed as active.\<close>

theorem reused_trigger_starts_nothing:
  assumes "run_store look K P" and "triggered suite"
    and "look (world s) (suite_Namespace suite, manualRunName suite (runNow suite)) = Some old"
  shows "\<exists>status t. manualTrigger K P suite (startStatus P suite items) s = (Inr status, t)
    \<and> look (world t) = look (world s) \<and> sst_LastManualTrigger status = runNow suite
    \<and> sst_Active status = activeRefs (activeRuns P suite items) @ [runRef old]
    \<and> (\<exists>note. List.last (acts t) = suiteEvent suite ''Normal'' ''ManualRunCreated'' note)"
proof -
  obtain run t where c: "createRun K P suite (manualRunName suite (runNow suite)) s = (Inr run, t)"
    and "look (world t) = (look (world s))((suite_Namespace suite, manualRunName suite (runNow suite)) \<mapsto> run)"
    and "look (world s) (suite_Namespace suite, manualRunName suite (runNow suite)) = None
      \<or> look (world s) (suite_Namespace suite, manualRunName suite (runNow suite)) = Some run"
    by (rule run_store.create_run [OF assms(1)])
  then have "run = old" and w: "look (world t) = look (world s)" using assms(3) by (auto simp: fun_upd_idem)
  with c show ?thesis using assms(2) unfolding manualTrigger_eq by (auto simp: startStatus_def)
qed

theorem reused_trigger_starts_nothing_witness:
  "\<exists>s status t. manualTrigger clusterKube refPkgs (sampleSuite AllowConcurrent ''v1'')
        (startStatus refPkgs (sampleSuite AllowConcurrent ''v1'') []) s = (Inr status, t)
     \<and> look_run (world t) = look_run (world s) \<and> sst_LastManualTrigger status = ''v1''"
proof -
  let ?suite = "sampleSuite AllowConcurrent ''v1''"
  have now: "runNow ?suite = ''v1''" by (simp add: runNow_def sampleSuite_def)
  obtain old s where "createRun clusterKube refPkgs ?suite (manualRunName ?suite ''v1'') (suiteCtx AllowConcurrent '''' []) = (Inr old, s)"
    and "look_run (world s) = (look_run (world (suiteCtx AllowConcurrent '''' [])))((suite_Namespace ?suite, manualRunName ?suite ''v1'') \<mapsto> old)"
    by (rule runs.create_run)
  then have "look_run (world s) (suite_Namespace ?suite, manualRunName ?suite (runNow ?suite)) = Some old"
    by (simp add: now)
  moreover have "triggered ?suite" by (simp add: sample_triggered)
  ultimately show ?thesis
    using reused_trigger_starts_nothing [OF runs.run_store_axioms, of ?suite s old "[]"] now by auto
qed

section \<open>Deleted suites\<close>

text \<open>Note: a pass for a suite that is gone drops its gauges and no other suite's, makes no request
  besides the read and asks for no further pass.\<close>

theorem deleted_suite_drops_gauges:
  assumes "gauge_registry val app" and "k_get_suite K (ns, name) (world s) = (Inl NotFound, w)" and "acts s = []"
    and "v = CheckLastResult \<and> lvs = [c] \<or> v = CheckRunLastCompletion \<and> lvs = []"
  shows "\<exists>t. CheckSuite_Reconcile K P (ns, name) s = (Inr 0, t)
    \<and> filter (\<lambda>a. \<exists>r. a = Req r) (acts t) = [Req (GetSuite (ns, name))]
    \<and> val (fold app (metric_ops (acts t)) m) v (ns' # suite' # lvs) =
        (if ns' = ns \<and> suite' = name then None else val m v (ns' # suite' # lvs))"
proof -
  let ?s1 = "s\<lparr>world := w, acts := acts s @ [Req (GetSuite (ns, name))]\<rparr>"
  have r: "CheckSuite_Reconcile K P (ns, name) s = (Inr 0, DeleteSuite ns name ?s1)"
    unfolding CheckSuite_Reconcile_def perform_eq [of "k_get_suite K (ns, name)", OF assms(2)] by simp
  have "metric_ops (acts (DeleteSuite ns name ?s1)) = delete_suite_ops ns name"
    using assms(3) by (simp add: DeleteSuite_emits metric_ops_map_Met [where f = "\<lambda>x. x", simplified])
  moreover have "filter (\<lambda>a. \<exists>r. a = Req r) (acts (DeleteSuite ns name ?s1)) = [Req (GetSuite (ns, name))]"
    using assms(3) by (simp add: DeleteSuite_emits delete_suite_ops_def)
  moreover have "length lvs + 2 = length (vec_labels v)" "v = CheckLastResult \<or> v = CheckRunLastCompletion"
    using assms(4) by auto
  ultimately show ?thesis
    using r gauge_registry.deleted_suite [OF assms(1), of v lvs ns name m ns' suite'] by simp
qed

theorem deleted_suite_drops_gauges_witness:
  "\<exists>t. CheckSuite_Reconcile clusterKube refPkgs (''prod'', ''gone'') (suiteCtx AllowConcurrent '''' []) = (Inr 0, t)
     \<and> gauge_val (fold gauge_app (metric_ops (acts t))
          [(CheckLastResult, [''prod'', ''gone'', ''web'']) \<mapsto> 1, (CheckLastResult, [''prod'', ''demo'', ''web'']) \<mapsto> 1])
          CheckLastResult [''prod'', ''demo'', ''web''] = Some 1"
proof -
  let ?m = "[(CheckLastResult, [''prod'', ''gone'', ''web'']) \<mapsto> 1, (CheckLastResult, [''prod'', ''demo'', ''web'']) \<mapsto> 1]"
  have "k_get_suite clusterKube (''prod'', ''gone'') (world (suiteCtx AllowConcurrent '''' [])) =
      (Inl NotFound, world (suiteCtx AllowConcurrent '''' []))"
    by (simp add: clusterKube_def suiteCtx_def sampleCluster_def sampleSuite_def newMeta_def meta_key_def found_def)
  from deleted_suite_drops_gauges [OF gauges.gauge_registry_axioms this suite_acts,
      of CheckLastResult "[''web'']" "''web''" refPkgs ?m "''prod''" "''demo''"]
  show ?thesis by (auto simp: gauge_val_def)
qed

section \<open>Schedules without a tick\<close>

text \<open>The scan when \<open>Next\<close> answers with the same past instant each time.\<close>

lemma scan_stuck:
  "z \<le> now \<Longrightarrow> n \<le> maxMissedScans \<Longrightarrow> scanTicks (\<lambda>_. z) now lm n z = (Some z, z, True)"
proof (induction "maxMissedScans - n" arbitrary: n lm)
  case 0
  then show ?case by (simp add: scanTicks.simps [of "\<lambda>_. z"] after_def)
next
  case (Suc k)
  then show ?case by (simp add: scanTicks.simps [of "\<lambda>_. z" now lm n] after_def)
qed

text \<open>C40: a schedule that parses but never fires, such as the thirtieth of February: \<open>Next\<close> is documented
  to return the zero time then, which is not after now. The scan counts it as a missed tick until its
  cap, so a pass reports too many missed runs, and the pass overwrites the recorded time of the last
  schedule with the zero time.\<close>

theorem impossible_schedule_rewinds:
  assumes "ss_Schedule (suite_Spec suite) = Some cron" and "\<not> deref (ss_Suspend (suite_Spec suite)) False"
    and "p_parse_cron P cron = Inr (\<lambda>_. zero)" and "zero \<le> now"
    and "\<And>name. p_own_run P suite (newRun suite name) = Inr (own name)"
    and "suitePass K P suite now items s = (Inr d, t)"
  shows "mostRecentScheduleTime (\<lambda>_. zero) earliest now = (Some zero, zero, True)
    \<and> (\<exists>before status. acts t = before @ [Req (UpdateSuiteStatus (suite\<lparr>suite_Status := status\<rparr>))]
         \<and> sst_LastScheduleTime status = Some zero)"
proof -
  have scan: "mostRecentScheduleTime (\<lambda>_. zero) e now = (Some zero, zero, True)" for e
    using scan_stuck [OF assms(4)] by (simp add: mostRecentScheduleTime_def)
  have due: "dueTick P suite now (suite_Status suite) = Some zero"
    using assms(1-3) by (simp add: dueTick_def scan)
  obtain before status where "acts t = before @ [updates suite status]" "sst_LastScheduleTime status = Some zero"
    by (rule suitePass_update [OF assms(6,5)]) (use due in simp)
  with scan show ?thesis by (auto simp: updates_def)
qed

text \<open>The sample suite with such a schedule; the zero time of Go is the first day of the year 1.\<close>

definition neverPkgs :: pkgs where
  "neverPkgs = refPkgs\<lparr>p_parse_cron := \<lambda>cron. Inr (\<lambda>_. - 62135596800 * Second)\<rparr>"

theorem impossible_schedule_rewinds_witness:
  "\<exists>d t status. suitePass clusterKube neverPkgs (sampleSuite AllowConcurrent '''') 90000000000 []
       (suiteCtx AllowConcurrent '''' []) = (Inr d, t)
     \<and> List.last (acts t) = Req (UpdateSuiteStatus ((sampleSuite AllowConcurrent '''')\<lparr>suite_Status := status\<rparr>))
     \<and> sst_LastScheduleTime status = Some (- 62135596800 * Second)"
proof -
  let ?suite = "sampleSuite AllowConcurrent ''''"
  have own: "p_own_run neverPkgs = p_own_run refPkgs" by (simp add: neverPkgs_def)
  have "suite_server look_run clusterKube neverPkgs"
  proof
    show "\<exists>r'. p_own_run neverPkgs suite r = Inr r' \<and> runKey r' = runKey r" for suite r
      unfolding own by (rule runs.own_run)
  qed (rule runs.get_look runs.create_existing runs.create_fresh suites.delete_ok suites.update_ok; assumption?)+
  then obtain d t where p: "suitePass clusterKube neverPkgs ?suite 90000000000 [] (suiteCtx AllowConcurrent '''' []) = (Inr d, t)"
    using suite_server.suitePass_answers by (metis prod.collapse)
  have "ss_Schedule (suite_Spec ?suite) = Some ''* * * * *''" "\<not> deref (ss_Suspend (suite_Spec ?suite)) False"
    "p_parse_cron neverPkgs ''* * * * *'' = Inr (\<lambda>_. - 62135596800 * Second)" "- 62135596800 * Second \<le> (90000000000 :: int)"
    by (simp_all add: sampleSuite_def neverPkgs_def)
  from impossible_schedule_rewinds [OF this own_sample [folded own] p]
  obtain before status where "acts t = before @ [Req (UpdateSuiteStatus (?suite\<lparr>suite_Status := status\<rparr>))]"
    "sst_LastScheduleTime status = Some (- 62135596800 * Second)" by blast
  with p show ?thesis by (intro exI [of _ d] exI [of _ t] exI [of _ status]) simp
qed

end
