(* ===== verification/Admission_Properties.thy ===== *)
theory Admission_Properties
  imports Cluster
begin

text \<open>
  Properties that relate what the program writes to what the API server admits, with witnesses on the
  sample objects of \<open>Cluster\<close>.
\<close>

section \<open>Templates\<close>

text \<open>Note: in a template the API server has admitted, every check is run by a runner, runs on the
  runners it names or on all of them, and has a probe in the registry.\<close>

theorem valid_checks_are_run:
  assumes "valid_template tpl" and "c \<in> set (tpl_Checks tpl)"
  shows "(\<exists>rn \<in> set (tpl_Runners tpl). c \<in> set (FilterChecks (tpl_Checks tpl) (rn_Name rn)))
    \<and> (\<forall>rn \<in> set (tpl_Runners tpl). c \<in> set (FilterChecks (tpl_Checks tpl) (rn_Name rn)) \<longleftrightarrow>
          chk_Runners c = [] \<or> rn_Name rn \<in> set (chk_Runners c))
    \<and> ForSpec (standardRegistry N opts) c \<noteq> None"
proof -
  have v: "valid_check c" "set (chk_Runners c) \<subseteq> set (map rn_Name (tpl_Runners tpl))"
    and ne: "tpl_Runners tpl \<noteq> []" using assms by (auto simp: valid_template_def list_all_iff)
  then have "ForSpec (standardRegistry N opts) c \<noteq> None"
    by (auto simp: valid_check_def ForSpec_standard elim: one_probe_cases)
  moreover have "\<exists>rn \<in> set (tpl_Runners tpl). chk_Runners c = [] \<or> rn_Name rn \<in> set (chk_Runners c)"
  proof (cases "chk_Runners c")
    case Nil
    then show ?thesis using ne by (cases "tpl_Runners tpl") auto
  next
    case (Cons x xs)
    then have "x \<in> rn_Name ` set (tpl_Runners tpl)" using v(2) by auto
    then show ?thesis using Cons by auto
  qed
  ultimately show ?thesis using assms(2) by (auto simp: FilterChecks_def)
qed

theorem valid_checks_are_run_witness:
  "webSpec \<in> set (FilterChecks (tpl_Checks webTemplate) ''zone-a'')
   \<and> ForSpec (standardRegistry scriptNet guardedOpts) webSpec \<noteq> None"
proof -
  from valid_checks_are_run [OF webTemplate_valid, of webSpec scriptNet guardedOpts]
  show ?thesis by (simp add: webTemplate_def zoneRunner_def)
qed

text \<open>Note: the counters of a summary are of type \<open>int32\<close> in the code and integers in the model. For a template the
  API server has admitted, with at most 16 runners and 128 checks, they are the same: no count is above 2048.\<close>

lemma sum_list_bound: "\<forall>x \<in> set xs. f x \<le> (n :: nat) \<Longrightarrow> sum_list (map f xs) \<le> n * length xs"
  by (induction xs) auto

theorem summary_fits_int32:
  assumes "valid_template (run_Template run)"
  shows "sum_Total (summaryOf run) \<le> 2048
    \<and> (\<forall>n \<in> {sum_Total (summaryOf run), sum_Passed (summaryOf run), sum_Failed (summaryOf run)}.
         sint (word_of_int n :: 32 word) = n)"
proof -
  let ?tpl = "run_Template run"
  have "length (FilterChecks (tpl_Checks ?tpl) n) \<le> 128" for n
    using assms length_filter_le [of _ "tpl_Checks ?tpl"] unfolding FilterChecks_def valid_template_def by (meson le_trans)
  then have "length (assignments run) \<le> 128 * length (tpl_Runners ?tpl)"
    unfolding assignments_def length_concat map_map by (intro sum_list_bound) simp
  then have total: "length (assignments run) \<le> 2048" using assms by (simp add: valid_template_def)
  have counts: "summaryOf run = \<lparr>sum_Total = int (length (assignments run)),
      sum_Passed = int (length (filter (assignmentPassed run) (assignments run))),
      sum_Failed = int (length (filter (\<lambda>p. \<not> assignmentPassed run p) (assignments run)))\<rparr>"
    by (simp add: summaryOf_def countPairs_zero)
  have "sint (word_of_int (int k) :: 32 word) = int k" if "k \<le> 2048" for k
    using that by (simp only: int_word_sint) simp
  moreover have "length (filter Q (assignments run)) \<le> 2048" for Q
    using total length_filter_le [of Q "assignments run"] by linarith
  ultimately show ?thesis using total by (simp add: counts)
qed

theorem summary_fits_int32_witness: "sum_Total (summaryOf (sampleRun ''demo'' CheckRunRunning [])) \<le> 2048"
  using summary_fits_int32 [of "sampleRun ''demo'' CheckRunRunning []"] webTemplate_valid by (simp add: sampleRun_def)

section \<open>Names\<close>

text \<open>C36: the name of a Job is a DNS subdomain if the names of its run and its runner are, unless it has
  to be cut and the cut falls right behind a dot of the run's name: then it is not, and no API
  server accepts the Job.\<close>

theorem job_name_valid_iff:
  assumes "dns_subdomain runName" and "dns_label runnerName" and "length runName + 1 + length runnerName \<le> 253"
  shows "dns_subdomain (jobName runName runnerName) \<longleftrightarrow>
     length runName + 1 + length runnerName \<le> 57 \<or> (runName @ ''-'' @ runnerName) ! 47 \<noteq> CHR ''.''"
proof (cases "length runName + 1 + length runnerName \<le> 57")
  case True
  then show ?thesis using dns_joined [OF assms] by (simp add: jobName_short)
next
  case False
  let ?full = "runName @ ''-'' @ runnerName"
  from False have "truncateName ?full 57 = Some (jobName runName runnerName)"
    using truncateName_total [of 57 ?full] by (auto simp: jobName_def)
  from dns_truncated [OF dns_joined [OF assms] _ _ this] False show ?thesis by simp
qed

theorem job_name_valid_iff_witness:
  "dns_subdomain (replicate 47 (CHR ''a'') @ ''.nightly'')
   \<and> \<not> dns_subdomain (jobName (replicate 47 (CHR ''a'') @ ''.nightly'') ''zone-a'')"
proof -
  let ?r = "replicate 47 (CHR ''a'') @ ''.nightly''"
  have r: "dns_subdomain ?r" by (simp add: dns_subdomain_def alnum_def numeral_eq_Suc)
  have "dns_label ''zone-a''" by (simp add: dns_label_def alnum_def)
  from job_name_valid_iff [OF r this] have "\<not> dns_subdomain (jobName ?r ''zone-a'')"
    by (simp add: nth_append)
  with r show ?thesis ..
qed

section \<open>Reported results\<close>

text \<open>C23: what a runner reports is admitted: for an admitted template the entry of the pod keeps every
  limit of its type, with one result per check, distinct names, an observation in each, and no
  message too long.\<close>

theorem reported_pod_admitted:
  assumes "retrier onError" and "guarded_network N" and "schedules order"
    and "Run K P onError N (standardRegistry N opts) order cfg s = (RunOk, t)"
    and "\<And>run. fst (k_get_run K (cfg_Namespace cfg, cfg_CheckRunName cfg) (world s)) = Inr run \<Longrightarrow>
      valid_template (run_Template run)"
    and "runes (cfg_PodName cfg) \<le> 253" and "runes (cfg_NodeName cfg) \<le> 253"
  shows "\<exists>pod doc. valid_pod pod
    \<and> BuildApplyDocument P (cfg_Namespace cfg) (cfg_CheckRunName cfg) (cfg_RunnerName cfg) pod = Inr doc
    \<and> List.last (acts t) = Req (ApplyRunStatus doc (cfg_PodName cfg))"
proof -
  obtain run results pod doc probes n where
    run: "fst (k_get_run K (cfg_Namespace cfg, cfg_CheckRunName cfg) (world s)) = Inr run"
    and names: "map res_Name results = map chk_Name (FilterChecks (tpl_Checks (run_Template run)) (cfg_RunnerName cfg))"
    and pod: "pod_PodName pod = cfg_PodName cfg" "pod_NodeName pod = cfg_NodeName cfg" "pod_Checks pod = results"
    and doc: "BuildApplyDocument P (cfg_Namespace cfg) (cfg_CheckRunName cfg) (cfg_RunnerName cfg) pod = Inr doc"
    and n: "1 \<le> n" "acts t = acts s @ [Req (GetRun (cfg_Namespace cfg, cfg_CheckRunName cfg))] @ probes
       @ replicate n (report_action cfg doc)"
    and each: "list_all2 (\<lambda>spec r. \<exists>s u. executeCheck N (standardRegistry N opts) spec s = (Some r, u))
       (FilterChecks (tpl_Checks (run_Template run)) (cfg_RunnerName cfg)) results"
    by (rule Run_ok_trace [OF assms(1-4)])
  let ?checks = "FilterChecks (tpl_Checks (run_Template run)) (cfg_RunnerName cfg)"
  have tpl: "distinct (map chk_Name (tpl_Checks (run_Template run)))" "length (tpl_Checks (run_Template run)) \<le> 128"
    "list_all valid_check (tpl_Checks (run_Template run))"
    using assms(5) [OF run] by (simp_all add: valid_template_def)
  then have checks: "distinct (map chk_Name ?checks)" "length ?checks \<le> 128" "list_all valid_check ?checks"
    by (auto simp: FilterChecks_def distinct_map_filter list_all_iff intro: order_trans [OF length_filter_le])
  have "valid_result r" if "valid_check c" "executeCheck N (standardRegistry N opts) c s' = (Some r, u)" for c r s' u
    using that(1) executeCheck_bounds [OF that(2)] executeCheck_name [OF that(2)] runes_le_length [of "res_Message r"]
      executeCheck_observed [OF that(2)]
    by (auto simp: valid_check_def valid_result_def maxMessageLength_def)
  with each checks(3) have "list_all valid_result results"
    by (auto simp: list_all_iff list_all2_conv_all_nth in_set_conv_nth) (metis nth_mem)
  moreover have "length results = length ?checks" using each by (simp add: list_all2_lengthD)
  ultimately have "valid_pod pod"
    using pod names checks(1,2) assms(6,7) by (simp add: valid_pod_def)
  moreover have "List.last (acts t) = report_action cfg doc" using n by simp
  ultimately show ?thesis using doc by (auto simp: report_action_def)
qed

theorem reported_pod_admitted_witness:
  "\<exists>pod doc. valid_pod pod \<and> BuildApplyDocument refPkgs ''prod'' ''demo'' ''zone-a'' pod = Inr doc"
proof -
  let ?run = "sampleRun ''demo'' CheckRunRunning []"
  have "fst (Run (podKube ?run) refPkgs plainOnError scriptNet (standardRegistry scriptNet guardedOpts)
      inOrder podConfig webCtx) = RunOk"
    by (rule Run_ok [OF plain.retrier_axioms script.guarded_network_axioms]) (simp_all add: refPkgs_def)
  then obtain t where r: "Run (podKube ?run) refPkgs plainOnError scriptNet (standardRegistry scriptNet guardedOpts)
      inOrder podConfig webCtx = (RunOk, t)" by (metis prod.collapse)
  have "valid_template (run_Template run)"
    if "fst (k_get_run (podKube ?run) (cfg_Namespace podConfig, cfg_CheckRunName podConfig) (world webCtx)) = Inr run" for run
    using that webTemplate_valid by (auto simp: sampleRun_def)
  from reported_pod_admitted [OF plain.retrier_axioms script.guarded_network_axioms inOrder_schedules r this]
  show ?thesis by (auto simp: podConfig_def runes_def)
qed

section \<open>Rejected status updates\<close>

text \<open>C37: limits the reconciler does not look at: when the run-now value has more than 253 code points,
  or more than 32 runs of the suite are active, no pass succeeds over a server that enforces the
  limits of the status: its last step, the update of the status, is refused.\<close>

theorem oversized_status_never_recorded:
  assumes "\<And>st w. \<not> valid_suite_status st \<Longrightarrow> fst (k_update_suite_status K (suite\<lparr>suite_Status := st\<rparr>) w) \<noteq> None"
    and "k_get_suite K req (world s) = (Inr suite, w)"
    and "k_list_runs K (suite_Namespace suite) (listSelector suite) w = (Inr items, w')"
    and "triggered suite \<and> 253 < runes (runNow suite) \<or> 32 < length (activeRuns P suite items)"
  shows "\<exists>e. fst (CheckSuite_Reconcile K P req s) = Inl e"
proof (cases "fst (CheckSuite_Reconcile K P req s)")
  case (Inr d)
  from reconcile_pass [OF assms(2,3), of P] obtain s2 where
    "CheckSuite_Reconcile K P req s = suitePass K P suite (k_now K w) items s2" .
  with Inr obtain t where "suitePass K P suite (k_now K w) items s2 = (Inr d, t)" by (metis prod.collapse)
  from suitePass_accepted [OF this] obtain st u where
    ok: "fst (k_update_suite_status K (suite\<lparr>suite_Status := st\<rparr>) u) = None"
    and st: "triggered suite \<longrightarrow> sst_LastManualTrigger st = runNow suite"
    "length (activeRuns P suite items) \<le> length (sst_Active st)" by blast
  have "valid_suite_status st" by (rule ccontr) (use assms(1) ok in blast)
  then have "runes (sst_LastManualTrigger st) \<le> 253" "length (sst_Active st) \<le> 32"
    by (simp_all add: valid_suite_status_def)
  with assms(4) st have False by auto
  then show ?thesis ..
qed simp

text \<open>The sample server with the limits enforced.\<close>

definition strictKube :: "cluster kube" where
  "strictKube = clusterKube\<lparr>k_update_suite_status := \<lambda>suite w.
     if valid_suite_status (suite_Status suite) then k_update_suite_status clusterKube suite w
     else (Some (ApiError ''Invalid''), w)\<rparr>"

theorem oversized_status_never_recorded_witness:
  "\<exists>e. fst (CheckSuite_Reconcile strictKube refPkgs (''prod'', ''demo'')
      (sampleCluster 90000000000 [] (sampleSuite AllowConcurrent (replicate 254 (CHR ''x''))) [])) = Inl e"
proof -
  let ?suite = "sampleSuite AllowConcurrent (replicate 254 (CHR ''x''))"
  let ?s = "sampleCluster 90000000000 [] ?suite []"
  have ne: "replicate 254 (CHR ''x'') \<noteq> ''''" by simp
  then have now: "runNow ?suite = replicate 254 (CHR ''x'')" "sst_LastManualTrigger (suite_Status ?suite) = ''''"
    by (simp_all add: runNow_def sampleSuite_def)
  moreover have "runes (replicate 254 (CHR ''x'')) = 254" by (simp add: runes_def)
  ultimately have "triggered ?suite \<and> 253 < runes (runNow ?suite)"
    unfolding triggered_def by (simp add: ne)
  moreover have "k_get_suite strictKube (''prod'', ''demo'') (world ?s) = (Inr ?suite, world ?s)"
    by (simp add: strictKube_def clusterKube_def sampleCluster_def sampleSuite_def newMeta_def meta_key_def found_def)
  moreover have "k_list_runs strictKube (suite_Namespace ?suite) (listSelector ?suite) (world ?s) = (Inr [], world ?s)"
    by (simp add: strictKube_def clusterKube_def sampleCluster_def listSelector_def)
  moreover have "fst (k_update_suite_status strictKube (?suite\<lparr>suite_Status := st\<rparr>) w) \<noteq> None"
    if "\<not> valid_suite_status st" for st w using that by (simp add: strictKube_def)
  ultimately show ?thesis using oversized_status_never_recorded [of strictKube ?suite] by blast
qed

end
