(* ===== verification/Go_Flag.thy ===== *)
theory Go_Flag
  imports Go_Prelude
begin

text \<open>
  The part of the packages \<open>flag\<close> and \<open>strconv\<close> of Go's standard library that the two entry
  points use: parsing a command line against a table of flags, and the values of boolean and
  integer flags. A flag of a library outside the repository is an entry of the table, too.
\<close>

section \<open>Values (strconv)\<close>

definition parseBool :: "string \<Rightarrow> bool option" where
  "parseBool s =
     (if s \<in> {''1'', ''t'', ''T'', ''true'', ''TRUE'', ''True''} then Some True
      else if s \<in> {''0'', ''f'', ''F'', ''false'', ''FALSE'', ''False''} then Some False else None)"

text \<open>The value of a digit in bases up to 36; a letter counts in either case.\<close>

definition digit_value :: "char \<Rightarrow> nat option" where
  "digit_value c =
     (let n = of_char c in
      if 48 \<le> n \<and> n \<le> 57 then Some (n - 48)
      else if 65 \<le> n \<and> n \<le> 90 then Some (n - 55)
      else if 97 \<le> n \<and> n \<le> 122 then Some (n - 87) else None)"

text \<open>\<open>ParseUint\<close> with base 0: the prefix gives the base, an underscore is skipped.\<close>

definition int_base :: "string \<Rightarrow> nat \<times> string" where
  "int_base s =
     (case s of
        CHR ''0'' # x # y # rest \<Rightarrow>
          if x \<in> {CHR ''b'', CHR ''B''} then (2, y # rest)
          else if x \<in> {CHR ''o'', CHR ''O''} then (8, y # rest)
          else if x \<in> {CHR ''x'', CHR ''X''} then (16, y # rest)
          else (8, x # y # rest)
      | CHR ''0'' # rest \<Rightarrow> (8, rest)
      | _ \<Rightarrow> (10, s))"

fun int_digits :: "nat \<Rightarrow> string \<Rightarrow> nat \<Rightarrow> nat option" where
  "int_digits base [] acc = Some acc"
| "int_digits base (c # s) acc =
     (if c = CHR ''_'' then int_digits base s acc
      else case digit_value c of
        None \<Rightarrow> None
      | Some d \<Rightarrow> if d < base then int_digits base s (acc * base + d) else None)"

text \<open>
  \<open>underscoreOK\<close>: an underscore stands between digits, or between the prefix and a digit. The
  state is the kind of the character before: a digit, an underscore, or another.
\<close>

datatype under = BeforeDigit | BeforeUnder | BeforeOther

fun under_scan :: "bool \<Rightarrow> under \<Rightarrow> string \<Rightarrow> bool" where
  "under_scan hex st [] \<longleftrightarrow> st \<noteq> BeforeUnder"
| "under_scan hex st (c # s) \<longleftrightarrow>
     (if (case digit_value c of None \<Rightarrow> False | Some d \<Rightarrow> d < 10 \<or> hex \<and> d < 16) then under_scan hex BeforeDigit s
      else if c = CHR ''_'' then st = BeforeDigit \<and> under_scan hex BeforeUnder s
      else st \<noteq> BeforeUnder \<and> under_scan hex BeforeOther s)"

definition underscoreOK :: "string \<Rightarrow> bool" where
  "underscoreOK s =
     (case s of
        CHR ''0'' # x # rest \<Rightarrow>
          if x \<in> {CHR ''b'', CHR ''B'', CHR ''o'', CHR ''O'', CHR ''x'', CHR ''X''}
          then under_scan (x \<in> {CHR ''x'', CHR ''X''}) BeforeDigit rest
          else under_scan False BeforeOther s
      | _ \<Rightarrow> under_scan False BeforeOther s)"

definition parseUint :: "string \<Rightarrow> nat option" where
  "parseUint s =
     (if s = '''' then None
      else case int_base s of
        (base, ds) \<Rightarrow>
          (case int_digits base ds 0 of
             None \<Rightarrow> None
           | Some n \<Rightarrow> if n < 2 ^ 64 \<and> (CHR ''_'' \<in> set ds \<longrightarrow> underscoreOK s) then Some n else None))"

text \<open>\<open>ParseInt(s, 0, 64)\<close>.\<close>

definition parseInt :: "string \<Rightarrow> int option" where
  "parseInt s =
     (case s of
        [] \<Rightarrow> None
      | c # rest \<Rightarrow>
          (case parseUint (if c = CHR ''+'' \<or> c = CHR ''-'' then rest else s) of
             None \<Rightarrow> None
           | Some n \<Rightarrow>
               if c = CHR ''-'' then (if n \<le> 2 ^ 63 then Some (- int n) else None)
               else (if n < 2 ^ 63 then Some (int n) else None)))"

section \<open>The command line (flag)\<close>

text \<open>A flag: whether it is boolean, and which values its \<open>Set\<close> takes.\<close>

record flag =
  fl_bool :: bool
  fl_takes :: "string \<Rightarrow> bool"

type_synonym flags = "string \<rightharpoonup> flag"

definition StringFlag :: flag where
  "StringFlag = \<lparr>fl_bool = False, fl_takes = (\<lambda>v. True)\<rparr>"

definition BoolFlag :: flag where
  "BoolFlag = \<lparr>fl_bool = True, fl_takes = (\<lambda>v. parseBool v \<noteq> None)\<rparr>"

definition IntFlag :: flag where
  "IntFlag = \<lparr>fl_bool = False, fl_takes = (\<lambda>v. parseInt v \<noteq> None)\<rparr>"

datatype flag_error =
  BadSyntax string | NotDefined string | HelpWanted | BadValue string string | NeedsArgument string

text \<open>The text before the first equals sign after the first character, and the text behind it.\<close>

fun split_value :: "string \<Rightarrow> string \<times> string option" where
  "split_value [] = ([], None)"
| "split_value [c] = ([c], None)"
| "split_value (c # d # s) =
     (if d = CHR ''='' then ([c], Some s)
      else case split_value (d # s) of (name, v) \<Rightarrow> (c # name, v))"

text \<open>Is an argument a flag, and what is its text behind the dashes? \<open>--\<close> ends the flags.\<close>

datatype arg_kind = FlagArg string | EndOfFlags | NoFlag

definition arg_kind :: "string \<Rightarrow> arg_kind" where
  "arg_kind s =
     (case s of
        CHR ''-'' # c # rest \<Rightarrow>
          if c = CHR ''-'' then (if rest = '''' then EndOfFlags else FlagArg rest) else FlagArg (c # rest)
      | _ \<Rightarrow> NoFlag)"

text \<open>
  \<open>FlagSet.Parse\<close>: the settings in the order of the command line and the arguments left, or the
  first error. A boolean flag does not look at the next argument.
\<close>

fun parseFlags :: "flags \<Rightarrow> string list \<Rightarrow> flag_error + (string \<times> string) list \<times> string list" where
  "parseFlags F [] = Inr ([], [])"
| "parseFlags F (s # args) =
     (case arg_kind s of
        NoFlag \<Rightarrow> Inr ([], s # args)
      | EndOfFlags \<Rightarrow> Inr ([], args)
      | FlagArg text \<Rightarrow>
          if text = '''' \<or> hd text = CHR ''-'' \<or> hd text = CHR ''='' then Inl (BadSyntax s)
          else case split_value text of
            (name, val) \<Rightarrow>
              (case F name of
                 None \<Rightarrow> Inl (if name = ''help'' \<or> name = ''h'' then HelpWanted else NotDefined name)
               | Some f \<Rightarrow>
                   if fl_bool f then
                     (if \<not> fl_takes f (deref val ''true'') then Inl (BadValue name (deref val ''true''))
                      else case parseFlags F args of
                        Inl e \<Rightarrow> Inl e
                      | Inr (sets, rest) \<Rightarrow> Inr ((name, deref val ''true'') # sets, rest))
                   else
                     (case val of
                        Some v \<Rightarrow>
                          if \<not> fl_takes f v then Inl (BadValue name v)
                          else (case parseFlags F args of
                                  Inl e \<Rightarrow> Inl e
                                | Inr (sets, rest) \<Rightarrow> Inr ((name, v) # sets, rest))
                      | None \<Rightarrow>
                          (case args of
                             [] \<Rightarrow> Inl (NeedsArgument name)
                           | v # args1 \<Rightarrow>
                               if \<not> fl_takes f v then Inl (BadValue name v)
                               else (case parseFlags F args1 of
                                       Inl e \<Rightarrow> Inl e
                                     | Inr (sets, rest) \<Rightarrow> Inr ((name, v) # sets, rest))))))"

text \<open>The value of a flag is its last setting, or its default.\<close>

definition setting :: "(string \<times> string) list \<Rightarrow> string \<Rightarrow> string option" where
  "setting sets name = map_of (rev sets) name"

definition stringVar :: "(string \<times> string) list \<Rightarrow> string \<Rightarrow> string \<Rightarrow> string" where
  "stringVar sets name dflt = deref (setting sets name) dflt"

definition boolVar :: "(string \<times> string) list \<Rightarrow> string \<Rightarrow> bool \<Rightarrow> bool" where
  "boolVar sets name dflt =
     (case setting sets name of None \<Rightarrow> dflt | Some v \<Rightarrow> deref (parseBool v) dflt)"

definition intVar :: "(string \<times> string) list \<Rightarrow> string \<Rightarrow> int \<Rightarrow> int" where
  "intVar sets name dflt =
     (case setting sets name of None \<Rightarrow> dflt | Some v \<Rightarrow> deref (parseInt v) dflt)"

text \<open>With \<open>ExitOnError\<close> an error ends the program: with 0 when help was asked for, else with 2.\<close>

definition exit_code :: "flag_error \<Rightarrow> int" where
  "exit_code e = (if e = HelpWanted then 0 else 2)"

section \<open>Facts\<close>

definition flag_name :: "string \<Rightarrow> bool" where
  "flag_name name \<longleftrightarrow> name \<noteq> '''' \<and> hd name \<noteq> CHR ''-'' \<and> CHR ''='' \<notin> set name"

lemma split_value_set: "flag_name name \<Longrightarrow> split_value (name @ ''='' @ v) = (name, Some v)"
proof -
  have "name \<noteq> '''' \<Longrightarrow> CHR ''='' \<notin> set name \<Longrightarrow> split_value (name @ ''='' @ v) = (name, Some v)"
    by (induction name rule: split_value.induct) auto
  then show "flag_name name \<Longrightarrow> split_value (name @ ''='' @ v) = (name, Some v)" by (simp add: flag_name_def)
qed

lemma split_value_none: "CHR ''='' \<notin> set name \<Longrightarrow> split_value name = (name, None)"
  by (induction name rule: split_value.induct) auto

text \<open>Rendering settings and parsing the result gives the settings back.\<close>

definition render_flag :: "string \<times> string \<Rightarrow> string" where
  "render_flag nv = ''--'' @ fst nv @ ''='' @ snd nv"

definition settable :: "flags \<Rightarrow> string \<times> string \<Rightarrow> bool" where
  "settable F nv \<longleftrightarrow> flag_name (fst nv) \<and> (\<exists>f. F (fst nv) = Some f \<and> fl_takes f (snd nv))"

lemma parse_rendered:
  assumes "list_all (settable F) sets" and "rest = [] \<or> arg_kind (hd rest) = NoFlag"
  shows "parseFlags F (map render_flag sets @ rest) = Inr (sets, rest)"
  using assms(1)
proof (induction sets)
  case Nil
  then show ?case using assms(2) by (cases rest) auto
next
  case (Cons nv sets)
  obtain name v where nv: "nv = (name, v)" by fastforce
  obtain f where f: "flag_name name" "F name = Some f" "fl_takes f v" using Cons.prems nv by (auto simp: settable_def)
  have kind: "arg_kind (render_flag nv) = FlagArg (name @ ''='' @ v)"
    using f(1) by (auto simp: nv render_flag_def arg_kind_def)
  have head: "name @ ''='' @ v \<noteq> ''''" "hd (name @ ''='' @ v) \<noteq> CHR ''-''" "hd (name @ ''='' @ v) \<noteq> CHR ''=''"
    using f(1) by (cases name; auto simp: flag_name_def)+
  show ?case using Cons kind head f split_value_set [OF f(1), of v] by (simp add: nv)
qed

declare parseFlags.simps [simp del]

end
