(* ===== verification/Cmd.thy ===== *)
theory Cmd
  imports Go_Flag CheckRun_Controller
begin

text \<open>
  \<open>cmd/main.go\<close> and the flags of \<open>internal/runner/main.go\<close>: how the one binary tells its two
  modes apart, and what the manager is set up with. The manager itself is a library: setting it up
  is a list of steps, each of which the library accepts or refuses (\<open>accepts\<close>). The flags that
  libraries add to a command line are the table \<open>lib\<close>.
\<close>

section \<open>The runner's command line\<close>

definition runnerFlags :: "flags \<Rightarrow> flags" where
  "runnerFlags lib = lib(''max-concurrent-checks'' \<mapsto> IntFlag, ''allow-local-targets'' \<mapsto> BoolFlag)"

definition runner_Main :: "'w kube \<Rightarrow> pkgs \<Rightarrow> 'w on_error \<Rightarrow> 'w net \<Rightarrow> errgroup \<Rightarrow> (string \<Rightarrow> string) \<Rightarrow>
    bool \<Rightarrow> bool \<Rightarrow> flags \<Rightarrow> string list \<Rightarrow> 'w ctx \<Rightarrow> int \<times> 'w ctx" where
  "runner_Main K P onError N order getenv configOk clientOk lib args s =
     (case parseFlags (runnerFlags lib) args of
        Inl e \<Rightarrow> (exit_code e, s)
      | Inr (sets, _) \<Rightarrow>
          runnerMain K P onError N order getenv (intVar sets ''max-concurrent-checks'' 8)
            (boolVar sets ''allow-local-targets'' False) configOk clientOk s)"

section \<open>The two modes\<close>

datatype program = RunnerProgram "string list" | ManagerProgram "string list"

text \<open>\<open>argv\<close> is \<open>os.Args\<close>; a program gets the arguments its flags are parsed from.\<close>

definition main_dispatch :: "string list \<Rightarrow> program" where
  "main_dispatch argv =
     (if length argv > 1 then
        if argv ! 1 = ''runner'' then RunnerProgram (drop 2 argv)
        else if argv ! 1 = ''manager'' then ManagerProgram (drop 1 (take 1 argv @ drop 2 argv))
        else ManagerProgram (drop 1 argv)
      else ManagerProgram (drop 1 argv))"

section \<open>The manager's command line\<close>

record ManagerSettings =
  mf_runnerImage :: string
  mf_runnerServiceAccount :: string
  mf_allowLocalTargets :: bool
  mf_metricsAddr :: string
  mf_probeAddr :: string
  mf_enableLeaderElection :: bool
  mf_secureMetrics :: bool
  mf_webhookCertPath :: string
  mf_webhookCertName :: string
  mf_webhookCertKey :: string
  mf_metricsCertPath :: string
  mf_metricsCertName :: string
  mf_metricsCertKey :: string
  mf_enableHTTP2 :: bool

definition managerFlags :: "flags \<Rightarrow> flags" where
  "managerFlags lib = lib(
     ''runner-image'' \<mapsto> StringFlag, ''runner-service-account'' \<mapsto> StringFlag,
     ''allow-local-targets'' \<mapsto> BoolFlag, ''metrics-bind-address'' \<mapsto> StringFlag,
     ''health-probe-bind-address'' \<mapsto> StringFlag, ''leader-elect'' \<mapsto> BoolFlag,
     ''metrics-secure'' \<mapsto> BoolFlag, ''webhook-cert-path'' \<mapsto> StringFlag,
     ''webhook-cert-name'' \<mapsto> StringFlag, ''webhook-cert-key'' \<mapsto> StringFlag,
     ''metrics-cert-path'' \<mapsto> StringFlag, ''metrics-cert-name'' \<mapsto> StringFlag,
     ''metrics-cert-key'' \<mapsto> StringFlag, ''enable-http2'' \<mapsto> BoolFlag)"

definition managerSettings :: "(string \<times> string) list \<Rightarrow> ManagerSettings" where
  "managerSettings sets =
     \<lparr>mf_runnerImage = stringVar sets ''runner-image'' '''',
      mf_runnerServiceAccount = stringVar sets ''runner-service-account'' DefaultRunnerServiceAccount,
      mf_allowLocalTargets = boolVar sets ''allow-local-targets'' False,
      mf_metricsAddr = stringVar sets ''metrics-bind-address'' ''0'',
      mf_probeAddr = stringVar sets ''health-probe-bind-address'' '':8081'',
      mf_enableLeaderElection = boolVar sets ''leader-elect'' False,
      mf_secureMetrics = boolVar sets ''metrics-secure'' True,
      mf_webhookCertPath = stringVar sets ''webhook-cert-path'' '''',
      mf_webhookCertName = stringVar sets ''webhook-cert-name'' ''tls.crt'',
      mf_webhookCertKey = stringVar sets ''webhook-cert-key'' ''tls.key'',
      mf_metricsCertPath = stringVar sets ''metrics-cert-path'' '''',
      mf_metricsCertName = stringVar sets ''metrics-cert-name'' ''tls.crt'',
      mf_metricsCertKey = stringVar sets ''metrics-cert-key'' ''tls.key'',
      mf_enableHTTP2 = boolVar sets ''enable-http2'' False\<rparr>"

section \<open>What the manager is made with\<close>

text \<open>An option on a TLS configuration, here only the protocols it is to offer.\<close>

datatype tls_option = NextProtos "string list"

record WebhookOptions =
  wo_TLSOpts :: "tls_option list"
  wo_CertDir :: string
  wo_CertName :: string
  wo_KeyName :: string

record MetricsOptions =
  mo_BindAddress :: string
  mo_SecureServing :: bool
  mo_TLSOpts :: "tls_option list"
  mo_AuthFilter :: bool
  mo_CertDir :: string
  mo_CertName :: string
  mo_KeyName :: string

record 's ManagerOptions =
  mg_Scheme :: 's
  mg_UncachedKinds :: "string list"
  mg_Metrics :: MetricsOptions
  mg_Webhook :: WebhookOptions
  mg_HealthProbeBindAddress :: string
  mg_LeaderElection :: bool
  mg_LeaderElectionID :: string

definition tlsOpts :: "ManagerSettings \<Rightarrow> tls_option list" where
  "tlsOpts f = (if \<not> mf_enableHTTP2 f then [NextProtos [''http/1.1'']] else [])"

definition webhookServerOptions :: "ManagerSettings \<Rightarrow> WebhookOptions" where
  "webhookServerOptions f =
     (let opts = \<lparr>wo_TLSOpts = tlsOpts f, wo_CertDir = '''', wo_CertName = '''', wo_KeyName = ''''\<rparr> in
      if length (mf_webhookCertPath f) > 0
      then opts\<lparr>wo_CertDir := mf_webhookCertPath f, wo_CertName := mf_webhookCertName f,
                wo_KeyName := mf_webhookCertKey f\<rparr>
      else opts)"

definition metricsServerOptions :: "ManagerSettings \<Rightarrow> MetricsOptions" where
  "metricsServerOptions f =
     (let opts = \<lparr>mo_BindAddress = mf_metricsAddr f, mo_SecureServing = mf_secureMetrics f, mo_TLSOpts = tlsOpts f,
            mo_AuthFilter = False, mo_CertDir = '''', mo_CertName = '''', mo_KeyName = ''''\<rparr>;
          opts1 = if mf_secureMetrics f then opts\<lparr>mo_AuthFilter := True\<rparr> else opts in
      if length (mf_metricsCertPath f) > 0
      then opts1\<lparr>mo_CertDir := mf_metricsCertPath f, mo_CertName := mf_metricsCertName f,
                 mo_KeyName := mf_metricsCertKey f\<rparr>
      else opts1)"

text \<open>\<open>scheme\<close> is the package's variable of that name, which \<open>init\<close> has filled.\<close>

definition managerOptions :: "'s \<Rightarrow> ManagerSettings \<Rightarrow> 's ManagerOptions" where
  "managerOptions scheme f =
     \<lparr>mg_Scheme = scheme, mg_UncachedKinds = [''ServiceAccount''], mg_Metrics = metricsServerOptions f,
      mg_Webhook = webhookServerOptions f, mg_HealthProbeBindAddress = mf_probeAddr f,
      mg_LeaderElection = mf_enableLeaderElection f, mg_LeaderElectionID = ''36ce1173.verikube.dev''\<rparr>"

definition checkRunReconciler :: "ManagerSettings \<Rightarrow> CheckRunReconciler" where
  "checkRunReconciler f =
     \<lparr>rc_RunnerImage = mf_runnerImage f, rc_RunnerServiceAccount = mf_runnerServiceAccount f,
      rc_AllowLocalTargets = mf_allowLocalTargets f\<rparr>"

section \<open>Setting up\<close>

text \<open>The calls of \<open>runManager\<close> that can fail; a reconciler is named by the kind it is for.\<close>

datatype 's setup_step =
    LoadConfig | NewManager "'s ManagerOptions" | SetupSuiteReconciler | SetupRunReconciler CheckRunReconciler
  | AddHealthzCheck | AddReadyzCheck | StartManager

fun attempt :: "('s setup_step \<Rightarrow> bool) \<Rightarrow> 's setup_step list \<Rightarrow> bool \<times> 's setup_step list" where
  "attempt accepts [] = (True, [])"
| "attempt accepts (x # xs) =
     (if accepts x then (case attempt accepts xs of (ok, tried) \<Rightarrow> (ok, x # tried)) else (False, [x]))"

text \<open>The exit code of the manager and the steps it has tried.\<close>

definition runManager :: "'s \<Rightarrow> ('s setup_step \<Rightarrow> bool) \<Rightarrow> flags \<Rightarrow> string list \<Rightarrow> int \<times> 's setup_step list" where
  "runManager scheme accepts lib args =
     (case parseFlags (managerFlags lib) args of
        Inl e \<Rightarrow> (exit_code e, [])
      | Inr (sets, _) \<Rightarrow>
          let f = managerSettings sets in
          (case attempt accepts [LoadConfig, NewManager (managerOptions scheme f)] of
             (False, tried) \<Rightarrow> (1, tried)
           | (True, tried) \<Rightarrow>
               if mf_runnerImage f = '''' then (1, tried)
               else
                 (case attempt accepts [SetupSuiteReconciler, SetupRunReconciler (checkRunReconciler f),
                     AddHealthzCheck, AddReadyzCheck, StartManager] of
                    (ok, tried1) \<Rightarrow> (if ok then 0 else 1, tried @ tried1))))"

section \<open>Facts\<close>

lemma attempt_iff: "fst (attempt accepts xs) \<longleftrightarrow> list_all accepts xs"
  by (induction xs) (auto split: prod.split)

lemma attempt_prefix: "\<exists>rest. xs = snd (attempt accepts xs) @ rest"
  by (induction xs) (auto split: prod.split)

lemma attempt_all: "list_all accepts xs \<Longrightarrow> attempt accepts xs = (True, xs)"
  by (induction xs) auto

text \<open>Parsing a command line that only knows \<open>--allow-local-targets\<close>.\<close>

lemma parse_job_args:
  "parseFlags (runnerFlags lib) [] = Inr ([], [])"
  "parseFlags (runnerFlags lib) [''--allow-local-targets''] = Inr ([(''allow-local-targets'', ''true'')], [])"
  by (simp_all add: parseFlags.simps arg_kind_def runnerFlags_def BoolFlag_def parseBool_def)

lemma dispatch_job:
  "main_dispatch (prog # jobArgs r) =
     RunnerProgram (if rc_AllowLocalTargets r then [''--allow-local-targets''] else [])"
  by (simp add: main_dispatch_def jobArgs_def runnerSubcommand_def)

lemma runner_Main_job:
  "runner_Main K P onError N order getenv configOk clientOk lib
     (if rc_AllowLocalTargets r then [''--allow-local-targets''] else []) s =
   runnerMain K P onError N order getenv 8 (rc_AllowLocalTargets r) configOk clientOk s"
  by (auto simp: runner_Main_def parse_job_args intVar_def boolVar_def setting_def parseBool_def)

lemma runnerMain_issues:
  assumes "retrier onError" and "guarded_network N"
  shows "issues (runnerAction \<lparr>opt_AllowLocalTargets = allowLocal\<rparr>) s
     (snd (runnerMain K P onError N order getenv maxConcurrent allowLocal configOk clientOk s))"
  using Run_issues [OF assms]
  by (auto simp: runnerMain_def Let_def split: sum.split prod.split run_outcome.split) (metis snd_conv)+

text \<open>The reconciler the manager has set up, if any.\<close>

lemma runManager_reconciler:
  assumes "parseFlags (managerFlags lib) args = Inr (sets, rest)"
    and "SetupRunReconciler r \<in> set (snd (runManager scheme accepts lib args))"
  shows "r = checkRunReconciler (managerSettings sets) \<and> mf_runnerImage (managerSettings sets) \<noteq> ''''"
  using assms by (auto simp: runManager_def Let_def split: if_splits)

end
