(* ===== verification/Cmd_Properties.thy ===== *)
theory Cmd_Properties
  imports Cluster Cmd
begin

text \<open>
  Properties of the entry points. The facts behind them are in \<open>Go_Flag\<close> and \<open>Cmd\<close>.
\<close>

section \<open>The manager\<close>

text \<open>Note: the manager ends with 0 exactly if its command line parses, an image for the runners is given
  and every step of the set-up succeeds; it never sets up the reconciler of runs without that
  image, and the one it sets up carries the values of the flags.\<close>

theorem manager_starts_iff:
  assumes "parseFlags (managerFlags lib) args = Inr (sets, rest)"
  defines "f \<equiv> managerSettings sets"
  shows "(fst (runManager scheme accepts lib args) = 0 \<longleftrightarrow> mf_runnerImage f \<noteq> '''' \<and> list_all accepts
      [LoadConfig, NewManager (managerOptions scheme f), SetupSuiteReconciler, SetupRunReconciler (checkRunReconciler f),
       AddHealthzCheck, AddReadyzCheck, StartManager])
    \<and> (SetupRunReconciler r \<in> set (snd (runManager scheme accepts lib args)) \<longrightarrow> mf_runnerImage f \<noteq> ''''
        \<and> rc_RunnerImage r = mf_runnerImage f \<and> rc_RunnerServiceAccount r = mf_runnerServiceAccount f
        \<and> rc_AllowLocalTargets r = mf_allowLocalTargets f)"
proof
  show "fst (runManager scheme accepts lib args) = 0 \<longleftrightarrow> mf_runnerImage f \<noteq> '''' \<and> list_all accepts
      [LoadConfig, NewManager (managerOptions scheme f), SetupSuiteReconciler, SetupRunReconciler (checkRunReconciler f),
       AddHealthzCheck, AddReadyzCheck, StartManager]"
    using assms(1) by (simp add: runManager_def Let_def f_def)
  show "SetupRunReconciler r \<in> set (snd (runManager scheme accepts lib args)) \<longrightarrow> mf_runnerImage f \<noteq> ''''
        \<and> rc_RunnerImage r = mf_runnerImage f \<and> rc_RunnerServiceAccount r = mf_runnerServiceAccount f
        \<and> rc_AllowLocalTargets r = mf_allowLocalTargets f"
    using runManager_reconciler [OF assms(1), of r scheme accepts] by (auto simp: f_def checkRunReconciler_def)
qed

theorem manager_starts_iff_witness:
  "fst (runManager [()] (\<lambda>x. True) Map.empty [''--runner-image=verikube:1'', ''--leader-elect'']) = 0
   \<and> fst (runManager [()] (\<lambda>x. True) Map.empty [''--leader-elect'']) \<noteq> 0"
proof -
  have p: "parseFlags (managerFlags Map.empty) [''--runner-image=verikube:1'', ''--leader-elect''] =
      Inr ([(''runner-image'', ''verikube:1''), (''leader-elect'', ''true'')], [])"
    "parseFlags (managerFlags Map.empty) [''--leader-elect''] = Inr ([(''leader-elect'', ''true'')], [])"
    by (simp_all add: parseFlags.simps arg_kind_def managerFlags_def BoolFlag_def StringFlag_def parseBool_def)
  show ?thesis
    using manager_starts_iff [OF p(1), of "[()]" "\<lambda>x. True"] manager_starts_iff [OF p(2), of "[()]" "\<lambda>x. True"]
    by (simp add: managerSettings_def stringVar_def setting_def)
qed

section \<open>Flags\<close>

text \<open>Note: settings survive the command line: rendering any settings of defined flags with the values
  their types take as \<open>--name=value\<close> and parsing the result gives the same settings in the same
  order and the same remaining arguments, for the flags of the runner and of the manager, with any
  flags of libraries beside them.\<close>

theorem flags_round_trip:
  assumes "F = runnerFlags lib \<or> F = managerFlags lib" and "list_all (settable F) sets"
    and "rest = [] \<or> arg_kind (hd rest) = NoFlag"
  shows "parseFlags F (map render_flag sets @ rest) = Inr (sets, rest)"
  using assms(2,3) by (rule parse_rendered)

theorem flags_round_trip_witness:
  "parseFlags (managerFlags Map.empty) [''--runner-image=verikube:1'', ''--metrics-secure=false''] =
     Inr ([(''runner-image'', ''verikube:1''), (''metrics-secure'', ''false'')], [])"
proof -
  have "list_all (settable (managerFlags Map.empty)) [(''runner-image'', ''verikube:1''), (''metrics-secure'', ''false'')]"
    by (simp add: settable_def flag_name_def managerFlags_def BoolFlag_def StringFlag_def parseBool_def)
      (rule exI [of _ False], simp)
  from flags_round_trip [OF disjI2 [OF refl] this, of "[]"] show ?thesis by (simp add: render_flag_def)
qed

section \<open>From the manager's flag to the pod\<close>

text \<open>C21: the operator decides about local targets: a pod of a Job that a manager's reconciler built
  starts as a runner with the arguments of its container, and connects to a loopback or link-local
  address only if the manager was started with \<open>--allow-local-targets\<close>.\<close>

theorem operator_flag_reaches_pods:
  assumes "parseFlags (managerFlags lib) margs = Inr (sets, rest)"
    and "SetupRunReconciler r \<in> set (snd (runManager scheme accepts lib margs))"
    and "\<And>j. p_own_job P run j = Inr (own j)" and "\<And>j. job_Spec (own j) = job_Spec j"
    and "buildJob P r run rn timeout = Inr job" and "c \<in> set (ps_Containers (js_PodSpec (job_Spec job)))"
    and "retrier onError" and "guarded_network N"
  shows "\<exists>args new. main_dispatch (prog # ctr_Args c) = RunnerProgram args
    \<and> acts (snd (runner_Main K P onError N order getenv configOk clientOk lib' args s)) = acts s @ new
    \<and> (\<forall>address. Connect address \<in> set new \<longrightarrow> boolVar sets ''allow-local-targets'' False \<or> admits address)"
proof -
  have r: "rc_AllowLocalTargets r = boolVar sets ''allow-local-targets'' False"
    using runManager_reconciler [OF assms(1,2)] by (simp add: checkRunReconciler_def managerSettings_def)
  have "c = runnerContainer r run rn" using assms(5,6) by (auto simp: buildJob_def Let_def assms(3,4))
  then have args: "ctr_Args c = jobArgs r" by (simp add: runnerContainer_def)
  let ?args = "if rc_AllowLocalTargets r then [''--allow-local-targets''] else []"
  obtain new where new: "acts (snd (runner_Main K P onError N order getenv configOk clientOk lib' ?args s)) = acts s @ new"
    "\<forall>a \<in> set new. runnerAction \<lparr>opt_AllowLocalTargets = rc_AllowLocalTargets r\<rparr> a"
    using runnerMain_issues [OF assms(7,8)] unfolding runner_Main_job issues_set by blast
  then have "\<forall>address. Connect address \<in> set new \<longrightarrow> boolVar sets ''allow-local-targets'' False \<or> admits address"
    using r by (metis (no_types) Options.select_convs(1) allowed_def runnerAction.simps(1))
  with new(1) show ?thesis unfolding args dispatch_job by blast
qed

theorem operator_flag_reaches_pods_witness:
  "\<exists>job c args. buildJob refPkgs sampleReconciler (sampleRun ''demo'' CheckRunPending []) zoneRunner Minute = Inr job
     \<and> c \<in> set (ps_Containers (js_PodSpec (job_Spec job))) \<and> main_dispatch (''/verikube'' # ctr_Args c) = RunnerProgram args
     \<and> Connect ''127.0.0.1:80'' \<notin> set (acts (snd (runner_Main (podKube (sampleRun ''demo'' CheckRunRunning [])) refPkgs
          plainOnError scriptNet inOrder podEnv True True Map.empty args webCtx)))"
proof -
  let ?run = "sampleRun ''demo'' CheckRunPending []"
  let ?margs = "[''--runner-image=verikube:1'', ''--runner-service-account='']"
  let ?sets = "[(''runner-image'', ''verikube:1''), (''runner-service-account'', '''')]"
  let ?own = "\<lambda>j. j\<lparr>job_Meta := (job_Meta j)\<lparr>om_Controller := Some (runOwner ?run)\<rparr>\<rparr>"
  have p: "parseFlags (managerFlags Map.empty) ?margs = Inr (?sets, [])"
    by (simp add: parseFlags.simps arg_kind_def managerFlags_def StringFlag_def)
  then have r: "SetupRunReconciler sampleReconciler \<in> set (snd (runManager [()] (\<lambda>x. True) Map.empty ?margs))"
    by (simp add: runManager_def managerSettings_def checkRunReconciler_def stringVar_def boolVar_def setting_def
        sampleReconciler_def)
  obtain job where job: "buildJob refPkgs sampleReconciler ?run zoneRunner Minute = Inr job"
    by (simp add: buildJob_def Let_def)
  then have c: "runnerContainer sampleReconciler ?run zoneRunner \<in> set (ps_Containers (js_PodSpec (job_Spec job)))"
    by (auto simp: buildJob_def Let_def)
  have local: "dialGuard ''127.0.0.1:80'' = Some (BlockedIP (v4_prefix @ [127, 0, 0, 1]))" by code_simp
  from operator_flag_reaches_pods [where own = ?own and s = webCtx and prog = "''/verikube''" and N = scriptNet
      and K = "podKube (sampleRun ''demo'' CheckRunRunning [])" and order = inOrder and getenv = podEnv
      and configOk = True and clientOk = True and lib' = Map.empty,
      OF p r _ _ job c plain.retrier_axioms script.guarded_network_axioms]
  obtain args new where args: "main_dispatch (''/verikube'' # ctr_Args (runnerContainer sampleReconciler ?run zoneRunner)) = RunnerProgram args"
    "acts (snd (runner_Main (podKube (sampleRun ''demo'' CheckRunRunning [])) refPkgs
          plainOnError scriptNet inOrder podEnv True True Map.empty args webCtx)) = acts webCtx @ new"
    "\<forall>address. Connect address \<in> set new \<longrightarrow> boolVar ?sets ''allow-local-targets'' False \<or> admits address"
    by (auto simp del: parseFlags.simps)
  have "Connect ''127.0.0.1:80'' \<notin> set new"
    using args(3) local by (auto simp: boolVar_def setting_def simp flip: dialGuard_admits)
  then show ?thesis using job c args(1,2) by (auto simp: webCtx_def)
qed

end
