(* ===== verification/Lifecycle.thy ===== *)
theory Lifecycle
  imports CheckRun_Controller Admission
begin

text \<open>
  The life of one CheckRun on the API server. A world holds the stored runs; it moves by a pass of
  the reconciler, by a report of a runner pod, which changes the entries under \<open>runners\<close> in any
  way, and by everything that leaves the run alone, such as time and the Jobs. The locale
  \<open>run_state\<close> is the documented effect of server-side apply on the two writers of the status:
  the controller's document replaces the fields it owns and leaves \<open>runners\<close>; times are stored in
  whole seconds, as \<open>metav1.Time\<close> is serialised. In \<open>run_state\<close> the reconciler reads what is stored;
  \<open>cached_state\<close> is the contract of a server that is read through a cache, as the manager does it. Requests may fail at any time; the
  invariants hold all the same, and only the theorem about the end of a run asks the server to
  answer.
\<close>

section \<open>What applying a status stores\<close>

definition whole_second :: "time \<Rightarrow> time" where
  "whole_second t = t div Second * Second"

definition wire :: "CheckRunStatus \<Rightarrow> CheckRunStatus" where
  "wire st = st\<lparr>st_StartTime := map_option whole_second (st_StartTime st),
     st_CompletionTime := map_option whole_second (st_CompletionTime st)\<rparr>"

definition applied :: "pkgs \<Rightarrow> CheckRun \<Rightarrow> controllerStatus \<Rightarrow> CheckRun" where
  "applied P run cs = run\<lparr>run_Status := (wire (newStatus P run cs))\<lparr>st_Runners := st_Runners (run_Status run)\<rparr>\<rparr>"

text \<open>The same when the status was made from a copy of the run and another version of it is stored.\<close>

definition overlaid :: "pkgs \<Rightarrow> CheckRun \<Rightarrow> controllerStatus \<Rightarrow> CheckRun \<Rightarrow> CheckRun" where
  "overlaid P run cs cur = cur\<lparr>run_Status := (wire (newStatus P run cs))\<lparr>st_Runners := st_Runners (run_Status cur)\<rparr>\<rparr>"

lemma applied_overlaid: "applied P run cs = overlaid P run cs run"
  by (simp add: applied_def overlaid_def)

lemma overlaid_simps [simp]:
  "run_Meta (overlaid P run cs cur) = run_Meta cur" "run_Spec (overlaid P run cs cur) = run_Spec cur"
  "run_Status (overlaid P run cs cur) = (run_Status (applied P run cs))\<lparr>st_Runners := st_Runners (run_Status cur)\<rparr>"
  by (simp_all add: applied_def overlaid_def)

lemma whole_second_idem [simp]: "whole_second (whole_second t) = whole_second t"
  by (simp add: whole_second_def)

lemma whole_second_le: "whole_second t \<le> t"
  unfolding whole_second_def by (metis div_mult_mod_eq pos_mod_sign zero_less_numeral le_add_same_cancel1)

lemma applied_simps [simp]:
  "run_Meta (applied P run cs) = run_Meta run" "run_Spec (applied P run cs) = run_Spec run"
  "st_Phase (run_Status (applied P run cs)) = cs_phase cs"
  "st_StartTime (run_Status (applied P run cs)) = map_option whole_second (cs_startTime cs)"
  "st_CompletionTime (run_Status (applied P run cs)) = map_option whole_second (cs_completionTime cs)"
  "st_Summary (run_Status (applied P run cs)) = cs_summary cs"
  "st_Runners (run_Status (applied P run cs)) = st_Runners (run_Status run)"
  "st_Conditions (run_Status (applied P run cs)) = st_Conditions (newStatus P run cs)"
  by (simp_all add: applied_def wire_def newStatus_def)

section \<open>What a pass decides\<close>

text \<open>The statuses a pass can write: running, an error, or a verdict on complete results.\<close>

definition verdict :: "CheckRun \<Rightarrow> CheckRunPhase" where
  "verdict run = (if \<forall>p \<in> set (assignments run). assignmentPassed run p then CheckRunSucceeded else CheckRunFailed)"

definition decides :: "CheckRun \<Rightarrow> time \<Rightarrow> controllerStatus \<Rightarrow> bool" where
  "decides run now cs \<longleftrightarrow> cs = runningStatus run now
     \<or> (\<exists>c. cs = finishStatus run CheckRunError now None c)
     \<or> reported run \<and> cs = finishStatus run (verdict run) now (Some (summaryOf run)) noCondition"

lemma reconcileJobs_form:
  obtains (finish) u ph sm c where "reconcileJobs K P run now timeout jobs s = finish K P run ph now sm c u"
      "world u = world s" "decides run now (finishStatus run ph now sm c)" "isTerminalPhase ph"
      "overdue run now timeout \<or> find (\<lambda>(rnName, job). jobFailed job) (p_range_jobs P jobs) \<noteq> None
        \<or> list_all (\<lambda>(rnName, job). jobSucceeded job) (p_range_jobs P jobs) \<and> reported run"
  | (running) u where "reconcileJobs K P run now timeout jobs s = stillRunning K P run now timeout u"
      "world u = world s" "\<not> overdue run now timeout" "find (\<lambda>(rnName, job). jobFailed job) (p_range_jobs P jobs) = None"
      "\<not> (list_all (\<lambda>(rnName, job). jobSucceeded job) (p_range_jobs P jobs) \<and> reported run)"
proof (cases "overdue run now timeout")
  case True
  then show thesis
    by (intro finish [of CheckRunError None "conditionTrue ConditionDeadlineExceeded ''Timeout'' (deadlineMessage timeout)"
          "warning run ''DeadlineExceeded'' (deadlineMessage timeout) s"])
      (auto simp: reconcileJobs_def after_def overdue_def warning_def decides_def isTerminalPhase_def)
next
  case False
  show thesis
  proof (cases "find (\<lambda>(rnName, job). jobFailed job) (p_range_jobs P jobs)")
    case (Some rj)
    obtain rn job where rj: "rj = (rn, job)" by fastforce
    let ?msg = "Sprintf ''runner Job %s failed: %s'' [AStr (job_Name job), AStr (jobFailureMessage job)]"
    from False Some rj show thesis
      by (intro finish [of CheckRunError None "conditionTrue ConditionCompleted ''RunnerError''
            (Sprintf ''runner %s could not execute checks'' [AStr rn])"
            "warning run ''RunnerError'' (Sprintf ''%s'' [AMsg ?msg]) s"])
        (auto simp: reconcileJobs_def after_def overdue_def warning_def decides_def isTerminalPhase_def Let_def)
  next
    case None
    let ?u = "warnOnForeignPodEntries run jobs s"
    have wu: "world ?u = world s" by (simp add: warnOnForeignPodEntries_def)
    obtain failing where cnt: "countPairs run (assignments run) (zeroSummary, []) = (summaryOf run, failing)"
      by (cases "countPairs run (assignments run) (zeroSummary, [])") (simp add: summaryOf_def)
    let ?ev = "map (\<lambda>f. runEvent run EventTypeWarning ''CheckFailed'' (Sprintf ''%s'' [AMsg f])) failing"
    have eq: "reconcileJobs K P run now timeout jobs s =
      (if list_all (\<lambda>(rnName, job). jobSucceeded job) (p_range_jobs P jobs) then
         if reported run then
           if sum_Failed (summaryOf run) > 0
           then finish K P run CheckRunFailed now (Some (summaryOf run)) noCondition (emits ?ev ?u)
           else finish K P run CheckRunSucceeded now (Some (summaryOf run)) noCondition ?u
         else stillRunning K P run now timeout ?u
       else stillRunning K P run now timeout s)"
      using False None cnt by (simp add: reconcileJobs_def after_def overdue_def Let_def aggregate_eq)
    have v: "verdict run = (if sum_Failed (summaryOf run) > 0 then CheckRunFailed else CheckRunSucceeded)"
      by (simp add: verdict_def failed_count)
    have d: "decides run now (finishStatus run (verdict run) now (Some (summaryOf run)) noCondition)" if "reported run"
      using that by (simp add: decides_def)
    show thesis
    proof (cases "list_all (\<lambda>(rnName, job). jobSucceeded job) (p_range_jobs P jobs) \<and> reported run")
      case True
      with d v wu show thesis
        by (intro finish [of "verdict run" "Some (summaryOf run)" noCondition
              "if sum_Failed (summaryOf run) > 0 then emits ?ev ?u else ?u"]) (auto simp: eq isTerminalPhase_def)
    next
      case waits: False
      with False None wu show thesis by (intro running [of "if list_all (\<lambda>(rnName, job). jobSucceeded job) (p_range_jobs P jobs) then ?u else s"])
          (auto simp: eq)
    qed
  qed
qed

section \<open>The stored runs\<close>

text \<open>
  What the documents made from one copy of a run do to the stored runs: \<open>put\<close> gives what is stored under its
  key after one that is accepted.
\<close>

definition puts :: "('w \<Rightarrow> nkey \<Rightarrow> CheckRun option) \<Rightarrow> 'w kube \<Rightarrow> pkgs \<Rightarrow> CheckRun \<Rightarrow> (nkey \<Rightarrow> CheckRun option) \<Rightarrow>
    (controllerStatus \<Rightarrow> CheckRun option) \<Rightarrow> bool" where
  "puts stored K P run st put \<longleftrightarrow> (\<forall>w cs m w'. stored w = st \<longrightarrow> p_status_map P (newStatus P run cs) = Inr m \<longrightarrow>
     k_apply_status K (statusDocument run m) checkRunFieldManager w = (None, w') \<longrightarrow>
     stored w' = st(meta_key (run_Meta run) := put cs))"

text \<open>The outcome of a pass that has read a run which has not ended.\<close>

definition pass_outcome :: "('w \<Rightarrow> nkey \<Rightarrow> CheckRun option) \<Rightarrow> (controllerStatus \<Rightarrow> CheckRun option) \<Rightarrow> CheckRun \<Rightarrow> time \<Rightarrow>
    'w ctx \<Rightarrow> (api_error + duration) \<times> 'w ctx \<Rightarrow> bool" where
  "pass_outcome stored put run now s out \<longleftrightarrow>
     (\<exists>e. fst out = Inl e \<and> stored (world (snd out)) = stored (world s))
     \<or> (\<exists>cs d. fst out = Inr d \<and> decides run now cs
          \<and> stored (world (snd out)) = (stored (world s))(meta_key (run_Meta run) := put cs)
          \<and> (\<not> isTerminalPhase (cs_phase cs) \<longrightarrow> cs = runningStatus run now \<and> \<not> overdue run now (runTimeout run)
               \<and> d = dur_add (time_sub (time_add (deref (st_StartTime (run_Status run)) now) (runTimeout run)) now) Second))"

locale run_frame =
  fixes stored :: "'w \<Rightarrow> nkey \<Rightarrow> CheckRun option" and K :: "'w kube"
  assumes frame: "stored (snd (k_get_run K k w)) = stored w" "stored (snd (k_get_sa K k w)) = stored w"
      "stored (snd (k_get_job K k w)) = stored w" "stored (snd (k_create_job K job w)) = stored w"
      "stored (snd (k_get_suite K k w)) = stored w"
    and apply_refused: "k_apply_status K doc owner w = (Some e, w') \<Longrightarrow> stored w' = stored w"
begin

lemma applyStatus_puts:
  assumes "applyStatus K P run cs s = (q, t)" and "puts stored K P run (stored (world s)) put"
  shows "stored (world t) = (if q = None then (stored (world s))(meta_key (run_Meta run) := put cs) else stored (world s))"
proof (cases "p_status_map P (newStatus P run cs)")
  case (Inl e)
  then show ?thesis using assms by (auto simp: applyStatus_def)
next
  case (Inr m)
  obtain q' w where k: "k_apply_status K (statusDocument run m) checkRunFieldManager (world s) = (q', w)" by fastforce
  then have "q = q'" "world t = w" using assms(1) Inr by (auto simp: applyStatus_def Let_def perform_def)
  moreover have "stored w = (stored (world s))(meta_key (run_Meta run) := put cs)" if "q' = None"
    using assms(2) Inr k unfolding that puts_def by blast
  ultimately show ?thesis using k apply_refused by (cases q') auto
qed

lemma perform_frame: "perform a f s = (q, t) \<Longrightarrow> (\<And>w. stored (snd (f w)) = stored w) \<Longrightarrow> stored (world t) = stored (world s)"
  by (auto simp: perform_def split: prod.splits) (metis snd_conv)

lemma recordMetrics_frame: "stored (world (recordMetrics K P run phase dur now s)) = stored (world s)"
  using frame(5)
  by (auto simp: recordMetrics_def recordVerdicts_def Let_def SetLastResults_emits DeleteSuite_emits perform_def
      split: option.split prod.split) (metis snd_conv world_emit)+

lemma finish_puts:
  assumes "finish K P run ph now sm c s = (q, t)" and "puts stored K P run (stored (world s)) put"
  shows "(q = Inr 0 \<and> stored (world t) = (stored (world s))(meta_key (run_Meta run) := put (finishStatus run ph now sm c)))
     \<or> (\<exists>e. q = Inl e \<and> stored (world t) = stored (world s))"
proof -
  obtain a u where ap: "applyStatus K P run (finishStatus run ph now sm c) s = (a, u)" by fastforce
  from applyStatus_puts [OF this assms(2)] show ?thesis
    using assms(1) ap recordMetrics_frame by (cases a) (auto simp: finish_def Let_def split: if_splits)
qed

lemma stillRunning_puts:
  assumes "stillRunning K P run now timeout s = (q, t)" and "puts stored K P run (stored (world s)) put"
  shows "(q = Inr (dur_add (time_sub (time_add (deref (st_StartTime (run_Status run)) now) timeout) now) Second)
       \<and> stored (world t) = (stored (world s))(meta_key (run_Meta run) := put (runningStatus run now)))
     \<or> (\<exists>e. q = Inl e \<and> stored (world t) = stored (world s))"
proof -
  obtain a u where ap: "applyStatus K P run (runningStatus run now) s = (a, u)" by fastforce
  from applyStatus_puts [OF this assms(2)] show ?thesis
    using assms(1) ap by (cases a) (auto simp: stillRunning_def Let_def)
qed

lemma ensureJobs_frame:
  "stored (world (snd (ensureJobs K P r run timeout rns jobs s))) = stored (world s)"
proof (induction rns arbitrary: jobs s)
  case (Cons rn rns)
  let ?key = "(run_Namespace run, jobName (run_Name run) (rn_Name rn))"
  obtain g s1 where g: "perform (Req (GetJob ?key)) (k_get_job K ?key) s = (g, s1)" by fastforce
  have s1: "stored (world s1) = stored (world s)" using g frame(3) by (rule perform_frame)
  have made: "stored (world s2) = stored (world s1)"
    if "perform (Req (CreateJob d)) (k_create_job K d) s1 = (c, s2)" for d c s2
    using that frame(4) by (rule perform_frame)
  show ?case using g Cons.IH s1 made
    by (auto simp: Let_def split: sum.split api_error.split prod.split)
qed simp

lemma finish_outcome:
  assumes "decides run now (finishStatus run ph now sm c)" and "isTerminalPhase ph"
    and "stored (world u) = stored (world s)" and "puts stored K P run (stored (world s)) put"
  shows "pass_outcome stored put run now s (finish K P run ph now sm c u)"
proof -
  obtain q t where f: "finish K P run ph now sm c u = (q, t)" by fastforce
  have "puts stored K P run (stored (world u)) put" using assms(3,4) by simp
  from finish_puts [OF f this] show ?thesis
  proof
    assume "\<exists>e. q = Inl e \<and> stored (world t) = stored (world u)"
    then show ?thesis using assms(3) by (simp add: pass_outcome_def f)
  next
    assume "q = Inr 0 \<and> stored (world t) =
      (stored (world u))(meta_key (run_Meta run) := put (finishStatus run ph now sm c))"
    then show ?thesis unfolding pass_outcome_def f using assms(1,2,3)
      by (intro disjI2 exI [of _ "finishStatus run ph now sm c"] exI [of _ 0]) (simp add: finishStatus_def)
  qed
qed

lemma reconcileJobs_outcome:
  assumes "stored (world u) = stored (world s)" and "puts stored K P run (stored (world s)) put"
  shows "pass_outcome stored put run now s (reconcileJobs K P run now (runTimeout run) jobs u)"
proof (cases rule: reconcileJobs_form [of K P run now "runTimeout run" jobs u])
  case (finish v ph sm c)
  with assms show ?thesis by (auto intro: finish_outcome)
next
  case (running v)
  obtain q t where f: "stillRunning K P run now (runTimeout run) v = (q, t)" by fastforce
  have v: "stored (world v) = stored (world s)" using running(2) assms(1) by simp
  then have "puts stored K P run (stored (world v)) put" using assms(2) by simp
  from stillRunning_puts [OF f this] show ?thesis
  proof
    assume "\<exists>e. q = Inl e \<and> stored (world t) = stored (world v)"
    then show ?thesis using running(1) f v by (simp add: pass_outcome_def)
  next
    assume *: "q = Inr (dur_add (time_sub (time_add (deref (st_StartTime (run_Status run)) now) (runTimeout run)) now) Second)
       \<and> stored (world t) = (stored (world v))(meta_key (run_Meta run) := put (runningStatus run now))"
    let ?d = "dur_add (time_sub (time_add (deref (st_StartTime (run_Status run)) now) (runTimeout run)) now) Second"
    show ?thesis unfolding pass_outcome_def running(1) f fst_conv snd_conv
      using * v running(3)
      by (intro disjI2 exI [of _ "runningStatus run now"] exI [of _ ?d]) (simp add: decides_def)
  qed
qed

lemma Reconcile_puts:
  assumes "fst (k_get_run K key (world s)) = Inr run" and "\<not> isTerminalPhase (run_Phase run)"
    and st: "puts stored K P run (stored (world s)) put"
  shows "pass_outcome stored put run (k_now K (snd (k_get_run K key (world s)))) s (CheckRun_Reconcile K P r key s)"
proof -
  obtain s1 where g: "perform (Req (GetRun key)) (k_get_run K key) s = (Inr run, s1)"
    using assms(1) by (metis perform_result prod.collapse)
  have now: "k_now K (snd (k_get_run K key (world s))) = k_now K (world s1)"
    using perform_world [of "Req (GetRun key)" "k_get_run K key" s] g by simp
  have s1: "stored (world s1) = stored (world s)" using g frame(1) by (rule perform_frame)
  let ?now = "k_now K (world s1)"
  have ens: "pass_outcome stored put run ?now s (ensureAndSettle K P r run ?now u)" if "stored (world u) = stored (world s)" for u
    using reconcileJobs_outcome [OF _ st] ensureJobs_frame [of P r run "runTimeout run" "tpl_Runners (run_Template run)" "[]" u] that
    by (auto simp: ensureAndSettle_def pass_outcome_def [of _ _ _ _ _ "(Inl _, _)"] split: prod.split sum.split)
  let ?sa = "(run_Namespace run, runnerServiceAccount r)"
  obtain q s2 where sa: "perform (Req (GetServiceAccount ?sa)) (k_get_sa K ?sa) s1 = (q, s2)" by fastforce
  have s2: "stored (world s2) = stored (world s)" using sa frame(2) s1 by (metis perform_frame)
  have fin: "pass_outcome stored put run ?now s (finish K P run CheckRunError ?now None c (warning run rs n s2))" for c rs n
    using s2 st by (intro finish_outcome) (auto simp: decides_def isTerminalPhase_def warning_def)
  have err: "pass_outcome stored put run ?now s (Inl e, s2)" for e using s2 by (simp add: pass_outcome_def)
  show ?thesis unfolding now Reconcile_eq [OF g] Let_def sa
    using assms(2) ens [OF s1] ens [OF s2] fin err by (simp split: option.split api_error.split)
qed

lemma Reconcile_terminal:
  assumes "fst (k_get_run K key (world s)) = Inr run" and "isTerminalPhase (run_Phase run)"
  shows "stored (world (snd (CheckRun_Reconcile K P r key s))) = stored (world s)"
proof -
  obtain s1 where g: "perform (Req (GetRun key)) (k_get_run K key) s = (Inr run, s1)"
    using assms(1) by (metis perform_result prod.collapse)
  then show ?thesis using assms(2) perform_frame [OF g frame(1)] by (simp add: Reconcile_eq [OF g])
qed

lemma Reconcile_unread:
  assumes "\<And>run. fst (k_get_run K key (world s)) \<noteq> Inr run"
  shows "stored (world (snd (CheckRun_Reconcile K P r key s))) = stored (world s)"
proof -
  obtain e s1 where g: "perform (Req (GetRun key)) (k_get_run K key) s = (Inl e, s1)"
    using assms perform_result [of "Req (GetRun key)" "k_get_run K key" s]
    by (metis prod.collapse sum.exhaust_sel sum.disc_eq_case(1))
  then show ?thesis using perform_frame [OF g frame(1)]
    by (simp add: CheckRun_Reconcile_def split: api_error.split)
qed

end

text \<open>A server whose reads of the run are current.\<close>

locale run_state = run_frame stored K for stored :: "'w \<Rightarrow> nkey \<Rightarrow> CheckRun option" and K :: "'w kube" +
  fixes P :: pkgs
  assumes get_run: "fst (k_get_run K k w) = Inr run \<Longrightarrow> stored w k = Some run \<and> meta_key (run_Meta run) = k"
    and apply_done: "stored w (meta_key (run_Meta run)) = Some run \<Longrightarrow> p_status_map P (newStatus P run cs) = Inr m \<Longrightarrow>
      k_apply_status K (statusDocument run m) checkRunFieldManager w = (None, w') \<Longrightarrow>
      stored w' = (stored w)(meta_key (run_Meta run) \<mapsto> applied P run cs)"
begin

lemma puts_read:
  assumes "stored w (meta_key (run_Meta run)) = Some run"
  shows "puts stored K P run (stored w) (\<lambda>cs. Some (applied P run cs))"
  unfolding puts_def
proof (intro allI impI)
  fix v cs m w'
  assume st: "stored v = stored w" and "p_status_map P (newStatus P run cs) = Inr m"
    and "k_apply_status K (statusDocument run m) checkRunFieldManager v = (None, w')"
  with apply_done [of v run cs m w'] show "stored w' = (stored w)(meta_key (run_Meta run) \<mapsto> applied P run cs)"
    by (simp add: st assms)
qed

lemmas finish_effect = finish_puts [OF _ puts_read]

lemmas stillRunning_effect = stillRunning_puts [OF _ puts_read]

lemma Reconcile_outcome:
  assumes "fst (k_get_run K key (world s)) = Inr run" and "\<not> isTerminalPhase (run_Phase run)"
  shows "pass_outcome stored (\<lambda>cs. Some (applied P run cs)) run (k_now K (snd (k_get_run K key (world s)))) s
    (CheckRun_Reconcile K P r key s)"
  by (rule Reconcile_puts [OF assms puts_read]) (use get_run [OF assms(1)] in simp)

text \<open>A pass that is answered writes what it has decided; if the run is to go on, its deadline is ahead.\<close>

lemma answered_pass:
  assumes "k_get_run K key (world s) = (Inr run, w0)" and "\<not> isTerminalPhase (run_Phase run)"
    and "fst (CheckRun_Reconcile K P r key s) = Inr d"
  obtains cs where "decides run (k_now K w0) cs"
    "stored (world (snd (CheckRun_Reconcile K P r key s))) key = Some (applied P run cs)"
    "\<not> isTerminalPhase (cs_phase cs) \<longrightarrow> \<not> overdue run (k_now K w0) (runTimeout run) \<and>
       cs_startTime cs = Some (deref (st_StartTime (run_Status run)) (k_now K w0)) \<and>
       d = dur_add (time_sub (time_add (deref (st_StartTime (run_Status run)) (k_now K w0)) (runTimeout run))
             (k_now K w0)) Second"
proof -
  have g: "fst (k_get_run K key (world s)) = Inr run" using assms(1) by simp
  have "meta_key (run_Meta run) = key" using get_run [OF g] by simp
  moreover have "pass_outcome stored (\<lambda>cs. Some (applied P run cs)) run (k_now K w0) s (CheckRun_Reconcile K P r key s)"
    using Reconcile_outcome [OF g assms(2), of r] assms(1) by simp
  ultimately obtain cs where cs: "decides run (k_now K w0) cs"
      "stored (world (snd (CheckRun_Reconcile K P r key s))) = (stored (world s))(key \<mapsto> applied P run cs)"
      "\<not> isTerminalPhase (cs_phase cs) \<longrightarrow> cs = runningStatus run (k_now K w0) \<and> \<not> overdue run (k_now K w0) (runTimeout run)
        \<and> d = dur_add (time_sub (time_add (deref (st_StartTime (run_Status run)) (k_now K w0)) (runTimeout run))
             (k_now K w0)) Second"
    using assms(3) unfolding pass_outcome_def by auto
  show thesis by (rule that [OF cs(1)]) (use cs(2,3) in \<open>auto simp: runningStatus_def\<close>)
qed

text \<open>A pass under any name: the run of another name stays, this one gets what was decided.\<close>

lemma pass_cases:
  obtains (kept) "stored (world (snd (CheckRun_Reconcile K P r k s))) key = stored (world s) key"
  | (written) run cs now where "stored (world s) key = Some run" "meta_key (run_Meta run) = key"
      "\<not> isTerminalPhase (run_Phase run)" "decides run now cs"
      "stored (world (snd (CheckRun_Reconcile K P r k s))) key = Some (applied P run cs)"
proof (cases "fst (k_get_run K k (world s))")
  case (Inl e)
  then show thesis using Reconcile_unread [of k s P r] kept by simp
next
  case (Inr run)
  note st = get_run [OF Inr]
  show thesis
  proof (cases "isTerminalPhase (run_Phase run)")
    case True
    then show thesis using Reconcile_terminal [OF Inr, of P r] kept by simp
  next
    case False
    note Reconcile_outcome [OF Inr False, of r]
    then show thesis unfolding pass_outcome_def
    proof
      assume "\<exists>e. fst (CheckRun_Reconcile K P r k s) = Inl e
        \<and> stored (world (snd (CheckRun_Reconcile K P r k s))) = stored (world s)"
      then show thesis using kept by auto
    next
      assume *: "\<exists>cs d. fst (CheckRun_Reconcile K P r k s) = Inr d
        \<and> decides run (k_now K (snd (k_get_run K k (world s)))) cs
        \<and> stored (world (snd (CheckRun_Reconcile K P r k s))) =
            (stored (world s))(meta_key (run_Meta run) \<mapsto> applied P run cs)
        \<and> (\<not> isTerminalPhase (cs_phase cs) \<longrightarrow> cs = runningStatus run (k_now K (snd (k_get_run K k (world s))))
            \<and> \<not> overdue run (k_now K (snd (k_get_run K k (world s)))) (runTimeout run)
            \<and> d = dur_add (time_sub (time_add (deref (st_StartTime (run_Status run))
                (k_now K (snd (k_get_run K k (world s))))) (runTimeout run)) (k_now K (snd (k_get_run K k (world s))))) Second)"
      then obtain cs where cs: "decides run (k_now K (snd (k_get_run K k (world s)))) cs"
        "stored (world (snd (CheckRun_Reconcile K P r k s))) = (stored (world s))(k \<mapsto> applied P run cs)"
        using st by auto
      show thesis
      proof (cases "k = key")
        case True
        then show thesis using written [OF _ _ False cs(1)] cs(2) st by simp
      next
        case other: False
        then show thesis using kept cs(2) by simp
      qed
    qed
  qed
qed

end

section \<open>Histories of a run\<close>

text \<open>
  What can happen to the run stored under \<open>key\<close> until it is deleted: it is created, with an empty
  status, as the API server drops the status of a created object; the reconciler passes, over this run or
  another one, with any of its requests failing; runner pods report; its metadata is edited, the
  specification being immutable; anything else leaves it alone.
\<close>

definition emptyStatus :: CheckRunStatus where
  "emptyStatus = \<lparr>st_ObservedGeneration = 0, st_Phase = PhaseUnset, st_StartTime = None,
     st_CompletionTime = None, st_Runners = [], st_Summary = None, st_Conditions = []\<rparr>"

inductive evolves :: "('w \<Rightarrow> nkey \<Rightarrow> CheckRun option) \<Rightarrow> 'w kube \<Rightarrow> pkgs \<Rightarrow> CheckRunReconciler \<Rightarrow> nkey \<Rightarrow>
    'w \<Rightarrow> 'w \<Rightarrow> bool" for stored K P r key where
  create: "stored w key = None \<Longrightarrow> stored w' key = Some run \<Longrightarrow> run_Status run = emptyStatus \<Longrightarrow>
    evolves stored K P r key w w'"
| pass: "evolves stored K P r key w (world (snd (CheckRun_Reconcile K P r k \<lparr>world = w, acts = as\<rparr>)))"
| report: "stored w key = Some run \<Longrightarrow>
    stored w' key = Some (run\<lparr>run_Status := (run_Status run)\<lparr>st_Runners := rs\<rparr>\<rparr>) \<Longrightarrow>
    evolves stored K P r key w w'"
| edit: "stored w key = Some run \<Longrightarrow> stored w' key = Some run' \<Longrightarrow> valid_run_update run run' \<Longrightarrow>
    run_Status run' = run_Status run \<Longrightarrow> evolves stored K P r key w w'"
| elsewhere: "stored w' key = stored w key \<Longrightarrow> evolves stored K P r key w w'"

text \<open>A copy of the run with the fields of the status the controller owns as they are stored.\<close>

definition same_owned :: "CheckRun \<Rightarrow> CheckRun \<Rightarrow> bool" where
  "same_owned copy run \<longleftrightarrow> run_Spec copy = run_Spec run
     \<and> run_Status copy = (run_Status run)\<lparr>st_Runners := st_Runners (run_Status copy)\<rparr>"

lemma same_owned_refl [simp]: "same_owned run run"
  by (simp add: same_owned_def)

lemma same_ownedD:
  assumes "same_owned copy run"
  shows "run_Spec copy = run_Spec run" "run_Phase copy = run_Phase run"
    "st_StartTime (run_Status copy) = st_StartTime (run_Status run)"
    "run_Status copy = (run_Status run)\<lparr>st_Runners := st_Runners (run_Status copy)\<rparr>"
proof -
  note st = assms [unfolded same_owned_def, THEN conjunct2]
  show "run_Phase copy = run_Phase run" "st_StartTime (run_Status copy) = st_StartTime (run_Status run)"
    by (subst st, simp)+
qed (use assms in \<open>simp_all add: same_owned_def\<close>)

text \<open>The same seen from the run: what one step can make of a stored run. What is decided may be decided on a copy.\<close>

inductive follows :: "pkgs \<Rightarrow> CheckRun \<Rightarrow> CheckRun \<Rightarrow> bool" for P where
  same: "follows P run run"
| decided: "same_owned copy run \<Longrightarrow> \<not> isTerminalPhase (run_Phase copy) \<Longrightarrow> decides copy now cs \<Longrightarrow>
    follows P run (overlaid P copy cs run)"
| reports: "follows P run (run\<lparr>run_Status := (run_Status run)\<lparr>st_Runners := rs\<rparr>\<rparr>)"
| edited: "run_Spec run' = run_Spec run \<Longrightarrow> run_Status run' = run_Status run \<Longrightarrow> follows P run run'"

lemma follows_applied: "\<not> isTerminalPhase (run_Phase run) \<Longrightarrow> decides run now cs \<Longrightarrow> follows P run (applied P run cs)"
  unfolding applied_overlaid by (rule follows.decided) simp_all

lemma evolves_follows:
  assumes "run_state stored K P" and "evolves stored K P r key w w'"
  shows "(\<exists>run. stored w key = Some run \<and> (\<exists>run'. stored w' key = Some run' \<and> follows P run run'))
    \<or> stored w key = None \<and> (\<forall>run'. stored w' key = Some run' \<longrightarrow> run_Status run' = emptyStatus)"
  using assms(2)
proof cases
  case (pass k as)
  show ?thesis
    by (rule run_state.pass_cases [OF assms(1), of r k "\<lparr>world = w, acts = as\<rparr>" key])
      (cases "stored w key", auto simp: pass intro: follows.same follows_applied)
next
  case elsewhere
  then show ?thesis by (cases "stored w key") (auto intro: follows.intros)
qed (auto simp: valid_run_update_def intro: follows.intros)

lemma history_follows:
  assumes "run_state stored K P" and "(evolves stored K P r key)\<^sup>*\<^sup>* w w'" and "stored w key = Some run"
  shows "\<exists>run'. stored w' key = Some run' \<and> (follows P)\<^sup>*\<^sup>* run run'"
  using assms(2)
proof induction
  case base
  then show ?case using assms(3) by blast
next
  case (step v v')
  then show ?case using evolves_follows [OF assms(1) step(2)] by (metis option.distinct(1) option.inject rtranclp.rtrancl_into_rtrancl)
qed

section \<open>The invariant\<close>

definition counted :: "CheckRun \<Rightarrow> RunSummary \<Rightarrow> bool" where
  "counted run sm \<longleftrightarrow> sum_Total sm = int (length (assignments run)) \<and> sum_Total sm = sum_Passed sm + sum_Failed sm
     \<and> 0 \<le> sum_Passed sm \<and> 0 \<le> sum_Failed sm"

text \<open>What each phase promises of the other fields the controller owns.\<close>

definition phase_fields :: "CheckRun \<Rightarrow> CheckRunPhase \<Rightarrow> bool" where
  "phase_fields run ph \<longleftrightarrow> (let st = run_Status run in
     (case ph of
        PhaseUnset \<Rightarrow> st_StartTime st = None \<and> st_CompletionTime st = None \<and> st_Summary st = None
      | CheckRunPending \<Rightarrow> False
      | CheckRunRunning \<Rightarrow> st_StartTime st \<noteq> None \<and> st_CompletionTime st = None \<and> st_Summary st = None
      | CheckRunSucceeded \<Rightarrow> st_StartTime st \<noteq> None \<and> st_CompletionTime st \<noteq> None
          \<and> (\<exists>sm. st_Summary st = Some sm \<and> counted run sm \<and> sum_Failed sm = 0)
      | CheckRunFailed \<Rightarrow> st_StartTime st \<noteq> None \<and> st_CompletionTime st \<noteq> None
          \<and> (\<exists>sm. st_Summary st = Some sm \<and> counted run sm \<and> 0 < sum_Failed sm)
      | CheckRunError \<Rightarrow> st_StartTime st \<noteq> None \<and> st_CompletionTime st \<noteq> None \<and> st_Summary st = None))"

definition consistent :: "CheckRun \<Rightarrow> bool" where
  "consistent run \<longleftrightarrow> phase_fields run (run_Phase run)
     \<and> (\<forall>t. st_StartTime (run_Status run) = Some t \<longrightarrow> whole_second t = t)
     \<and> distinct (map cond_Type (st_Conditions (run_Status run)))
     \<and> (isTerminalPhase (run_Phase run) \<longrightarrow>
         (\<exists>c. find_condition (st_Conditions (run_Status run)) ConditionCompleted = Some c
            \<and> cond_Status c = ConditionTrue \<and> cond_Reason c = phase_string (run_Phase run)))"

lemma assignments_spec: "run_Spec run' = run_Spec run \<Longrightarrow> assignments run' = assignments run"
  by (simp add: assignments_def)

lemma counted_spec: "run_Spec run' = run_Spec run \<Longrightarrow> counted run' sm = counted run sm"
  by (simp add: counted_def assignments_spec [of run' run])

lemma counted_summaryOf: "counted run (summaryOf run)"
  using filter_length_split [of "assignments run" "assignmentPassed run"]
  by (simp add: counted_def summaryOf_def countPairs_zero)

lemma phase_fields_cong:
  assumes "run_Spec run' = run_Spec run" and "st_StartTime (run_Status run') = st_StartTime (run_Status run)"
    and "st_CompletionTime (run_Status run') = st_CompletionTime (run_Status run)"
    and "st_Summary (run_Status run') = st_Summary (run_Status run)"
  shows "phase_fields run' ph = phase_fields run ph"
  using assms counted_spec [OF assms(1)] by (cases ph) (simp_all add: phase_fields_def Let_def)

lemma consistent_cong:
  assumes "run_Spec run' = run_Spec run" and "run_Status run' = (run_Status run)\<lparr>st_Runners := rs\<rparr>"
  shows "consistent run' = consistent run"
  using assms phase_fields_cong [of run' run] by (simp add: consistent_def)

lemma counted_applied: "counted (applied P run cs) sm = counted run sm"
  by (rule counted_spec) simp

text \<open>What is decided is consistent.\<close>

lemma decides_fields:
  assumes "decides run now cs"
  shows "phase_fields (applied P run cs) (cs_phase cs)"
proof -
  consider "cs = runningStatus run now" | c where "cs = finishStatus run CheckRunError now None c"
    | "cs = finishStatus run (verdict run) now (Some (summaryOf run)) noCondition"
    using assms by (auto simp: decides_def)
  then show ?thesis
  proof cases
    case 3
    then show ?thesis
      using counted_summaryOf [of run] failed_count [of run]
      by (auto simp: phase_fields_def Let_def finishStatus_def verdict_def counted_applied counted_def [of run])
  qed (simp_all add: phase_fields_def Let_def finishStatus_def runningStatus_def)
qed

lemma decides_terminal:
  assumes "decides run now cs" and "isTerminalPhase (cs_phase cs)"
  obtains sm c where "cs = finishStatus run (cs_phase cs) now sm c"
  using assms by (auto simp: decides_def runningStatus_def finishStatus_def isTerminalPhase_def)

lemma decides_consistent:
  assumes "condition_list (p_set_condition P)" and "consistent run" and "decides run now cs"
  shows "consistent (applied P run cs)"
proof -
  have "\<exists>c. find_condition (st_Conditions (newStatus P run cs)) ConditionCompleted = Some c
      \<and> cond_Status c = ConditionTrue \<and> cond_Reason c = phase_string (cs_phase cs)" if t: "isTerminalPhase (cs_phase cs)"
  proof -
    obtain sm c where "cs = finishStatus run (cs_phase cs) now sm c" using decides_terminal [OF assms(3) t] .
    then have "find_condition (st_Conditions (newStatus P run cs)) ConditionCompleted = Some (completedCondition run (cs_phase cs))"
      using finish_conditions [OF assms(1), of run "cs_phase cs" now sm c ConditionCompleted] by simp
    then show ?thesis by (simp add: completedCondition_def)
  qed
  then show ?thesis
    using decides_fields [OF assms(3)] newStatus_distinct [OF assms(1)] assms(2) by (auto simp: consistent_def)
qed

lemma follows_consistent:
  assumes "follows P run run'" and "condition_list (p_set_condition P)" and "consistent run"
  shows "consistent run'"
  using assms(1)
proof cases
  case (decided copy now cs)
  have "consistent copy"
    using consistent_cong [OF same_ownedD(1,4) [OF decided(2)]] assms(3) by simp
  then have "consistent (applied P copy cs)" using decides_consistent [OF assms(2)] decided(4) by simp
  then show ?thesis
    using consistent_cong [of run' "applied P copy cs"] decided(1) same_ownedD(1) [OF decided(2)] by simp
next
  case (reports rs)
  then show ?thesis using consistent_cong [of run' run rs] assms(3) by simp
next
  case edited
  then show ?thesis using consistent_cong [of run' run "st_Runners (run_Status run)"] assms(3) by simp
qed (use assms(3) in simp)

lemma consistent_empty: "run_Status run = emptyStatus \<Longrightarrow> consistent run"
  by (simp add: consistent_def phase_fields_def emptyStatus_def isTerminalPhase_def)

lemma history_consistent:
  assumes "(follows P)\<^sup>*\<^sup>* run run'" and "condition_list (p_set_condition P)" and "consistent run"
  shows "consistent run'"
  using assms(1)
  by induction (use assms(2,3) follows_consistent in blast)+

section \<open>Progress\<close>

text \<open>The order of the phases; the terminal ones are its maximal elements.\<close>

fun phase_rank :: "CheckRunPhase \<Rightarrow> nat" where
  "phase_rank PhaseUnset = 0"
| "phase_rank CheckRunPending = 1"
| "phase_rank CheckRunRunning = 2"
| "phase_rank _ = 3"

instantiation CheckRunPhase :: order
begin

definition less_eq_CheckRunPhase :: "CheckRunPhase \<Rightarrow> CheckRunPhase \<Rightarrow> bool" where
  "less_eq_CheckRunPhase p q \<longleftrightarrow> p = q \<or> phase_rank p < phase_rank q"

definition less_CheckRunPhase :: "CheckRunPhase \<Rightarrow> CheckRunPhase \<Rightarrow> bool" where
  "less_CheckRunPhase p q \<longleftrightarrow> phase_rank p < phase_rank q"

instance
  by standard (auto simp: less_eq_CheckRunPhase_def less_CheckRunPhase_def)

end

lemma terminal_maximal: "isTerminalPhase p \<Longrightarrow> p \<le> q \<Longrightarrow> q = p"
  by (cases p; cases q) (simp_all add: isTerminalPhase_def less_eq_CheckRunPhase_def)

lemma terminal_above: "isTerminalPhase q \<Longrightarrow> \<not> isTerminalPhase p \<Longrightarrow> p < q"
  by (cases p; cases q) (simp_all add: isTerminalPhase_def less_CheckRunPhase_def)

lemma running_above: "\<not> isTerminalPhase p \<Longrightarrow> p \<le> CheckRunRunning"
  by (cases p) (simp_all add: isTerminalPhase_def less_eq_CheckRunPhase_def)

text \<open>
  The order of a run's life: its specification stays, a recorded start stays, the phase only rises, and a
  verdict is final; only the reports of the pods may still arrive.
\<close>

definition advances :: "CheckRun \<Rightarrow> CheckRun \<Rightarrow> bool" where
  "advances run run' \<longleftrightarrow> run_Spec run' = run_Spec run
     \<and> (\<forall>t. st_StartTime (run_Status run) = Some t \<longrightarrow> st_StartTime (run_Status run') = Some t)
     \<and> run_Phase run \<le> run_Phase run'
     \<and> (isTerminalPhase (run_Phase run) \<longrightarrow>
          run_Status run' = (run_Status run)\<lparr>st_Runners := st_Runners (run_Status run')\<rparr>)"

lemma advances_refl [simp]: "advances run run"
  by (simp add: advances_def)

lemma runners_only:
  assumes "b = a\<lparr>st_Runners := xs\<rparr>"
  shows "st_Phase b = st_Phase a" "c = b\<lparr>st_Runners := ys\<rparr> \<Longrightarrow> c = a\<lparr>st_Runners := ys\<rparr>"
  using assms by simp_all

lemma advances_terminal: "advances run run' \<Longrightarrow> isTerminalPhase (run_Phase run) \<Longrightarrow> run_Phase run' = run_Phase run"
  by (rule terminal_maximal) (simp_all add: advances_def)

lemma advances_trans:
  assumes "advances a b" and "advances b c"
  shows "advances a c"
proof -
  have "run_Status c = (run_Status a)\<lparr>st_Runners := st_Runners (run_Status c)\<rparr>" if t: "isTerminalPhase (run_Phase a)"
  proof -
    have ab: "run_Status b = (run_Status a)\<lparr>st_Runners := st_Runners (run_Status b)\<rparr>"
      using assms(1) t by (simp add: advances_def)
    then have "isTerminalPhase (run_Phase b)" using runners_only(1) [OF ab] t by simp
    then have "run_Status c = (run_Status b)\<lparr>st_Runners := st_Runners (run_Status c)\<rparr>"
      using assms(2) by (simp add: advances_def)
    then show ?thesis by (rule runners_only(2) [OF ab])
  qed
  then show ?thesis using assms by (auto simp: advances_def)
qed

lemma decides_start:
  "decides run now cs \<Longrightarrow> cs_startTime cs = Some (deref (st_StartTime (run_Status run)) now)
     \<and> (cs_phase cs = CheckRunRunning \<or> isTerminalPhase (cs_phase cs))"
  by (auto simp: decides_def runningStatus_def finishStatus_def verdict_def isTerminalPhase_def split: if_splits)

lemma follows_advances:
  assumes "follows P run run'" and "consistent run"
  shows "advances run run'"
  using assms(1)
proof cases
  case (decided copy now cs)
  note copy = same_ownedD [OF decided(2)]
  have "run_Phase run \<le> cs_phase cs"
    using decides_start [OF decided(4)] running_above terminal_above less_imp_le decided(3) copy(2) by metis
  with decided show ?thesis using decides_start [OF decided(4)] assms(2) copy
    by (auto simp: advances_def consistent_def)
next
  case (reports rs)
  then show ?thesis by (simp add: advances_def)
next
  case edited
  then show ?thesis by (simp add: advances_def)
qed simp

lemma history_advances:
  assumes "(follows P)\<^sup>*\<^sup>* run run'" and "condition_list (p_set_condition P)" and "consistent run"
  shows "advances run run'"
  using assms(1)
proof induction
  case (step v v')
  have "consistent v" using step(1) assms(2,3) by (rule history_consistent)
  with step show ?case using follows_advances advances_trans by blast
qed simp

section \<open>The end of a run\<close>

context run_server
begin

text \<open>A pass over a started run is not disturbed.\<close>

lemma Reconcile_answers:
  assumes "k_get_run K key (world s) = (Inr run, w)" and "st_StartTime (run_Status run) \<noteq> None"
    and "\<not> isTerminalPhase (run_Phase run)"
  shows "\<exists>d. fst (CheckRun_Reconcile K P r key s) = Inr d"
proof -
  obtain s1 where g: "perform (Req (GetRun key)) (k_get_run K key) s = (Inr run, s1)"
    using assms(1) by (simp add: perform_def)
  obtain js t where "ensureJobs K P r run (runTimeout run) (tpl_Runners (run_Template run)) [] s1 = (Inr js, t)"
    using ensure_store by blast
  then show ?thesis using assms(2,3) reconcileJobs_ok
    by (auto simp: Reconcile_eq [OF g] Let_def ensureAndSettle_def)
qed

end

text \<open>What \<open>RequeueAfter\<close> reaches: past the deadline as it is stored.\<close>

lemma requeue_exact:
  assumes "time_add start timeout - now + Second \<le> maxDuration" and "now \<le> time_add start timeout"
  shows "dur_add (time_sub (time_add start timeout) now) Second = time_add start timeout - now + Second"
proof -
  have "time_sub (time_add start timeout) now = time_add start timeout - now"
    using assms by (simp add: time_sub_def)
  then show ?thesis using assms by (simp add: dur_add_def wrap64_def)
qed

lemma requeue_reaches_deadline:
  assumes "time_add start timeout - now + Second \<le> maxDuration" and "now \<le> time_add start timeout"
    and "now + dur_add (time_sub (time_add start timeout) now) Second \<le> later"
  shows "time_add (whole_second start) timeout < later"
  using assms(3) requeue_exact [OF assms(1,2)] whole_second_le [of start] by (simp add: time_add_def)

end
