(* ===== verification/Status_Server.thy ===== *)
theory Status_Server
  imports Cluster Lifecycle
begin

text \<open>
  The sample server with a status that is really stored: \<open>encode_status\<close> writes the status as the JSON
  map a client sends, with times in whole seconds and absent optional fields left out, and the server
  reads it back and merges it into the run, keeping the \<open>runners\<close> another field manager owns. The
  round trip \<open>decode_encode\<close> gives the contract \<open>run_state\<close>, so histories of runs can be evaluated.
  It accepts every document, and drops those that are not the controller's or name no stored run.
\<close>

section \<open>Conditions as JSON\<close>

fun encode_message :: "message \<Rightarrow> json" and encode_arg :: "fmt_arg \<Rightarrow> json" where
  "encode_message (Sprintf f args) = JArr (JStr f # map encode_arg args)"
| "encode_arg (AStr s) = JArr [JInt 0, JStr s]"
| "encode_arg (AInt i) = JArr [JInt 1, JInt i]"
| "encode_arg (ADur d) = JArr [JInt 2, JInt d]"
| "encode_arg (ATime t) = JArr [JInt 3, JInt t]"
| "encode_arg (AMsg m) = JArr [JInt 4, encode_message m]"
| "encode_arg (AErr s) = JArr [JInt 5, JStr s]"

fun decode_message :: "json \<Rightarrow> message" and decode_arg :: "json \<Rightarrow> fmt_arg" where
  "decode_message (JArr (JStr f # args)) = Sprintf f (map decode_arg args)"
| "decode_message _ = Sprintf '''' []"
| "decode_arg (JArr [JInt tag, JStr s]) = (if tag = 0 then AStr s else AErr s)"
| "decode_arg (JArr [JInt tag, JInt i]) = (if tag = 1 then AInt i else if tag = 2 then ADur i else ATime i)"
| "decode_arg (JArr [JInt tag, m]) = AMsg (decode_message m)"
| "decode_arg _ = AInt 0"

lemma encode_message_array: "\<exists>js. encode_message m = JArr js"
  by (cases m) simp

lemma decode_encode_message [simp]: "decode_message (encode_message m) = m"
  and decode_encode_arg [simp]: "decode_arg (encode_arg a) = a"
proof (induction m and a rule: encode_message_encode_arg.induct)
  case (6 m)
  obtain js where "encode_message m = JArr js" using encode_message_array by blast
  with 6 show ?case by simp
qed (simp_all add: map_idI)

fun condition_status_string :: "ConditionStatus \<Rightarrow> string" where
  "condition_status_string ConditionTrue = ''True''"
| "condition_status_string ConditionFalse = ''False''"
| "condition_status_string ConditionUnknown = ''Unknown''"

definition read_condition_status :: "string \<Rightarrow> ConditionStatus" where
  "read_condition_status s =
     (if s = ''True'' then ConditionTrue else if s = ''False'' then ConditionFalse else ConditionUnknown)"

definition encode_condition :: "Condition \<Rightarrow> json" where
  "encode_condition c = JObj
     [(''type'', JStr (cond_Type c)), (''status'', JStr (condition_status_string (cond_Status c))),
      (''observedGeneration'', JInt (cond_ObservedGeneration c)), (''reason'', JStr (cond_Reason c)),
      (''message'', encode_message (cond_Message c))]"

fun decode_condition :: "json \<Rightarrow> Condition" where
  "decode_condition (JObj [(_, JStr t), (_, JStr st), (_, JInt g), (_, JStr r), (_, m)]) =
     \<lparr>cond_Type = t, cond_Status = read_condition_status st, cond_ObservedGeneration = g, cond_Reason = r,
      cond_Message = decode_message m\<rparr>"
| "decode_condition _ = noCondition"

lemma decode_encode_condition [simp]: "decode_condition (encode_condition c) = c"
  by (cases c; cases "cond_Status c") (simp_all add: encode_condition_def read_condition_status_def)

section \<open>The status as JSON\<close>

fun optional :: "string \<Rightarrow> json option \<Rightarrow> (string \<times> json) list" where
  "optional key None = []"
| "optional key (Some j) = [(key, j)]"

definition encode_summary :: "RunSummary \<Rightarrow> json" where
  "encode_summary sm = JArr [JInt (sum_Total sm), JInt (sum_Passed sm), JInt (sum_Failed sm)]"

definition encode_status :: "CheckRunStatus \<Rightarrow> (string \<times> json) list" where
  "encode_status st =
     [(''observedGeneration'', JInt (st_ObservedGeneration st)), (''phase'', JStr (phase_string (st_Phase st)))]
     @ optional ''startTime'' (map_option (JInt \<circ> unix) (st_StartTime st))
     @ optional ''completionTime'' (map_option (JInt \<circ> unix) (st_CompletionTime st))
     @ [(''runners'', JArr [])]
     @ optional ''summary'' (map_option encode_summary (st_Summary st))
     @ [(''conditions'', JArr (map encode_condition (st_Conditions st)))]"

fun read_int :: "json \<Rightarrow> int" where
  "read_int (JInt i) = i"
| "read_int _ = 0"

fun read_list :: "json \<Rightarrow> json list" where
  "read_list (JArr js) = js"
| "read_list _ = []"

fun read_phase :: "json \<Rightarrow> CheckRunPhase" where
  "read_phase (JStr s) =
     (case find (\<lambda>ph. phase_string ph = s)
        [CheckRunPending, CheckRunRunning, CheckRunSucceeded, CheckRunFailed, CheckRunError] of
        Some ph \<Rightarrow> ph | None \<Rightarrow> PhaseUnset)"
| "read_phase _ = PhaseUnset"

fun read_summary :: "json \<Rightarrow> RunSummary" where
  "read_summary (JArr [JInt t, JInt p, JInt f]) = \<lparr>sum_Total = t, sum_Passed = p, sum_Failed = f\<rparr>"
| "read_summary _ = zeroSummary"

definition decode_status :: "(string \<times> json) list \<Rightarrow> RunnerStatus list \<Rightarrow> CheckRunStatus" where
  "decode_status fs runners =
     \<lparr>st_ObservedGeneration = (case map_of fs ''observedGeneration'' of None \<Rightarrow> 0 | Some j \<Rightarrow> read_int j),
      st_Phase = (case map_of fs ''phase'' of None \<Rightarrow> PhaseUnset | Some j \<Rightarrow> read_phase j),
      st_StartTime = map_option (\<lambda>j. read_int j * Second) (map_of fs ''startTime''),
      st_CompletionTime = map_option (\<lambda>j. read_int j * Second) (map_of fs ''completionTime''),
      st_Runners = runners,
      st_Summary = map_option read_summary (map_of fs ''summary''),
      st_Conditions = (case map_of fs ''conditions'' of None \<Rightarrow> [] | Some j \<Rightarrow> map decode_condition (read_list j))\<rparr>"

lemma read_phase_string [simp]: "read_phase (JStr (phase_string ph)) = ph"
  by (cases ph) simp_all

declare read_phase.simps [simp del]

lemma read_encode_summary [simp]: "read_summary (encode_summary sm) = sm"
  by (simp add: encode_summary_def)

lemma decode_encode:
  "decode_status (filter (\<lambda>(key, _). key \<noteq> ''runners'') (encode_status st)) runners =
     (wire st)\<lparr>st_Runners := runners\<rparr>"
  by (cases st; cases "st_StartTime st"; cases "st_CompletionTime st"; cases "st_Summary st")
    (simp_all add: decode_status_def encode_status_def wire_def whole_second_def unix_def map_idI)

section \<open>The server\<close>

definition stored_run :: "cluster \<Rightarrow> nkey \<Rightarrow> CheckRun option" where
  "stored_run w key = (case look_run w key of None \<Rightarrow> None
     | Some run \<Rightarrow> if meta_key (run_Meta run) = key then Some run else None)"

definition merge_into :: "nkey \<Rightarrow> (string \<times> json) list \<Rightarrow> cluster \<Rightarrow> cluster" where
  "merge_into key fs w =
     (case stored_run w key of
        None \<Rightarrow> w
      | Some run \<Rightarrow> w\<lparr>cl_runs := AList.update key
          (run\<lparr>run_Status := decode_status fs (st_Runners (run_Status run))\<rparr>) (cl_runs w)\<rparr>)"

fun merge_status :: "json \<Rightarrow> string \<Rightarrow> cluster \<Rightarrow> api_error option \<times> cluster" where
  "merge_status (JObj [_, _, (_, JObj [(_, JStr name), (_, JStr ns)]), (_, JObj fs)]) owner w =
     (None, if owner = checkRunFieldManager then merge_into (ns, name) fs w else w)"
| "merge_status _ _ w = (None, w)"

definition mergeKube :: "cluster kube" where
  "mergeKube = clusterKube\<lparr>k_get_run := (\<lambda>k w. (found (stored_run w k), w)), k_apply_status := merge_status\<rparr>"

definition mergePkgs :: pkgs where
  "mergePkgs = refPkgs\<lparr>p_status_map := \<lambda>st. Inr (encode_status st)\<rparr>"

lemma mergePkgs_simps [simp]:
  "p_set_condition mergePkgs = upsert_condition" "p_range_jobs mergePkgs = (\<lambda>xs. xs)"
  "p_range_results mergePkgs = (\<lambda>xs. xs)" "p_status_map mergePkgs st = Inr (encode_status st)"
  "p_own_job mergePkgs = p_own_job refPkgs"
  by (simp_all add: mergePkgs_def)

lemma merge_answers: "fst (merge_status doc owner w) = None"
  by (cases "(doc, owner, w)" rule: merge_status.cases) simp_all

lemma merge_statusDocument:
  assumes "stored_run w (meta_key (run_Meta run)) = Some run"
  shows "merge_status (statusDocument run m) checkRunFieldManager w =
     (None, w\<lparr>cl_runs := AList.update (meta_key (run_Meta run))
        (run\<lparr>run_Status := decode_status (filter (\<lambda>(key, _). key \<noteq> ''runners'') m) (st_Runners (run_Status run))\<rparr>)
        (cl_runs w)\<rparr>)"
  using assms by (simp add: merge_into_def statusDocument_def meta_key_def)

lemma stored_frame [simp]:
  "stored_run (w\<lparr>cl_uid := u\<rparr>) = stored_run w" "stored_run (w\<lparr>cl_jobs := js\<rparr>) = stored_run w"
  "stored_run (w\<lparr>cl_now := t\<rparr>) = stored_run w"
  by (simp_all add: stored_run_def look_run_def fun_eq_iff)

lemma stored_update:
  "stored_run (w\<lparr>cl_runs := AList.update key run (cl_runs w)\<rparr>) =
     (stored_run w)(key := if meta_key (run_Meta run) = key then Some run else None)"
  by (auto simp: stored_run_def look_run_def update_conv' fun_eq_iff)

interpretation merged: run_state stored_run mergeKube mergePkgs
proof
  show "fst (k_get_run mergeKube k w) = Inr run \<Longrightarrow> stored_run w k = Some run \<and> meta_key (run_Meta run) = k" for k w run
    by (auto simp: mergeKube_def found_def stored_run_def split: option.splits if_splits)
  show "stored_run (snd (k_get_run mergeKube k w)) = stored_run w"
    "stored_run (snd (k_get_sa mergeKube k w)) = stored_run w"
    "stored_run (snd (k_get_job mergeKube k w)) = stored_run w"
    "stored_run (snd (k_create_job mergeKube job w)) = stored_run w"
    "stored_run (snd (k_get_suite mergeKube k w)) = stored_run w" for k w job
    by (simp_all add: mergeKube_def clusterKube_def cl_create_job_def Let_def)
  show "k_apply_status mergeKube doc owner w = (Some e, w') \<Longrightarrow> stored_run w' = stored_run w" for doc owner w e w'
    using merge_answers [of doc owner w] by (simp add: mergeKube_def)
  show "stored_run w' = (stored_run w)(meta_key (run_Meta run) \<mapsto> applied mergePkgs run cs)"
    if "stored_run w (meta_key (run_Meta run)) = Some run" "p_status_map mergePkgs (newStatus mergePkgs run cs) = Inr m"
      "k_apply_status mergeKube (statusDocument run m) checkRunFieldManager w = (None, w')" for w run cs m w'
    using that by (auto simp: mergeKube_def merge_statusDocument stored_update decode_encode applied_def)
qed

interpretation answered: run_server look_job mergeKube mergePkgs
proof
  show "k_get_job mergeKube k w = (case look_job w k of None \<Rightarrow> Inl NotFound | Some ob \<Rightarrow> Inr ob, w)" for k w
    using jobs.get_look by (simp add: mergeKube_def)
  show "look_job w (meta_key (job_Meta j)) \<noteq> None \<Longrightarrow> k_create_job mergeKube j w = (Inl AlreadyExists, w)" for w j
    using jobs.create_existing by (simp add: mergeKube_def)
  show "look_job w (meta_key (job_Meta j)) = None \<Longrightarrow> \<exists>j' w'. k_create_job mergeKube j w = (Inr j', w')
      \<and> meta_key (job_Meta j') = meta_key (job_Meta j) \<and> look_job w' = (look_job w)(meta_key (job_Meta j) \<mapsto> j')" for w j
    using jobs.create_fresh by (simp add: mergeKube_def)
  show "\<exists>j'. p_own_job mergePkgs run j = Inr j' \<and> meta_key (job_Meta j') = meta_key (job_Meta j)" for run j
    using jobs.own_key by simp
  show "fst (k_apply_status mergeKube doc owner w) = None" for doc owner w
    by (simp add: mergeKube_def merge_answers)
qed simp_all

end
