(* ===== verification/Cached_Reads.thy ===== *)
theory Cached_Reads
  imports Status_Server
begin

text \<open>
  Passes over a CheckRun that is read through a cache, as the client of the manager does it: the copy may be an
  earlier version of the run, while an applied status is merged into the version that is stored, whichever that
  is. \<open>cached_state\<close> is that contract; \<open>cached_step\<close> are the steps of a history in which a pass over the
  run goes on only if the copy has the fields of the status the controller owns as they are stored, the reports
  of pods being allowed to lag. \<open>stale_pass\<close> is what a pass does otherwise.
\<close>

section \<open>The contract\<close>

locale cached_state = run_frame stored K for stored :: "'w \<Rightarrow> nkey \<Rightarrow> CheckRun option" and K :: "'w kube" +
  fixes P :: pkgs
  assumes read_key: "fst (k_get_run K k w) = Inr run \<Longrightarrow> meta_key (run_Meta run) = k"
    and apply_stored: "stored w (meta_key (run_Meta run)) = Some cur \<Longrightarrow> p_status_map P (newStatus P run cs) = Inr m \<Longrightarrow>
      k_apply_status K (statusDocument run m) checkRunFieldManager w = (None, w') \<Longrightarrow>
      stored w' = (stored w)(meta_key (run_Meta run) \<mapsto> overlaid P run cs cur)"
    and apply_absent: "stored w (meta_key (run_Meta run)) = None \<Longrightarrow>
      k_apply_status K (statusDocument run m) checkRunFieldManager w = (None, w') \<Longrightarrow> stored w' = stored w"
begin

lemma puts_copy:
  "puts stored K P run (stored w) (\<lambda>cs. map_option (overlaid P run cs) (stored w (meta_key (run_Meta run))))"
  unfolding puts_def
proof (intro allI impI)
  fix v cs m w'
  assume st: "stored v = stored w" and m: "p_status_map P (newStatus P run cs) = Inr m"
    and a: "k_apply_status K (statusDocument run m) checkRunFieldManager v = (None, w')"
  show "stored w' = (stored w)(meta_key (run_Meta run) := map_option (overlaid P run cs) (stored w (meta_key (run_Meta run))))"
  proof (cases "stored w (meta_key (run_Meta run))")
    case None
    then show ?thesis using apply_absent [OF _ a] st by (simp add: fun_upd_idem)
  next
    case (Some cur)
    then show ?thesis using apply_stored [OF _ m a] st by simp
  qed
qed

text \<open>A pass leaves the stored runs, or merges what it has decided on its copy into the stored run.\<close>

lemma pass_cases:
  obtains (kept) "stored (world (snd (CheckRun_Reconcile K P r k s))) key = stored (world s) key"
  | (written) copy cs now where "k = key" "fst (k_get_run K key (world s)) = Inr copy"
      "\<not> isTerminalPhase (run_Phase copy)" "decides copy now cs"
      "stored (world (snd (CheckRun_Reconcile K P r k s))) key = map_option (overlaid P copy cs) (stored (world s) key)"
proof (cases "fst (k_get_run K k (world s))")
  case (Inl e)
  then show thesis using Reconcile_unread [of k s P r] kept by simp
next
  case (Inr copy)
  show thesis
  proof (cases "isTerminalPhase (run_Phase copy)")
    case True
    then show thesis using Reconcile_terminal [OF Inr, of P r] kept by simp
  next
    case False
    have key: "meta_key (run_Meta copy) = k" using read_key [OF Inr] .
    from Reconcile_puts [OF Inr False puts_copy, of r]
    consider "stored (world (snd (CheckRun_Reconcile K P r k s))) = stored (world s)"
      | cs where "decides copy (k_now K (snd (k_get_run K k (world s)))) cs"
        "stored (world (snd (CheckRun_Reconcile K P r k s))) =
           (stored (world s))(k := map_option (overlaid P copy cs) (stored (world s) k))"
      unfolding pass_outcome_def key by blast
    then show thesis
    proof cases
      case 1
      then show thesis using kept by simp
    next
      case 2
      then show thesis using kept written [OF _ _ False 2(1)] Inr by (cases "k = key") auto
    qed
  qed
qed

end

section \<open>Histories\<close>

definition reads_owned :: "('w \<Rightarrow> nkey \<Rightarrow> CheckRun option) \<Rightarrow> 'w kube \<Rightarrow> nkey \<Rightarrow> 'w \<Rightarrow> bool" where
  "reads_owned stored K key w \<longleftrightarrow> (\<forall>copy run. fst (k_get_run K key w) = Inr copy \<longrightarrow>
     \<not> isTerminalPhase (run_Phase copy) \<longrightarrow> stored w key = Some run \<longrightarrow> same_owned copy run)"

inductive cached_step :: "('w \<Rightarrow> nkey \<Rightarrow> CheckRun option) \<Rightarrow> 'w kube \<Rightarrow> pkgs \<Rightarrow> CheckRunReconciler \<Rightarrow> nkey \<Rightarrow>
    'w \<Rightarrow> 'w \<Rightarrow> bool" for stored K P r key where
  pass: "k = key \<longrightarrow> reads_owned stored K key w \<Longrightarrow>
    cached_step stored K P r key w (world (snd (CheckRun_Reconcile K P r k \<lparr>world = w, acts = as\<rparr>)))"
| report: "stored w key = Some run \<Longrightarrow>
    stored w' key = Some (run\<lparr>run_Status := (run_Status run)\<lparr>st_Runners := rs\<rparr>\<rparr>) \<Longrightarrow>
    cached_step stored K P r key w w'"
| edit: "stored w key = Some run \<Longrightarrow> stored w' key = Some run' \<Longrightarrow> valid_run_update run run' \<Longrightarrow>
    run_Status run' = run_Status run \<Longrightarrow> cached_step stored K P r key w w'"
| elsewhere: "stored w' key = stored w key \<Longrightarrow> cached_step stored K P r key w w'"

lemma cached_step_follows:
  assumes "cached_state stored K P" and "cached_step stored K P r key w w'" and "stored w key = Some run"
  shows "\<exists>run'. stored w' key = Some run' \<and> follows P run run'"
  using assms(2)
proof cases
  case (pass k as)
  show ?thesis
  proof (cases rule: cached_state.pass_cases [OF assms(1), of r k "\<lparr>world = w, acts = as\<rparr>" key])
    case 1
    then show ?thesis using assms(3) pass(1) follows.same by auto
  next
    case (2 copy cs now)
    have "fst (k_get_run K key w) = Inr copy" using 2(2) by simp
    then have "same_owned copy run" using pass(2) 2(1,3) assms(3) unfolding reads_owned_def by blast
    from follows.decided [OF this 2(3,4)] show ?thesis using 2(5) assms(3) pass(1) by auto
  qed
next
  case elsewhere
  then show ?thesis using assms(3) follows.same by simp
qed (use assms(3) in \<open>auto simp: valid_run_update_def intro: follows.intros\<close>)

lemma cached_history_follows:
  assumes "cached_state stored K P" and "(cached_step stored K P r key)\<^sup>*\<^sup>* w w'" and "stored w key = Some run"
  shows "\<exists>run'. stored w' key = Some run' \<and> (follows P)\<^sup>*\<^sup>* run run'"
  using assms(2)
proof induction
  case base
  then show ?case using assms(3) by blast
next
  case (step v v')
  then obtain run' where "stored v key = Some run'" "(follows P)\<^sup>*\<^sup>* run run'" by blast
  with cached_step_follows [OF assms(1) step(2)] show ?case by (metis rtranclp.rtrancl_into_rtrancl)
qed

section \<open>A copy from before the verdict\<close>

lemma stale_pass:
  assumes "cached_state stored K P" and "run_server look K P"
    and read: "k_get_run K key w = (Inr old, w0)" "\<not> isTerminalPhase (run_Phase old)"
      "st_StartTime (run_Status old) = Some start"
    and open_run: "\<not> overdue old (k_now K w0) (runTimeout old)" "\<not> reported old"
    and jobs: "\<forall>rn \<in> set (tpl_Runners (run_Template old)). \<exists>job. look w0 (jobKey old rn) = Some job \<and> \<not> jobFailed job"
    and "stored w key = Some cur"
  obtains d where "fst (CheckRun_Reconcile K P r key \<lparr>world = w, acts = as\<rparr>) = Inr d"
    "stored (world (snd (CheckRun_Reconcile K P r key \<lparr>world = w, acts = as\<rparr>))) key =
       Some (overlaid P old (runningStatus old (k_now K w0)) cur)"
proof -
  let ?s = "\<lparr>world = w, acts = as\<rparr>" and ?now = "k_now K w0" and ?to = "runTimeout old"
  let ?rns = "tpl_Runners (run_Template old)" and ?put = "\<lambda>cs. map_option (overlaid P old cs) (stored w key)"
  let ?out = "CheckRun_Reconcile K P r key ?s"
  note cached = assms(1) and frame = cached_state.axioms(1) [OF assms(1)] and store = run_server.axioms(1) [OF assms(2)]
  have key: "meta_key (run_Meta old) = key" using cached_state.read_key [OF cached, of key w] read(1) by simp
  obtain s1 where g: "perform (Req (GetRun key)) (k_get_run K key) ?s = (Inr old, s1)" and w1: "world s1 = w0"
    using read(1) by (simp add: perform_def)
  obtain js t0 where e: "ensureJobs K P r old ?to ?rns [] s1 = (Inr js, t0)"
    and kept: "\<forall>k j. look w0 k = Some j \<longrightarrow> look (world t0) k = Some j"
    using job_store.ensure_store [OF store, of r old ?to ?rns "[]" s1] w1 by auto
  have out: "?out = reconcileJobs K P old ?now ?to js t0"
    using read(2,3) by (simp add: Reconcile_eq [OF g] w1 ensureAndSettle_def e)
  have "\<not> jobFailed j" if "(n, j) \<in> set js" for n j
  proof -
    from job_store.ensure_jobs [OF store e] that
    have "look (world t0) (run_Namespace old, jobName (run_Name old) n) = Some j" and "n \<in> rn_Name ` set ?rns" by force+
    then obtain rn where "rn \<in> set ?rns" "look (world t0) (jobKey old rn) = Some j" by (auto simp: jobKey_def)
    with jobs kept show ?thesis by fastforce
  qed
  then have "find (\<lambda>(n, job). jobFailed job) (p_range_jobs P js) = None"
    using ranges_set [OF run_server.range_jobs [OF assms(2)], of js] by (auto simp: find_None_iff)
  then obtain v where v: "?out = stillRunning K P old ?now ?to v" "world v = world t0"
    unfolding out by (cases rule: reconcileJobs_form [of K P old ?now ?to js t0]) (use open_run in simp_all)
  have "stored (world s1) = stored w" using run_frame.frame(1) [OF frame, of key w] read(1) by (simp add: w1)
  moreover have "stored (world t0) = stored (world s1)"
    using run_frame.ensureJobs_frame [OF frame, of P r old ?to ?rns "[]" s1] by (simp add: e)
  ultimately have "stored (world t0) = stored w" by simp
  then have "puts stored K P old (stored (world v)) ?put" and sv: "stored (world v) = stored w"
    using cached_state.puts_copy [OF cached, of old w] v(2) by (simp_all add: key)
  from run_frame.stillRunning_puts [OF frame surjective_pairing [of "stillRunning K P old ?now ?to v"] this(1)]
  have "(\<exists>d. fst ?out = Inr d) \<and> stored (world (snd ?out)) key = ?put (runningStatus old ?now)"
    using run_server.stillRunning_ok [OF assms(2), of old ?now ?to v] unfolding v(1) sv by (auto simp: key)
  then show thesis using that assms(9) by auto
qed

section \<open>The sample server\<close>

text \<open>It answers for one run from a copy.\<close>

lemma stored_run_key: "stored_run w key = Some run \<Longrightarrow> meta_key (run_Meta run) = key"
  by (simp add: stored_run_def split: option.splits if_splits)

definition cachedKube :: "CheckRun \<Rightarrow> cluster kube" where
  "cachedKube copy = mergeKube\<lparr>k_get_run := (\<lambda>k w.
     (if k = meta_key (run_Meta copy) then Inr copy else found (stored_run w k), w))\<rparr>"

lemma cachedKube_simps [simp]:
  "k_get_job (cachedKube copy) = k_get_job mergeKube" "k_create_job (cachedKube copy) = k_create_job mergeKube"
  "k_get_sa (cachedKube copy) = k_get_sa mergeKube" "k_get_suite (cachedKube copy) = k_get_suite mergeKube"
  "k_apply_status (cachedKube copy) = k_apply_status mergeKube" "k_now (cachedKube copy) = cl_now"
  by (simp_all add: cachedKube_def mergeKube_def clusterKube_def)

interpretation cached: cached_state stored_run "cachedKube copy" mergePkgs for copy
proof
  fix w w' :: cluster and run cur :: CheckRun
  show "stored_run (snd (k_get_run (cachedKube copy) k w)) = stored_run w" for k
    by (simp add: cachedKube_def)
  show "fst (k_get_run (cachedKube copy) k w) = Inr run \<Longrightarrow> meta_key (run_Meta run) = k" for k
    using merged.get_run [of k w run] by (auto simp: cachedKube_def mergeKube_def split: if_splits)
  show "k_apply_status (cachedKube copy) (statusDocument run m) checkRunFieldManager w = (None, w') \<Longrightarrow>
      p_status_map mergePkgs (newStatus mergePkgs run cs) = Inr m \<Longrightarrow>
      stored_run w (meta_key (run_Meta run)) = Some cur \<Longrightarrow>
      stored_run w' = (stored_run w)(meta_key (run_Meta run) \<mapsto> overlaid mergePkgs run cs cur)" for m cs
    using stored_run_key [of w "meta_key (run_Meta run)" cur]
    by (auto simp: mergeKube_def statusDocument_def merge_into_def stored_update decode_encode overlaid_def meta_key_def)
  show "k_apply_status (cachedKube copy) (statusDocument run m) checkRunFieldManager w = (None, w') \<Longrightarrow>
      stored_run w (meta_key (run_Meta run)) = None \<Longrightarrow> stored_run w' = stored_run w" for m
    by (auto simp: mergeKube_def statusDocument_def merge_into_def meta_key_def)
qed (use merged.frame merged.apply_refused in simp_all)

interpretation cache_answers: run_server look_job "cachedKube copy" mergePkgs for copy
  by unfold_locales (use answered.get_look answered.create_existing answered.create_fresh answered.own_key answered.apply_ok in simp_all)

end
