(* ===== verification/Lifecycle_Properties.thy ===== *)
theory Lifecycle_Properties
  imports Cached_Reads
begin

text \<open>
  The life of a CheckRun over whole histories of the cluster: what every stored status promises, in which
  direction a run can move, and that it ends. The histories are those of \<open>evolves\<close>: passes of the
  reconciler over any run, with requests failing or not, reports, edits of metadata, and everything
  that does not touch the run; the passes read what is stored. The direction is shown for reads through a cache,
  too, with the histories of \<open>cached_step\<close>, and what a cache that lags too far makes of a run is the last property.
\<close>

text \<open>C7: from its creation to its deletion, the stored status of a run is consistent: no start before
  the first pass, a start once it is running, start and completion together with a terminal phase, a
  summary exactly with a verdict, and its counts those of the assigned pairs; never the phase Pending.\<close>

theorem stored_status_consistent:
  assumes "run_state stored K P" and "condition_list (p_set_condition P)"
    and "stored w key = None" and "(evolves stored K P r key)\<^sup>*\<^sup>* w w'" and "stored w' key = Some run"
  shows "consistent run"
proof -
  have "\<forall>run. stored w' key = Some run \<longrightarrow> consistent run" using assms(4)
  proof induction
    case base
    then show ?case using assms(3) by simp
  next
    case (step v v')
    from evolves_follows [OF assms(1) step(2)] show ?case
      using step.IH follows_consistent [OF _ assms(2)] consistent_empty by auto
  qed
  then show ?thesis using assms(5) by blast
qed

text \<open>A run that is created, and a first pass over it.\<close>

definition newbornRun :: CheckRun where
  "newbornRun = (sampleRun ''demo'' PhaseUnset [])\<lparr>run_Status := emptyStatus\<rparr>"

definition lifeCtx :: "time \<Rightarrow> CheckRun list \<Rightarrow> Job list \<Rightarrow> cluster ctx" where
  "lifeCtx now runs jobs = sampleCluster now runs (sampleSuite AllowConcurrent '''') jobs"

lemma lifeCtx_stored:
  "run_Name run = ''demo'' \<Longrightarrow> run_Namespace run = ''prod'' \<Longrightarrow> stored_run (world (lifeCtx now [run] jobs)) (''prod'', ''demo'') = Some run"
  "stored_run (world (lifeCtx now [] jobs)) key = None"
  by (simp_all add: lifeCtx_def sampleCluster_def stored_run_def look_run_def runKey_def meta_key_def)

lemma lifeCtx_ctx: "lifeCtx now runs jobs = \<lparr>world = world (lifeCtx now runs jobs), acts = []\<rparr>"
  by (simp add: lifeCtx_def sampleCluster_def)

lemmas merged_axioms = merged.run_state_axioms

lemma merged_conditions: "condition_list (p_set_condition mergePkgs)"
  using upsert.condition_list_axioms by simp

abbreviation demoKey :: nkey where
  "demoKey \<equiv> (''prod'', ''demo'')"

abbreviation passFrom :: "cluster ctx \<Rightarrow> cluster" where
  "passFrom s \<equiv> world (snd (CheckRun_Reconcile mergeKube mergePkgs sampleReconciler demoKey s))"

abbreviation demoEvolves :: "cluster \<Rightarrow> cluster \<Rightarrow> bool" where
  "demoEvolves \<equiv> evolves stored_run mergeKube mergePkgs sampleReconciler demoKey"

lemma demo_pass: "demoEvolves (world (lifeCtx now runs jobs)) (passFrom (lifeCtx now runs jobs))"
  using evolves.pass [of stored_run mergeKube mergePkgs sampleReconciler demoKey "world (lifeCtx now runs jobs)" demoKey "[]"]
  by (simp flip: lifeCtx_ctx)

lemma demo_kept:
  assumes "demoEvolves\<^sup>*\<^sup>* w w'" and "stored_run w demoKey = Some run"
  obtains run' where "stored_run w' demoKey = Some run'"
proof -
  have "\<exists>run'. stored_run w' demoKey = Some run' \<and> (follows mergePkgs)\<^sup>*\<^sup>* run run'"
    using merged_axioms assms by (rule history_follows)
  then show thesis using that by (elim exE conjE)
qed

theorem stored_status_consistent_witness:
  "\<exists>run. stored_run (passFrom (lifeCtx Second [newbornRun] [])) demoKey = Some run \<and> consistent run"
proof -
  let ?w = "world (lifeCtx Second [newbornRun] [])"
  have name: "run_Name newbornRun = ''demo''" "run_Namespace newbornRun = ''prod''" "run_Status newbornRun = emptyStatus"
    by (simp_all add: newbornRun_def sampleRun_def newMeta_def)
  note st = lifeCtx_stored(1) [OF name(1,2)]
  have create: "demoEvolves (world (lifeCtx Second [] [])) ?w"
    using lifeCtx_stored(2) st name(3) by (rule evolves.create)
  have "demoEvolves ?w (passFrom (lifeCtx Second [newbornRun] []))" by (rule demo_pass)
  then have passed: "demoEvolves\<^sup>*\<^sup>* ?w (passFrom (lifeCtx Second [newbornRun] []))" by (rule r_into_rtranclp)
  with create have path: "demoEvolves\<^sup>*\<^sup>* (world (lifeCtx Second [] [])) (passFrom (lifeCtx Second [newbornRun] []))"
    by (rule converse_rtranclp_into_rtranclp [of demoEvolves])
  obtain run where run: "stored_run (passFrom (lifeCtx Second [newbornRun] [])) demoKey = Some run"
    using passed st by (rule demo_kept)
  have "consistent run"
    using merged_axioms merged_conditions lifeCtx_stored(2) path run by (rule stored_status_consistent)
  with run show ?thesis by blast
qed

text \<open>C17: a run only moves forward until it is deleted, whatever else happens, as long as the passes that go on with it
  have read the last status the controller has stored, be it through a cache that lags in the reports of pods, in the metadata, or
  with a terminal copy: its specification and its recorded start stay, its phase only rises in the order none, Pending, Running,
  verdict, and from a terminal phase on nothing the controller owns changes again, only reports may be added. Without that
  condition a run that has ended can go back, as shown last in this theory.\<close>

theorem run_only_advances:
  assumes "cached_state stored K P" and "condition_list (p_set_condition P)"
    and "stored w key = Some run" and "consistent run" and "(cached_step stored K P r key)\<^sup>*\<^sup>* w w'"
  shows "\<exists>run'. stored w' key = Some run' \<and> advances run run'"
  using cached_history_follows [OF assms(1,5,3)] history_advances [OF _ assms(2,4)] by blast

definition startedRun :: CheckRun where
  "startedRun = sampleRun ''demo'' CheckRunRunning []"

lemma startedRun_names: "run_Name startedRun = ''demo''" "run_Namespace startedRun = ''prod''"
  by (simp_all add: startedRun_def sampleRun_def newMeta_def)

lemma startedRun_state:
  "run_Phase startedRun = CheckRunRunning" "st_StartTime (run_Status startedRun) = Some 0"
  "runTimeout startedRun = 10 * Minute" "consistent startedRun"
  by (simp_all add: startedRun_def sampleRun_def runTimeout_def webTemplate_def defaultRunTimeout_def consistent_def
      phase_fields_def isTerminalPhase_def whole_second_def)

text \<open>The cache still has the run from before the report of its pod, which is stored.\<close>

definition reportedRun :: CheckRun where
  "reportedRun = startedRun\<lparr>run_Status := (run_Status startedRun)\<lparr>st_Runners := [\<lparr>rs_Name = ''zone-a'', rs_Pods = [webPod True]\<rparr>]\<rparr>\<rparr>"

lemma reportedRun_names: "run_Name reportedRun = ''demo''" "run_Namespace reportedRun = ''prod''"
  by (simp_all add: reportedRun_def startedRun_names)

lemma reportedRun_state: "same_owned startedRun reportedRun" "consistent reportedRun"
proof -
  show "same_owned startedRun reportedRun" by (simp add: same_owned_def reportedRun_def)
  show "consistent reportedRun"
    using consistent_cong [of reportedRun startedRun] startedRun_state(4) by (simp add: reportedRun_def)
qed

abbreviation cachedPass :: "CheckRun \<Rightarrow> cluster ctx \<Rightarrow> (api_error + duration) \<times> cluster ctx" where
  "cachedPass copy s \<equiv> CheckRun_Reconcile (cachedKube copy) mergePkgs sampleReconciler demoKey s"

lemma cached_pass:
  assumes "reads_owned stored_run (cachedKube copy) demoKey (world (lifeCtx now runs jobs))"
  shows "cached_step stored_run (cachedKube copy) mergePkgs sampleReconciler demoKey (world (lifeCtx now runs jobs))
    (world (snd (cachedPass copy (lifeCtx now runs jobs))))"
  using cached_step.pass [of demoKey demoKey stored_run "cachedKube copy" "world (lifeCtx now runs jobs)" mergePkgs sampleReconciler "[]"]
    assms by (simp flip: lifeCtx_ctx)

theorem run_only_advances_witness:
  "\<exists>run'. stored_run (world (snd (cachedPass startedRun (lifeCtx Second [reportedRun] [completeJob])))) demoKey = Some run'
     \<and> advances reportedRun run'"
proof -
  let ?s = "lifeCtx Second [reportedRun] [completeJob]"
  note st = lifeCtx_stored(1) [OF reportedRun_names, of Second "[completeJob]"]
  have "reads_owned stored_run (cachedKube startedRun) demoKey (world ?s)"
    using reportedRun_state(1) startedRun_names by (simp add: reads_owned_def cachedKube_def st meta_key_def)
  from cached_pass [OF this]
  have "(cached_step stored_run (cachedKube startedRun) mergePkgs sampleReconciler demoKey)\<^sup>*\<^sup>* (world ?s)
      (world (snd (cachedPass startedRun ?s)))" by (rule r_into_rtranclp)
  from run_only_advances [OF cached.cached_state_axioms merged_conditions st reportedRun_state(2) this] show ?thesis .
qed

text \<open>C4: on a server that answers, a run ends: when a pass has returned a \<open>RequeueAfter\<close>, the pass after that
  time finds the run terminal or makes it so, whatever has happened in between, although the start it
  reads back has lost its fraction of a second. The deadline is assumed to lie within the range of
  a duration.\<close>

theorem run_terminates:
  assumes "run_state stored K P" and "run_server look K P" and "condition_list (p_set_condition P)"
    and read: "k_get_run K key (world s) = (Inr run, w0)" "\<not> isTerminalPhase (run_Phase run)" "consistent run"
    and first: "fst (CheckRun_Reconcile K P r key s) = Inr d"
    and range: "time_add (deref (st_StartTime (run_Status run)) (k_now K w0)) (runTimeout run) - k_now K w0 + Second
      \<le> maxDuration"
    and history: "(evolves stored K P r key)\<^sup>*\<^sup>* (world (snd (CheckRun_Reconcile K P r key s))) w"
    and again: "k_get_run K key w = (Inr cur, w1)" "k_now K w0 + d \<le> k_now K w1"
  shows "\<exists>run'. stored (world (snd (CheckRun_Reconcile K P r key \<lparr>world = w, acts = as\<rparr>))) key = Some run'
     \<and> isTerminalPhase (run_Phase run')"
proof -
  let ?now = "k_now K w0" and ?out = "CheckRun_Reconcile K P r key \<lparr>world = w, acts = as\<rparr>"
  let ?start = "deref (st_StartTime (run_Status run)) ?now"
  obtain cs where cs: "decides run ?now cs"
    "stored (world (snd (CheckRun_Reconcile K P r key s))) key = Some (applied P run cs)"
    "\<not> isTerminalPhase (cs_phase cs) \<longrightarrow> \<not> overdue run ?now (runTimeout run) \<and> cs_startTime cs = Some ?start \<and>
       d = dur_add (time_sub (time_add ?start (runTimeout run)) ?now) Second"
    by (rule run_state.answered_pass [OF assms(1) read(1,2) first])
  have get: "fst (k_get_run K key (world \<lparr>world = w, acts = as\<rparr>)) = Inr cur" using again(1) by simp
  have cur: "stored w key = Some cur" using run_state.get_run [OF assms(1) get] by simp
  with history_follows [OF assms(1) history cs(2)] have "(follows P)\<^sup>*\<^sup>* (applied P run cs) cur" by simp
  then have adv: "advances (applied P run cs) cur"
    using assms(3) decides_consistent [OF assms(3) read(3) cs(1)] by (rule history_advances)
  show ?thesis
  proof (cases "isTerminalPhase (run_Phase cur)")
    case True
    then show ?thesis using run_frame.Reconcile_terminal [OF run_state.axioms(1) [OF assms(1)] get True, of P r] cur by simp
  next
    case False
    then have "\<not> isTerminalPhase (cs_phase cs)" using advances_terminal [OF adv] by auto
    note running = cs(3) [THEN mp, OF this]
    then have start: "st_StartTime (run_Status cur) = Some (whole_second ?start)" and "runTimeout cur = runTimeout run"
      using adv by (simp_all add: advances_def runTimeout_def)
    moreover have "time_add (whole_second ?start) (runTimeout run) < k_now K w1"
      using range running again(2) by (intro requeue_reaches_deadline [where now = ?now]) (auto simp: overdue_def)
    ultimately have late: "overdue cur (k_now K w1) (runTimeout cur)" by (simp add: overdue_def)
    have "\<exists>d. fst ?out = Inr d"
      by (rule run_server.Reconcile_answers [OF assms(2) _ _ False]) (use again(1) start in simp_all)
    then obtain d' where "fst ?out = Inr d'" ..
    from run_state.answered_pass [OF assms(1) _ False this] again(1) late show ?thesis by fastforce
  qed
qed

text \<open>Ten minutes and a second after it has found a run of which no pod reports, the pass ends it.\<close>

definition waitCtx :: "cluster ctx" where
  "waitCtx = lifeCtx 0 [startedRun] [completeJob]"

theorem run_terminates_witness:
  "\<exists>d w run'. fst (CheckRun_Reconcile mergeKube mergePkgs sampleReconciler demoKey waitCtx) = Inr d
     \<and> w = (passFrom waitCtx)\<lparr>cl_now := d\<rparr>
     \<and> stored_run (passFrom \<lparr>world = w, acts = []\<rparr>) demoKey = Some run' \<and> isTerminalPhase (run_Phase run')"
proof -
  let ?pass = "CheckRun_Reconcile mergeKube mergePkgs sampleReconciler demoKey"
  have st: "stored_run (world waitCtx) demoKey = Some startedRun"
    using lifeCtx_stored(1) [OF startedRun_names] by (simp add: waitCtx_def)
  have read: "k_get_run mergeKube demoKey (world waitCtx) = (Inr startedRun, world waitCtx)"
    by (simp add: mergeKube_def found_def st)
  have goes_on: "\<not> isTerminalPhase (run_Phase startedRun)" by (simp add: startedRun_state isTerminalPhase_def)
  obtain d where first: "fst (?pass waitCtx) = Inr d"
    using answered.Reconcile_answers [OF read _ goes_on, of sampleReconciler] startedRun_state(2) by auto
  let ?w = "(passFrom waitCtx)\<lparr>cl_now := d\<rparr>"
  have "demoEvolves (passFrom waitCtx) ?w" by (rule evolves.elsewhere) simp
  then have history: "demoEvolves\<^sup>*\<^sup>* (passFrom waitCtx) ?w" by blast
  have "demoEvolves (world waitCtx) (passFrom waitCtx)" unfolding waitCtx_def by (rule demo_pass)
  from converse_rtranclp_into_rtranclp [of demoEvolves, OF this history] st
  obtain cur where cur: "stored_run ?w demoKey = Some cur" by (rule demo_kept)
  then have again: "k_get_run mergeKube demoKey ?w = (Inr cur, ?w)" by (simp add: mergeKube_def found_def)
  have now: "k_now mergeKube (w\<lparr>cl_now := t\<rparr>) = t" "k_now mergeKube (world waitCtx) = 0" for w t
    by (simp_all add: mergeKube_def clusterKube_def waitCtx_def lifeCtx_def sampleCluster_def)
  have "\<exists>run'. stored_run (passFrom \<lparr>world = ?w, acts = []\<rparr>) demoKey = Some run' \<and> isTerminalPhase (run_Phase run')"
    by (rule run_terminates [OF merged_axioms answered.run_server_axioms merged_conditions read goes_on
          startedRun_state(4) first _ history again]) (simp_all add: now startedRun_state time_add_def)
  with first show ?thesis by blast
qed

section \<open>Reads from a cache\<close>

definition endedRun :: CheckRun where
  "endedRun = startedRun\<lparr>run_Status := (run_Status startedRun)\<lparr>st_Phase := CheckRunSucceeded,
     st_CompletionTime := Some Second, st_Runners := [\<lparr>rs_Name = ''zone-a'', rs_Pods = [webPod True]\<rparr>],
     st_Summary := Some \<lparr>sum_Total = 1, sum_Passed = 1, sum_Failed = 0\<rparr>\<rparr>\<rparr>"

lemma endedRun_names: "run_Name endedRun = ''demo''" "run_Namespace endedRun = ''prod''"
  by (simp_all add: endedRun_def startedRun_names)

text \<open>C18: a pass that has read a copy from before the verdict reopens the run. The manager reads through a cache that
  may lag behind its own writes, and the status is applied without a check of the version read: on a server that
  answers, when the copy has been started, is before its deadline and lacks results, and none of its Jobs has failed, the pass succeeds
  and puts the stored run, whatever verdict it has, back to Running, with its completion time and its summary dropped and everything
  but the status kept, so the run does not only advance.\<close>

theorem stale_read_reopens_run:
  assumes "cached_state stored K P" and "run_server look K P"
    and "k_get_run K key w = (Inr old, w0)" and "\<not> isTerminalPhase (run_Phase old)"
    and "st_StartTime (run_Status old) = Some start" and "\<not> overdue old (k_now K w0) (runTimeout old)" and "\<not> reported old"
    and "\<forall>rn \<in> set (tpl_Runners (run_Template old)). \<exists>job. look w0 (jobKey old rn) = Some job \<and> \<not> jobFailed job"
    and "stored w key = Some cur" and "isTerminalPhase (run_Phase cur)"
  shows "\<exists>d t run. CheckRun_Reconcile K P r key \<lparr>world = w, acts = as\<rparr> = (Inr d, t)
    \<and> stored (world t) key = Some run \<and> run_Phase run = CheckRunRunning
    \<and> st_StartTime (run_Status run) = Some (whole_second start)
    \<and> st_CompletionTime (run_Status run) = None \<and> st_Summary (run_Status run) = None
    \<and> run = cur\<lparr>run_Status := run_Status run\<rparr> \<and> \<not> advances cur run"
proof -
  let ?out = "CheckRun_Reconcile K P r key \<lparr>world = w, acts = as\<rparr>"
  let ?run = "overlaid P old (runningStatus old (k_now K w0)) cur"
  obtain d where out: "fst ?out = Inr d" "stored (world (snd ?out)) key = Some ?run" by (rule stale_pass [OF assms(1-9)])
  have open_run: "run_Phase ?run = CheckRunRunning" "st_StartTime (run_Status ?run) = Some (whole_second start)"
    "st_CompletionTime (run_Status ?run) = None" "st_Summary (run_Status ?run) = None"
    using assms(5) by (simp_all add: runningStatus_def)
  have "\<not> advances cur ?run"
    using advances_terminal [of cur ?run] assms(10) open_run(1) by (auto simp: isTerminalPhase_def)
  moreover have "?run = cur\<lparr>run_Status := run_Status ?run\<rparr>" by (simp add: overlaid_def)
  ultimately show ?thesis using out open_run
    by (intro exI [of _ d] exI [of _ "snd ?out"] exI [of _ ?run]) (simp_all add: prod_eq_iff)
qed

theorem stale_read_reopens_run_witness:
  "\<exists>run. stored_run (world (lifeCtx Minute [endedRun] [completeJob])) demoKey = Some endedRun
     \<and> run_Phase endedRun = CheckRunSucceeded
     \<and> stored_run (world (snd (cachedPass startedRun (lifeCtx Minute [endedRun] [completeJob])))) demoKey = Some run
     \<and> run_Phase run = CheckRunRunning \<and> st_CompletionTime (run_Status run) = None \<and> st_Summary (run_Status run) = None"
proof -
  let ?s = "lifeCtx Minute [endedRun] [completeJob]"
  let ?w = "world ?s"
  note st = lifeCtx_stored(1) [OF endedRun_names, of Minute "[completeJob]"]
  have get: "k_get_run (cachedKube startedRun) demoKey ?w = (Inr startedRun, ?w)"
    using startedRun_names by (simp add: cachedKube_def meta_key_def)
  have going: "\<not> isTerminalPhase (run_Phase startedRun)" "\<not> overdue startedRun (k_now (cachedKube startedRun) ?w) (runTimeout startedRun)"
    by (simp_all add: startedRun_state isTerminalPhase_def overdue_def time_add_def lifeCtx_def sampleCluster_def)
  have spec: "tpl_Runners (run_Template startedRun) = [zoneRunner]" "jobKey startedRun zoneRunner = (''prod'', ''demo-zone-a'')"
    "\<not> reported startedRun"
    by (simp_all add: startedRun_def sampleRun_def newMeta_def webTemplate_def zoneRunner_def jobKey_def jobName_short reported_def podsByRunner_def)
  have "look_job ?w (''prod'', ''demo-zone-a'') = Some completeJob" "\<not> jobFailed completeJob"
    by (simp_all add: look_job_def lifeCtx_def sampleCluster_def completeJob_def newMeta_def meta_key_def jobFailed_def)
  then have jobs: "\<forall>rn \<in> set (tpl_Runners (run_Template startedRun)). \<exists>job. look_job ?w (jobKey startedRun rn) = Some job \<and> \<not> jobFailed job"
    by (simp add: spec)
  have ended: "run_Phase endedRun = CheckRunSucceeded" "isTerminalPhase (run_Phase endedRun)"
    by (simp_all add: endedRun_def isTerminalPhase_def)
  from stale_read_reopens_run [where K = "cachedKube startedRun" and w = ?w and ?w0.0 = ?w and key = demoKey and cur = endedRun
      and r = sampleReconciler and as = "[]", OF cached.cached_state_axioms cache_answers.run_server_axioms get going(1) startedRun_state(2)
      going(2) spec(3) jobs st ended(2)]
  obtain d t run where "cachedPass startedRun ?s = (Inr d, t)" "stored_run (world t) demoKey = Some run"
    "run_Phase run = CheckRunRunning" "st_CompletionTime (run_Status run) = None" "st_Summary (run_Status run) = None"
    unfolding lifeCtx_ctx [symmetric] by blast
  then show ?thesis using st ended(1) by auto
qed

end
