(* ===== verification/Suite_History.thy ===== *)
theory Suite_History
  imports Status_Server
begin

text \<open>
  The record of a CheckSuite over whole histories. A suite is read through a cache that may lag and its
  status is replaced by \<open>Status().Update\<close>, which carries the version that was read: the server refuses
  it when the stored suite has changed since. \<open>suite_state\<close> is that contract, for a server whose
  versions are never issued twice; its lemmas give the effect of each operation of the reconciler on the
  stored suites, down to one pass (\<open>pass_writes\<close>). \<open>suite_step\<close> are the steps of a history: passes
  over any suite, on the current state of the suite or on any earlier one, edits, and what does not
  touch the suite. \<open>unrewound\<close> is the invariant such histories keep.
\<close>

section \<open>Versions\<close>

abbreviation suite_Key :: "CheckSuite \<Rightarrow> nkey" where
  "suite_Key suite \<equiv> meta_key (suite_Meta suite)"

abbreviation suite_Version :: "CheckSuite \<Rightarrow> string" where
  "suite_Version suite \<equiv> om_ResourceVersion (suite_Meta suite)"

abbreviation suite_Last :: "CheckSuite \<Rightarrow> time option" where
  "suite_Last suite \<equiv> sst_LastScheduleTime (suite_Status suite)"

text \<open>On the wire a time is in whole seconds.\<close>

definition suite_wire :: "CheckSuiteStatus \<Rightarrow> CheckSuiteStatus" where
  "suite_wire st = st\<lparr>sst_LastScheduleTime := map_option whole_second (sst_LastScheduleTime st)\<rparr>"

definition untouched :: "('w \<Rightarrow> nkey \<Rightarrow> CheckSuite option) \<Rightarrow> ('w \<Rightarrow> string set) \<Rightarrow> 'w \<Rightarrow> 'w \<Rightarrow> bool" where
  "untouched stored issued w w' \<longleftrightarrow> stored w' = stored w \<and> issued w \<subseteq> issued w'"

lemma suite_wire_last [simp]:
  "sst_LastScheduleTime (suite_wire st) = map_option whole_second (sst_LastScheduleTime st)"
  by (simp add: suite_wire_def)

lemma meta_key_version [simp]: "meta_key (m\<lparr>om_ResourceVersion := v\<rparr>) = meta_key m"
  by (simp add: meta_key_def)

text \<open>A status that is accepted: the stored suite has the version sent, and gets the status and a new one.\<close>

definition accepted :: "('w \<Rightarrow> nkey \<Rightarrow> CheckSuite option) \<Rightarrow> ('w \<Rightarrow> string set) \<Rightarrow> CheckSuite \<Rightarrow> 'w \<Rightarrow> 'w \<Rightarrow> bool" where
  "accepted stored issued x w w' \<longleftrightarrow>
     (\<exists>old v. stored w (suite_Key x) = Some old \<and> suite_Version old = suite_Version x
        \<and> v \<notin> issued w \<and> v \<in> issued w' \<and> issued w \<subseteq> issued w'
        \<and> stored w' = (stored w)(suite_Key x \<mapsto>
            old\<lparr>suite_Meta := (suite_Meta old)\<lparr>om_ResourceVersion := v\<rparr>, suite_Status := suite_wire (suite_Status x)\<rparr>))"

lemma untouched_refl [simp]: "untouched stored issued w w"
  by (simp add: untouched_def)

lemma untouched_trans [trans]:
  "untouched stored issued u v \<Longrightarrow> untouched stored issued v w \<Longrightarrow> untouched stored issued u w"
  by (auto simp: untouched_def)

section \<open>One pass\<close>

locale suite_state =
  fixes stored :: "'w \<Rightarrow> nkey \<Rightarrow> CheckSuite option" and issued :: "'w \<Rightarrow> string set" and K :: "'w kube"
  assumes get_suite: "untouched stored issued w (snd (k_get_suite K k w))"
    and list_runs: "untouched stored issued w (snd (k_list_runs K ns sel w))"
    and get_run: "untouched stored issued w (snd (k_get_run K k w))"
    and create_run: "untouched stored issued w (snd (k_create_run K run w))"
    and delete_run: "untouched stored issued w (snd (k_delete_run K k w))"
    and update_status: "untouched stored issued w (snd (k_update_suite_status K x w))
      \<or> accepted stored issued x w (snd (k_update_suite_status K x w))"
begin

abbreviation kept :: "'w ctx \<Rightarrow> 'w ctx \<Rightarrow> bool" where
  "kept s t \<equiv> untouched stored issued (world s) (world t)"

lemma kept_perform:
  "perform a f s = (r, t) \<Longrightarrow> (\<And>w. untouched stored issued w (snd (f w))) \<Longrightarrow> kept s t"
  using perform_world [of a f s] by simp

lemma deleteRuns_kept: "kept s (snd (deleteRuns K runs s))"
proof (induction runs arbitrary: s)
  case (Cons run runs)
  obtain q s1 where p: "perform (Req (DeleteRun (runKey run))) (k_delete_run K (runKey run)) s = (q, s1)" by fastforce
  have "kept s s1" using p delete_run by (rule kept_perform)
  then show ?case using p Cons.IH [of s1]
    by (auto simp: runKey_def Let_def split: option.split api_error.split intro: untouched_trans)
qed simp

lemma gcRuns_kept: "kept s (snd (gcRuns K P runs limit s))"
  using deleteRuns_kept by (simp add: gcRuns_def)

lemma createRun_kept: "kept s (snd (createRun K P suite name s))"
proof (cases "p_own_run P suite (newRun suite name)")
  case (Inr run)
  obtain q s1 where p: "perform (Req (CreateRun run)) (k_create_run K run) s = (q, s1)" by fastforce
  obtain g s2 where h: "perform (Req (GetRun (meta_key (run_Meta run)))) (k_get_run K (meta_key (run_Meta run))) s1 = (g, s2)"
    by fastforce
  have "kept s s1" using p create_run by (rule kept_perform)
  moreover have "kept s1 s2" using h get_run by (rule kept_perform)
  ultimately show ?thesis using p h Inr
    by (auto simp: createRun_def Let_def split: sum.split api_error.split intro: untouched_trans)
qed (simp add: createRun_def)

lemma fireTick_kept: "kept s (snd (fireTick K P suite active now tick status s))"
proof (cases "fires suite active now tick")
  case False
  then show ?thesis by (auto simp: fireTick_def fires_def startingDeadline_def Let_def)
next
  case True
  let ?d = "if ss_ConcurrencyPolicy (suite_Spec suite) = ReplaceConcurrent then deleteRuns K active s else (None, s)"
  obtain q s1 where d: "?d = (q, s1)" by fastforce
  obtain c s2 where c: "createRun K P suite (scheduledRunName suite tick) s1 = (c, s2)" by fastforce
  have "kept s s1" using d deleteRuns_kept [of s active] by (auto split: if_splits)
  moreover have "kept s1 s2" using createRun_kept [of s1 P suite "scheduledRunName suite tick"] c by simp
  ultimately show ?thesis using d c
    by (auto simp: fireTick_fires [OF True] split: option.split sum.split intro: untouched_trans)
qed

lemma manualTrigger_kept:
  "kept s (snd (manualTrigger K P suite (startStatus P suite items) s))"
  "manualTrigger K P suite (startStatus P suite items) s = (Inr status, t) \<Longrightarrow>
     sst_LastScheduleTime status = suite_Last suite"
  using createRun_kept [of s P suite "manualRunName suite (runNow suite)"]
  by (auto simp: manualTrigger_eq split: prod.splits sum.splits if_splits)

text \<open>The last thing a pass does is the update of the status, with the due tick recorded.\<close>

definition writes :: "pkgs \<Rightarrow> CheckSuite \<Rightarrow> time \<Rightarrow> time option \<Rightarrow> 'w ctx \<Rightarrow> 'w ctx \<Rightarrow> bool" where
  "writes P suite now prev s t \<longleftrightarrow> kept s t \<or> (\<exists>u st. untouched stored issued (world s) u
     \<and> accepted stored issued (suite\<lparr>suite_Status := st\<rparr>) u (world t)
     \<and> sst_LastScheduleTime st = (case dueTick P suite now (suite_Status suite) of Some tick \<Rightarrow> Some tick | None \<Rightarrow> prev))"

lemma done_with_writes:
  assumes "kept s s2" and "sst_LastScheduleTime st =
      (case dueTick P suite now (suite_Status suite) of Some tick \<Rightarrow> Some tick | None \<Rightarrow> prev)"
  shows "writes P suite now prev s (snd (done_with (updateStatus K suite st s2) d))"
proof -
  let ?x = "suite\<lparr>suite_Status := st\<rparr>"
  have "world (snd (done_with (updateStatus K suite st s2) d)) = snd (k_update_suite_status K ?x (world s2))"
    by (cases "perform (Req (UpdateSuiteStatus ?x)) (k_update_suite_status K ?x) s2")
      (use perform_world [of "Req (UpdateSuiteStatus ?x)" "k_update_suite_status K ?x" s2]
       in \<open>simp add: done_with_def updateStatus_def split: option.split\<close>)
  moreover have "writes P suite now prev s t" if "kept s2 t" for t
    using untouched_trans [OF assms(1) that] by (simp add: writes_def)
  moreover have "writes P suite now prev s t" if "accepted stored issued ?x (world s2) (world t)" for t
    unfolding writes_def using assms that by (intro disjI2 exI conjI)
  ultimately show ?thesis using update_status [of "world s2" ?x] by metis
qed

lemma handleSchedule_writes:
  assumes "sst_LastScheduleTime status = suite_Last suite"
  shows "writes P suite now (suite_Last suite) s (snd (handleSchedule K P suite active now status s))"
proof -
  obtain status1 s1 d where w: "world s1 = world s" and last: "sst_LastScheduleTime status1 = sst_LastScheduleTime status"
    and form: "handleSchedule K P suite active now status s =
      (case (case dueTick P suite now status of None \<Rightarrow> (Inr status1, s1)
         | Some tick \<Rightarrow> fireTick K P suite active now tick status1 s1) of
         (Inl e, s2) \<Rightarrow> (Inl e, s2)
       | (Inr status2, s2) \<Rightarrow> done_with (updateStatus K suite status2 s2) d)"
    by (rule handleSchedule_form [of s suite status P now K active])
  have due: "dueTick P suite now status = dueTick P suite now (suite_Status suite)"
    using assms by (rule dueTick_cong)
  show ?thesis
  proof (cases "dueTick P suite now (suite_Status suite)")
    case None
    then show ?thesis unfolding form due using w last assms
      by (simp add: done_with_writes)
  next
    case (Some tick)
    obtain q s2 where f: "fireTick K P suite active now tick status1 s1 = (q, s2)" by fastforce
    then have k: "kept s s2" using fireTick_kept [of s1 P suite active now tick status1] w by simp
    show ?thesis
    proof (cases q)
      case (Inl e)
      then show ?thesis unfolding form due using Some f k by (simp add: writes_def)
    next
      case (Inr status2)
      then show ?thesis unfolding form due
        using Some f k fireTick_status [of K P suite active now tick status1 s1 status2 s2] by (simp add: done_with_writes)
    qed
  qed
qed

lemma writes_after: "kept s t \<Longrightarrow> writes P suite now prev t u \<Longrightarrow> writes P suite now prev s u"
  unfolding writes_def by (elim disjE exE conjE) (blast intro: untouched_trans)+

lemma suitePass_writes: "writes P suite now (suite_Last suite) s (snd (suitePass K P suite now items s))"
proof -
  let ?succ = "filter (\<lambda>run. run_Phase run = CheckRunSucceeded) (suiteRuns P suite items)"
  let ?fail = "filter (\<lambda>run. run_Phase run = CheckRunFailed \<or> run_Phase run = CheckRunError) (suiteRuns P suite items)"
  let ?lim = "historyLimits (ss_HistoryLimit (suite_Spec suite))"
  obtain q1 s1 where g1: "gcRuns K P ?succ (fst ?lim) s = (q1, s1)" by fastforce
  obtain q2 s2 where g2: "gcRuns K P ?fail (snd ?lim) s1 = (q2, s2)" by fastforce
  obtain m s3 where m: "manualTrigger K P suite (startStatus P suite items) s2 = (m, s3)" by fastforce
  have k1: "kept s s1" using gcRuns_kept [of s P ?succ "fst ?lim"] g1 by simp
  have k2: "kept s s2"
    using k1 by (rule untouched_trans) (use gcRuns_kept [of s1 P ?fail "snd ?lim"] g2 in simp)
  have k3: "kept s s3"
    using k2 by (rule untouched_trans) (use manualTrigger_kept(1) [of s2 P suite items] m in simp)
  have "writes P suite now (suite_Last suite) s (snd (handleSchedule K P suite (activeRuns P suite items) now status s3))"
    if "m = Inr status" for status
    using k3 by (rule writes_after) (rule handleSchedule_writes [OF manualTrigger_kept(2) [OF m [unfolded that]]])
  moreover have "writes P suite now (suite_Last suite) s s1" "writes P suite now (suite_Last suite) s s2"
    "writes P suite now (suite_Last suite) s s3"
    using k1 k2 k3 by (simp_all add: writes_def)
  ultimately show ?thesis using g1 g2 m
    by (simp add: suitePass_def Let_def split: option.split sum.split)
qed

text \<open>A pass over the suite it reads, whichever version that is, leaves the stored suites or replaces one status.\<close>

lemma pass_writes:
  assumes "\<not> kept s (snd (CheckSuite_Reconcile K P req s))"
  obtains suite now where "fst (k_get_suite K req (world s)) = Inr suite"
    "writes P suite now (suite_Last suite) s (snd (CheckSuite_Reconcile K P req s))"
proof -
  obtain g s1 where g: "perform (Req (GetSuite req)) (k_get_suite K req) s = (g, s1)" by fastforce
  have k1: "kept s s1" using g get_suite by (rule kept_perform)
  then obtain suite where suite: "g = Inr suite"
    using g assms by (cases g; cases "projl g") (auto simp: CheckSuite_Reconcile_def DeleteSuite_def Let_def)
  let ?sel = "listSelector suite"
  obtain l s2 where l: "perform (Req (ListRuns (suite_Namespace suite) ?sel)) (k_list_runs K (suite_Namespace suite) ?sel) s1 = (l, s2)"
    by fastforce
  have k2: "kept s s2" using k1 kept_perform [OF l list_runs] by (rule untouched_trans)
  show thesis
  proof (cases l)
    case (Inl e)
    then show thesis using assms k2 g l suite by (simp add: CheckSuite_Reconcile_def listSelector_def Let_def)
  next
    case (Inr items)
    have "CheckSuite_Reconcile K P req s = suitePass K P suite (k_now K (world s1)) items s2"
      using g l unfolding suite Inr by (rule Suite_Reconcile_eq)
    then have "writes P suite (k_now K (world s1)) (suite_Last suite) s (snd (CheckSuite_Reconcile K P req s))"
      using writes_after [OF k2 suitePass_writes] by simp
    moreover have "fst (k_get_suite K req (world s)) = Inr suite"
      using perform_result [of "Req (GetSuite req)" "k_get_suite K req" s] g suite by simp
    ultimately show thesis using that by blast
  qed
qed

end

section \<open>Histories\<close>

text \<open>
  A state of the history of one suite is the world and every version of the suite there has been. A pass
  over this suite reads any of these versions, a pass over another suite reads that one; an edit keeps the
  status, which has its own subresource, and gets a new version.
\<close>

inductive suite_step :: "('w \<Rightarrow> nkey \<Rightarrow> CheckSuite option) \<Rightarrow> ('w \<Rightarrow> string set) \<Rightarrow> 'w kube \<Rightarrow> pkgs \<Rightarrow> nkey \<Rightarrow>
    'w \<times> CheckSuite set \<Rightarrow> 'w \<times> CheckSuite set \<Rightarrow> bool"
  for stored :: "'w \<Rightarrow> nkey \<Rightarrow> CheckSuite option" and issued :: "'w \<Rightarrow> string set" and K :: "'w kube"
    and P :: pkgs and key :: nkey where
  pass: "\<forall>x. fst (k_get_suite K req w) = Inr x \<longrightarrow> suite_Key x = req \<and> (req = key \<longrightarrow> x \<in> seen) \<Longrightarrow>
     w' = world (snd (CheckSuite_Reconcile K P req \<lparr>world = w, acts = as\<rparr>)) \<Longrightarrow>
     suite_step stored issued K P key (w, seen) (w', seen \<union> set_option (stored w' key))"
| edit: "stored w key = Some y \<Longrightarrow> stored w' key = Some y' \<Longrightarrow> suite_Key y' = key \<Longrightarrow>
     suite_Status y' = suite_Status y \<Longrightarrow> suite_Version y' \<notin> issued w \<Longrightarrow> suite_Version y' \<in> issued w' \<Longrightarrow>
     issued w \<subseteq> issued w' \<Longrightarrow> suite_step stored issued K P key (w, seen) (w', insert y' seen)"
| elsewhere: "stored w' key = stored w key \<Longrightarrow> issued w \<subseteq> issued w' \<Longrightarrow>
     suite_step stored issued K P key (w, seen) (w', seen)"

text \<open>The recorded time of one suite is not after that of another.\<close>

definition last_le :: "CheckSuite \<Rightarrow> CheckSuite \<Rightarrow> bool" where
  "last_le x y \<longleftrightarrow> (\<forall>l. suite_Last x = Some l \<longrightarrow> (\<exists>l'. suite_Last y = Some l' \<and> l \<le> l'))"

text \<open>Every version there has been is known by its number, and none is ahead of the stored one.\<close>

definition unrewound :: "('w \<Rightarrow> nkey \<Rightarrow> CheckSuite option) \<Rightarrow> ('w \<Rightarrow> string set) \<Rightarrow> nkey \<Rightarrow> 'w \<times> CheckSuite set \<Rightarrow> bool" where
  "unrewound stored issued key state \<longleftrightarrow> (case state of (w, seen) \<Rightarrow>
     \<exists>cur \<in> seen. stored w key = Some cur \<and> (\<forall>x \<in> seen. suite_Key x = key \<and> suite_Version x \<in> issued w
       \<and> map_option whole_second (suite_Last x) = suite_Last x
       \<and> (suite_Version x = suite_Version cur \<longrightarrow> x = cur) \<and> last_le x cur))"

text \<open>
  The schedule of the suite, if it has one that is in force and parses, goes on: \<open>Next\<close> returns a later time, as
  it does for the fields of a cron line and for \<open>@every\<close>. It returns the zero time instead for a schedule
  without a tick in the five years that follow, such as the thirtieth of February, so no such schedule is \<open>ticking\<close>.
\<close>

definition ticking :: "pkgs \<Rightarrow> CheckSuite \<Rightarrow> bool" where
  "ticking P suite \<longleftrightarrow> (\<forall>cron nxt. ss_Schedule (suite_Spec suite) = Some cron \<longrightarrow> \<not> deref (ss_Suspend (suite_Spec suite)) False \<longrightarrow>
     p_parse_cron P cron = Inr nxt \<longrightarrow> (\<forall>t. t < nxt t))"

lemma last_le_refl [simp]: "last_le x x"
  by (simp add: last_le_def)

lemma last_le_trans: "last_le x y \<Longrightarrow> last_le y z \<Longrightarrow> last_le x z"
  by (fastforce simp: last_le_def)

lemma last_le_cong: "suite_Last y = suite_Last z \<Longrightarrow> last_le x y \<longleftrightarrow> last_le x z"
  by (simp add: last_le_def)

lemma unrewoundE:
  assumes "unrewound stored issued key (w, seen)"
  obtains cur where "cur \<in> seen" "stored w key = Some cur"
    "\<forall>x \<in> seen. suite_Key x = key \<and> suite_Version x \<in> issued w \<and> map_option whole_second (suite_Last x) = suite_Last x"
    "\<forall>x \<in> seen. suite_Version x = suite_Version cur \<longrightarrow> x = cur" "\<forall>x \<in> seen. last_le x cur"
  using assms unfolding unrewound_def by blast

text \<open>A new version that is not behind the stored one.\<close>

lemma unrewound_new:
  assumes "unrewound stored issued key (w, seen)" and "stored w key = Some cur" and "last_le cur new"
    and "stored w' key = Some new" and "suite_Key new = key" and "map_option whole_second (suite_Last new) = suite_Last new"
    and "suite_Version new \<notin> issued w" and "suite_Version new \<in> issued w'" and "issued w \<subseteq> issued w'"
  shows "unrewound stored issued key (w', insert new seen)"
proof -
  obtain c where "stored w key = Some c" and c: "\<forall>x \<in> seen. suite_Key x = key \<and> suite_Version x \<in> issued w
      \<and> map_option whole_second (suite_Last x) = suite_Last x" "\<forall>x \<in> seen. last_le x c"
    using assms(1) by (rule unrewoundE)
  then have "last_le x new" if "x \<in> seen" for x
    using last_le_trans [of x c new] that assms(2,3) by simp
  then show ?thesis using c(1) assms(4-) unfolding unrewound_def by auto
qed

lemma unrewound_kept:
  assumes "unrewound stored issued key (w, seen)" and "stored w' key = stored w key" and "issued w \<subseteq> issued w'"
  shows "unrewound stored issued key (w', seen)"
  using assms unfolding unrewound_def by (simp split: prod.splits) blast

text \<open>A due tick is later than the time recorded.\<close>

lemma scanTicks_after:
  "(\<And>u. u < nxt u) \<Longrightarrow> l \<le> u \<Longrightarrow> \<forall>k. lm = Some k \<longrightarrow> l < k \<Longrightarrow> fst (scanTicks nxt now lm n (nxt u)) = Some tick \<Longrightarrow> l < tick"
proof (induction "Suc maxMissedScans - n" arbitrary: lm n u rule: less_induct)
  case less
  have later: "l < nxt u" using less.prems(1) [of u] less.prems(2) by linarith
  show ?case
  proof (cases "\<not> after (nxt u) now \<and> Suc n \<le> maxMissedScans")
    case True
    then have "fst (scanTicks nxt now (Some (nxt u)) (Suc n) (nxt (nxt u))) = Some tick"
      using less.prems(4) by (simp add: scanTicks.simps [of nxt now lm])
    then show ?thesis using less.hyps [of "Suc n" "nxt u" "Some (nxt u)"] less.prems(1) True later by auto
  next
    case False
    then show ?thesis using less.prems(3,4) later by (auto simp: scanTicks.simps [of nxt now lm] split: if_splits)
  qed
qed

lemma dueTick_after:
  assumes "ticking P suite" and "dueTick P suite now status = Some tick" and "sst_LastScheduleTime status = Some l"
  shows "l < tick"
proof -
  obtain cron nxt where p: "\<not> deref (ss_Suspend (suite_Spec suite)) False" "ss_Schedule (suite_Spec suite) = Some cron"
    "p_parse_cron P cron = Inr nxt" and m: "fst (mostRecentScheduleTime nxt l now) = Some tick"
    using assms(2,3) unfolding dueTick_def by (auto split: option.splits sum.splits if_splits)
  have "u < nxt u" for u using assms(1) p by (simp add: ticking_def)
  from this order_refl show ?thesis
    by (rule scanTicks_after) (use m in \<open>simp_all add: mostRecentScheduleTime_def\<close>)
qed

lemma whole_second_mono: "t \<le> u \<Longrightarrow> whole_second t \<le> whole_second u"
  unfolding whole_second_def by (intro mult_right_mono zdiv_mono1) simp_all

text \<open>What a pass records is not behind the version it has read.\<close>

lemma recorded_later:
  assumes "ticking P x" and "map_option whole_second (suite_Last x) = suite_Last x"
    and "suite_Last y = map_option whole_second
      (case dueTick P x now (suite_Status x) of Some tick \<Rightarrow> Some tick | None \<Rightarrow> suite_Last x)"
  shows "last_le x y"
proof (cases "dueTick P x now (suite_Status x)")
  case None
  then show ?thesis using assms(2,3) by (simp add: last_le_def)
next
  case (Some tick)
  have "l \<le> whole_second tick" if "suite_Last x = Some l" for l
    using whole_second_mono [of l tick] dueTick_after [OF assms(1) Some that] assms(2) that by simp
  then show ?thesis using Some assms(3) by (simp add: last_le_def)
qed

context suite_state
begin

text \<open>An update that is accepted while the suite is as it was read.\<close>

lemma unrewound_accepted:
  assumes "ticking P x" and inv: "unrewound stored issued key (w, seen)" and "x \<in> seen" and "suite_Key x = key"
    and u: "untouched stored issued w u" and acc: "accepted stored issued (x\<lparr>suite_Status := st\<rparr>) u w'"
    and last: "sst_LastScheduleTime st = (case dueTick P x now (suite_Status x) of Some tick \<Rightarrow> Some tick | None \<Rightarrow> suite_Last x)"
  shows "unrewound stored issued key (w', seen \<union> set_option (stored w' key))"
proof -
  obtain cur where cur: "cur \<in> seen" "stored w key = Some cur"
    "\<forall>x \<in> seen. suite_Key x = key \<and> suite_Version x \<in> issued w \<and> map_option whole_second (suite_Last x) = suite_Last x"
    "\<forall>x \<in> seen. suite_Version x = suite_Version cur \<longrightarrow> x = cur"
    using inv by (rule unrewoundE)
  have sub: "stored u = stored w" "issued w \<subseteq> issued u" using u by (simp_all add: untouched_def)
  from acc obtain old v where old: "stored u key = Some old" "suite_Version old = suite_Version x"
    and v: "v \<notin> issued u" "v \<in> issued w'" "issued u \<subseteq> issued w'"
    and put: "stored w' = (stored u)(key \<mapsto>
      old\<lparr>suite_Meta := (suite_Meta old)\<lparr>om_ResourceVersion := v\<rparr>, suite_Status := suite_wire st\<rparr>)"
    by (auto simp: accepted_def assms(4))
  have o: "old = cur" using old(1) cur(2) sub(1) by simp
  moreover have "x = cur" using cur(4) assms(3) old(2) unfolding o by simp
  ultimately have same: "old = cur" "x = cur" by simp_all
  let ?new = "cur\<lparr>suite_Meta := (suite_Meta cur)\<lparr>om_ResourceVersion := v\<rparr>, suite_Status := suite_wire st\<rparr>"
  have new: "stored w' key = Some ?new" using put same by simp
  have "last_le cur ?new"
    by (rule recorded_later [OF assms(1) [unfolded same(2)], of _ now]) (use cur(1,3) last [unfolded same(2)] in simp_all)
  then have "unrewound stored issued key (w', insert ?new seen)"
    by (rule unrewound_new [OF inv cur(2) _ new])
      (use cur(1,3) v sub(2) in \<open>auto simp: option.map_comp comp_def\<close>)
  then show ?thesis using new by simp
qed

lemma unrewound_pass:
  assumes "\<forall>x \<in> seen. ticking P x" and inv: "unrewound stored issued key (w, seen)"
    and read: "\<forall>x. fst (k_get_suite K req w) = Inr x \<longrightarrow> suite_Key x = req \<and> (req = key \<longrightarrow> x \<in> seen)"
    and w': "w' = world (snd (CheckSuite_Reconcile K P req \<lparr>world = w, acts = as\<rparr>))"
  shows "unrewound stored issued key (w', seen \<union> set_option (stored w' key))"
proof -
  have still: ?thesis if "stored w' key = stored w key" "issued w \<subseteq> issued w'"
    by (rule unrewoundE [OF inv]) (use unrewound_kept [OF inv that] that(1) in \<open>simp add: insert_absorb\<close>)
  show ?thesis
  proof (cases "untouched stored issued w w'")
    case True
    then show ?thesis using still by (simp add: untouched_def)
  next
    case False
    obtain x now where x: "fst (k_get_suite K req w) = Inr x"
      and "writes P x now (suite_Last x) \<lparr>world = w, acts = as\<rparr> (snd (CheckSuite_Reconcile K P req \<lparr>world = w, acts = as\<rparr>))"
      by (rule pass_writes [of "\<lparr>world = w, acts = as\<rparr>" P req]) (use False w' in simp_all)
    then obtain u st where u: "untouched stored issued w u"
      and acc: "accepted stored issued (x\<lparr>suite_Status := st\<rparr>) u w'"
      and last: "sst_LastScheduleTime st = (case dueTick P x now (suite_Status x) of Some tick \<Rightarrow> Some tick | None \<Rightarrow> suite_Last x)"
      using False w' by (auto simp: writes_def)
    have key: "suite_Key x = req" "req = key \<longrightarrow> x \<in> seen" using read x by simp_all
    show ?thesis
    proof (cases "req = key")
      case True
      with key show ?thesis using assms(1) inv u acc last by (intro unrewound_accepted) simp_all
    next
      case False
      then show ?thesis using still u acc key(1) by (auto simp: accepted_def untouched_def)
    qed
  qed
qed

text \<open>A pass never changes the specification of a suite.\<close>

lemma pass_spec:
  assumes "stored (world (snd (CheckSuite_Reconcile K P req s))) key = Some y"
  shows "\<exists>x. stored (world s) key = Some x \<and> suite_Spec y = suite_Spec x"
proof (cases "kept s (snd (CheckSuite_Reconcile K P req s))")
  case True
  then show ?thesis using assms by (simp add: untouched_def)
next
  case False
  then obtain x now where "writes P x now (suite_Last x) s (snd (CheckSuite_Reconcile K P req s))" by (rule pass_writes)
  with False obtain u st where "untouched stored issued (world s) u"
    "accepted stored issued (x\<lparr>suite_Status := st\<rparr>) u (world (snd (CheckSuite_Reconcile K P req s)))"
    by (auto simp: writes_def)
  then show ?thesis using assms by (auto simp: accepted_def untouched_def split: if_splits)
qed

lemma unrewound_step:
  assumes "suite_step stored issued K P key state state'" and "\<forall>x \<in> snd state. ticking P x" and "unrewound stored issued key state"
  shows "unrewound stored issued key state'"
  using assms(1,3)
proof cases
  case (pass req w seen w' as)
  then have "unrewound stored issued key (w', seen \<union> set_option (stored w' key))"
    using unrewound_pass [OF _ _ pass(3,4)] assms(2,3) by (simp add: pass(1))
  then show ?thesis by (simp only: pass(2))
next
  case (edit w y w' y' seen)
  have "suite_Key y = key" "map_option whole_second (suite_Last y) = suite_Last y"
    using assms(3) edit(1,3) by (auto elim!: unrewoundE)
  with edit assms(3) show ?thesis by (auto intro!: unrewound_new simp: last_le_def)
next
  case (elsewhere w' w seen)
  then show ?thesis using assms(3) by (auto intro: unrewound_kept)
qed

lemma seen_grows: "suite_step stored issued K P key state state' \<Longrightarrow> snd state \<subseteq> snd state'"
  by (erule suite_step.cases) auto

lemma unrewound_history:
  "(suite_step stored issued K P key)\<^sup>*\<^sup>* state state' \<Longrightarrow> \<forall>x \<in> snd state'. ticking P x \<Longrightarrow> unrewound stored issued key state \<Longrightarrow>
   unrewound stored issued key state'"
proof (induction rule: rtranclp_induct)
  case (step y z)
  then have "\<forall>x \<in> snd y. ticking P x" using seen_grows [of P key y z] by blast
  with step show ?case by (blast intro: unrewound_step)
qed

end

section \<open>A server with versions\<close>

text \<open>
  The sample server, its versions the numbers below the counter: an update of the status is refused
  unless it carries the version that is stored, and one that changes nothing keeps that version.
\<close>

definition stored_suite :: "cluster \<Rightarrow> nkey \<Rightarrow> CheckSuite option" where
  "stored_suite w key = (case map_of (cl_suites w) key of None \<Rightarrow> None
     | Some suite \<Rightarrow> if suite_Key suite = key then Some suite else None)"

definition issued_versions :: "cluster \<Rightarrow> string set" where
  "issued_versions w = itoa ` {n. n \<le> cl_uid w}"

definition cl_update_suite :: "CheckSuite \<Rightarrow> cluster \<Rightarrow> api_error option \<times> cluster" where
  "cl_update_suite x w =
     (case stored_suite w (suite_Key x) of
        None \<Rightarrow> (Some NotFound, w)
      | Some old \<Rightarrow>
          if suite_Version old \<noteq> suite_Version x then (Some (ApiError ''Conflict''), w)
          else if suite_wire (suite_Status x) = suite_Status old then (None, w)
          else (None, w\<lparr>cl_uid := cl_uid w + 1, cl_suites := AList.update (suite_Key x)
            (old\<lparr>suite_Meta := (suite_Meta old)\<lparr>om_ResourceVersion := itoa (cl_uid w + 1)\<rparr>,
                 suite_Status := suite_wire (suite_Status x)\<rparr>) (cl_suites w)\<rparr>))"

definition versionKube :: "cluster kube" where
  "versionKube = clusterKube\<lparr>k_get_suite := (\<lambda>k w. (found (stored_suite w k), w)),
     k_update_suite_status := cl_update_suite\<rparr>"

lemma stored_suite_frame [simp]:
  "stored_suite (w\<lparr>cl_uid := u\<rparr>) = stored_suite w" "stored_suite (w\<lparr>cl_runs := rs\<rparr>) = stored_suite w"
  by (simp_all add: stored_suite_def fun_eq_iff)

lemma stored_suite_key: "stored_suite w key = Some suite \<Longrightarrow> suite_Key suite = key"
  by (simp add: stored_suite_def split: option.splits if_splits)

lemma stored_suite_update:
  "stored_suite (w\<lparr>cl_uid := u, cl_suites := AList.update key suite (cl_suites w)\<rparr>) =
     (stored_suite w)(key := if suite_Key suite = key then Some suite else None)"
  by (auto simp: stored_suite_def update_conv' fun_eq_iff)

interpretation versioned: suite_state stored_suite issued_versions versionKube
proof
  fix w :: cluster
  show "untouched stored_suite issued_versions w (snd (k_get_suite versionKube k w))"
    "untouched stored_suite issued_versions w (snd (k_list_runs versionKube ns sel w))"
    "untouched stored_suite issued_versions w (snd (k_get_run versionKube k w))"
    "untouched stored_suite issued_versions w (snd (k_create_run versionKube run w))"
    "untouched stored_suite issued_versions w (snd (k_delete_run versionKube k w))" for k ns sel run
    by (auto simp: versionKube_def clusterKube_def cl_create_run_def Let_def untouched_def stored_suite_def
        issued_versions_def split: prod.split)
  show "untouched stored_suite issued_versions w (snd (k_update_suite_status versionKube x w))
      \<or> accepted stored_suite issued_versions x w (snd (k_update_suite_status versionKube x w))" for x
  proof (cases "\<exists>old. stored_suite w (suite_Key x) = Some old \<and> suite_Version old = suite_Version x
      \<and> suite_wire (suite_Status x) \<noteq> suite_Status old")
    case True
    then obtain old where old: "stored_suite w (suite_Key x) = Some old" "suite_Version old = suite_Version x"
      "suite_wire (suite_Status x) \<noteq> suite_Status old" by blast
    let ?w = "snd (k_update_suite_status versionKube x w)"
    have w: "?w = w\<lparr>cl_uid := cl_uid w + 1, cl_suites := AList.update (suite_Key x)
      (old\<lparr>suite_Meta := (suite_Meta old)\<lparr>om_ResourceVersion := itoa (cl_uid w + 1)\<rparr>,
           suite_Status := suite_wire (suite_Status x)\<rparr>) (cl_suites w)\<rparr>"
      using old by (simp add: versionKube_def cl_update_suite_def)
    have "accepted stored_suite issued_versions x w ?w"
      unfolding accepted_def
      by (rule exI [of _ old], rule exI [of _ "itoa (cl_uid w + 1)"])
        (use old stored_suite_key [OF old(1)] in \<open>auto simp: w issued_versions_def itoa_inj stored_suite_update\<close>)
    then show ?thesis ..
  qed (auto simp: versionKube_def cl_update_suite_def split: option.split)
qed

lemma refPkgs_ticking:
  assumes "ss_Schedule (suite_Spec suite) \<noteq> Some ''0 0 30 2 *''"
  shows "ticking refPkgs suite"
proof -
  have "t < everyNext Minute t" for t by (rule schedule.nxt_after [OF minutely.schedule_axioms])
  moreover have "t < t div Second * Second + Minute" for t
    using div_mult_mod_eq [of t Second] pos_mod_bound [of Second t] by simp
  ultimately show ?thesis using assms by (auto simp: ticking_def refPkgs_def split: if_splits)
qed

end
