(* ===== verification/Suite_History_Properties.thy ===== *)
theory Suite_History_Properties
  imports Suite_History
begin

text \<open>
  The recorded time of the last schedule over whole histories of a CheckSuite, those of \<open>suite_step\<close>:
  passes on the current state of the suite or on any earlier one, passes over other suites, edits, and
  everything that does not touch the suite, until it is deleted.
\<close>

text \<open>C16: the schedule of a suite never rewinds while the schedules it has had go on, that is, while \<open>Next\<close> finds a later
  tick for each (one that never fires does rewind): whatever versions of the suite the passes have read, the stored
  lastScheduleTime is not before any recorded earlier, and a tick that is due lies after all of them, so a
  recorded tick is never due again.\<close>

theorem schedule_never_rewinds:
  assumes "suite_state stored issued K" and "\<forall>x \<in> seen. ticking P x"
    and "stored w key = Some suite" and "suite_Key suite = key" and "suite_Version suite \<in> issued w"
    and "map_option whole_second (suite_Last suite) = suite_Last suite"
    and "(suite_step stored issued K P key)\<^sup>*\<^sup>* (w, {suite}) (w', seen)"
  shows "\<exists>cur. stored w' key = Some cur \<and> (\<forall>x \<in> seen. last_le x cur)
    \<and> (\<forall>now tick. dueTick P cur now (suite_Status cur) = Some tick \<longrightarrow>
         (\<forall>x \<in> seen. \<forall>l. suite_Last x = Some l \<longrightarrow> l < tick))"
proof -
  have "unrewound stored issued key (w, {suite})" using assms(3-6) by (simp add: unrewound_def)
  then have "unrewound stored issued key (w', seen)"
    using suite_state.unrewound_history [OF assms(1,7)] assms(2) by simp
  then obtain cur where cur: "cur \<in> seen" "stored w' key = Some cur" "\<forall>x \<in> seen. last_le x cur" by (rule unrewoundE)
  have "l < tick" if due: "dueTick P cur now (suite_Status cur) = Some tick"
    and x: "x \<in> seen" "suite_Last x = Some l" for now tick x l
  proof -
    obtain l' where "suite_Last cur = Some l'" "l \<le> l'" using cur(3) x by (auto simp: last_le_def)
    then show ?thesis using dueTick_after [OF _ due] assms(2) cur(1) by fastforce
  qed
  with cur show ?thesis by blast
qed

text \<open>Two passes ninety seconds after the suite was made, both on its first version.\<close>

definition staleKube :: "CheckSuite \<Rightarrow> cluster kube" where
  "staleKube suite = versionKube\<lparr>k_get_suite := (\<lambda>k w. (Inr suite, w))\<rparr>"

lemma stale_state: "suite_state stored_suite issued_versions (staleKube suite)"
proof
  fix w :: cluster
  show "untouched stored_suite issued_versions w (snd (k_get_suite (staleKube suite) k w))" for k
    by (simp add: staleKube_def)
  show "untouched stored_suite issued_versions w (snd (k_list_runs (staleKube suite) ns sel w))"
    "untouched stored_suite issued_versions w (snd (k_get_run (staleKube suite) k w))"
    "untouched stored_suite issued_versions w (snd (k_create_run (staleKube suite) run w))"
    "untouched stored_suite issued_versions w (snd (k_delete_run (staleKube suite) k w))"
    "untouched stored_suite issued_versions w (snd (k_update_suite_status (staleKube suite) x w))
      \<or> accepted stored_suite issued_versions x w (snd (k_update_suite_status (staleKube suite) x w))" for ns sel k run x
    using versioned.list_runs [of w ns sel] versioned.get_run [of w k] versioned.create_run [of w run]
      versioned.delete_run [of w k] versioned.update_status [of w x] by (simp_all add: staleKube_def)
qed

abbreviation demoSuite :: CheckSuite where
  "demoSuite \<equiv> sampleSuite AllowConcurrent ''''"

abbreviation stalePass :: "cluster \<Rightarrow> cluster" where
  "stalePass w \<equiv> world (snd (CheckSuite_Reconcile (staleKube demoSuite) refPkgs (''prod'', ''demo'') \<lparr>world = w, acts = []\<rparr>))"

lemma one_version: "itoa 1 = ''1''"
  by code_simp

theorem schedule_never_rewinds_witness:
  "\<exists>cur. stored_suite (stalePass (stalePass (world (sampleCluster (90 * Second) [] demoSuite [])))) (''prod'', ''demo'') = Some cur
     \<and> last_le demoSuite cur"
proof -
  let ?key = "(''prod'', ''demo'')" and ?K = "staleKube demoSuite"
  let ?w = "world (sampleCluster (90 * Second) [] demoSuite [])"
  let ?step = "suite_step stored_suite issued_versions ?K refPkgs ?key"
  have key: "suite_Key demoSuite = ?key" "suite_Version demoSuite = itoa 1" "suite_Last demoSuite = Some 0"
    by (simp_all add: sampleSuite_def newMeta_def meta_key_def one_version)
  have minutely: "ss_Schedule (suite_Spec demoSuite) = Some ''* * * * *''" by (simp add: sampleSuite_def)
  let ?ok = "\<lambda>w seen. demoSuite \<in> seen \<and> (\<forall>x \<in> seen \<union> set_option (stored_suite w ?key). ss_Schedule (suite_Spec x) = Some ''* * * * *'')"
  have step: "\<exists>seen'. ?ok (stalePass w) seen' \<and> ?step (w, seen) (stalePass w, seen')" if ok: "?ok w seen" for w seen
  proof -
    obtain w' where w': "w' = stalePass w" by blast
    have s: "?step (w, seen) (w', seen \<union> set_option (stored_suite w' ?key))"
      using ok key(1) w' by (intro suite_step.pass [of ?K ?key]) (simp_all add: staleKube_def)
    have "ss_Schedule (suite_Spec y) = Some ''* * * * *''" if "stored_suite w' ?key = Some y" for y
    proof -
      from suite_state.pass_spec [OF stale_state that [unfolded w']]
      obtain x where "stored_suite w ?key = Some x" "suite_Spec y = suite_Spec x" unfolding ctx.simps by blast
      with ok show ?thesis by simp
    qed
    then have "?ok w' (seen \<union> set_option (stored_suite w' ?key))"
      using ok by (simp only: Un_iff ball_Un elem_set) blast
    with s show ?thesis unfolding w' [symmetric] by (intro exI conjI) (assumption | (erule conjE, assumption))+
  qed
  have stored: "stored_suite ?w ?key = Some demoSuite" using key(1) by (simp add: stored_suite_def sampleCluster_def)
  then have "?ok ?w {demoSuite}" using minutely by simp
  from step [OF this]
  obtain seen where one: "?ok (stalePass ?w) seen" "?step (?w, {demoSuite}) (stalePass ?w, seen)" by blast
  from step [OF this(1)] obtain seen' where two: "?ok (stalePass (stalePass ?w)) seen'" "?step (stalePass ?w, seen) (stalePass (stalePass ?w), seen')"
    by blast
  have history: "?step\<^sup>*\<^sup>* (?w, {demoSuite}) (stalePass (stalePass ?w), seen')"
    using one(2) two(2) by (rule rtranclp.rtrancl_into_rtrancl [OF r_into_rtranclp])
  have ticking: "\<forall>x \<in> seen'. ticking refPkgs x" using two(1) minutely by (auto intro!: refPkgs_ticking)
  have "suite_Version demoSuite \<in> issued_versions ?w"
    "map_option whole_second (suite_Last demoSuite) = suite_Last demoSuite"
    using key by (auto simp: issued_versions_def sampleCluster_def whole_second_def)
  from schedule_never_rewinds [OF stale_state ticking stored key(1) this history] two(1)
  show ?thesis by blast
qed

end
