(* ===== verification/Manager.thy ===== *)
theory Manager
  imports Lifecycle
begin

text \<open>
  How the manager drives its two controllers. \<open>SetupWithManager\<close> names the kind a controller reconciles
  and the kinds it owns; controller-runtime keeps a queue of requests and a set of timers per
  controller: every change of a watched object enqueues the object itself, or the controlling owner it had
  or has, a request in the queue is reconciled, an error puts it back, and a positive \<open>RequeueAfter\<close> starts a
  timer unless an earlier one is pending. A request that arrives during a pass is kept, so a
  pass and the changes during it can be taken one after the other. Anything may change the world between
  two passes. The locale \<open>watched\<close> is the obligation a reconciler has in such a loop: when a pass leaves its own
  object alone, that object must be settled, or settled until a time at which the controller has asked to
  look again.
\<close>

section \<open>What a controller watches\<close>

record controller_setup =
  cs_Named :: string
  cs_For :: string
  cs_Owns :: "string list"

text \<open>The \<open>SetupWithManager\<close> of the two reconcilers.\<close>

definition CheckRun_SetupWithManager :: controller_setup where
  "CheckRun_SetupWithManager = \<lparr>cs_Named = ''checkrun'', cs_For = ''CheckRun'', cs_Owns = [''Job'']\<rparr>"

definition CheckSuite_SetupWithManager :: controller_setup where
  "CheckSuite_SetupWithManager = \<lparr>cs_Named = ''checksuite'', cs_For = ''CheckSuite'', cs_Owns = [''CheckRun'']\<rparr>"

datatype watched_object = RunObject CheckRun | JobObject Job | SuiteObject CheckSuite

fun object_meta :: "watched_object \<Rightarrow> ObjectMeta" where
  "object_meta (RunObject run) = run_Meta run"
| "object_meta (JobObject job) = job_Meta job"
| "object_meta (SuiteObject suite) = suite_Meta suite"

text \<open>
  The objects of one kind that change, and the controlling owner of an object, if it is of a kind of this API;
  like controller-runtime it compares the group and the kind, not the version.
\<close>

definition changed :: "('k \<Rightarrow> 'o option) \<Rightarrow> ('k \<Rightarrow> 'o option) \<Rightarrow> 'k set" where
  "changed old new = {k. old k \<noteq> new k}"

definition group_of :: "string \<Rightarrow> string" where
  "group_of version = (if CHR ''/'' \<in> set version then takeWhile (\<lambda>c. c \<noteq> CHR ''/'') version else '''')"

definition controlling :: "string \<Rightarrow> ObjectMeta \<Rightarrow> nkey option" where
  "controlling kind m = (case om_Controller m of
     None \<Rightarrow> None
   | Some ow \<Rightarrow> if group_of (ow_APIVersion ow) = group_of SchemeGroupVersion \<and> ow_Kind ow = kind
       then Some (om_Namespace m, ow_Name ow) else None)"

definition owner_of :: "string \<Rightarrow> watched_object option \<Rightarrow> nkey set" where
  "owner_of kind ob = (case ob of None \<Rightarrow> {} | Some x \<Rightarrow> set_option (controlling kind (object_meta x)))"

text \<open>The requests a change from the objects \<open>old\<close> to \<open>new\<close>, by kind and key, puts into the queue of a controller.\<close>

definition requests :: "controller_setup \<Rightarrow> (string \<Rightarrow> nkey \<Rightarrow> watched_object option) \<Rightarrow>
    (string \<Rightarrow> nkey \<Rightarrow> watched_object option) \<Rightarrow> nkey set" where
  "requests setup old new = changed (old (cs_For setup)) (new (cs_For setup))
     \<union> (\<Union>kind \<in> set (cs_Owns setup). \<Union>k \<in> changed (old kind) (new kind).
          owner_of (cs_For setup) (old kind k) \<union> owner_of (cs_For setup) (new kind k))"

lemma requests_self: "old (cs_For setup) k \<noteq> new (cs_For setup) k \<Longrightarrow> k \<in> requests setup old new"
  by (simp add: requests_def changed_def)

lemma requests_owner:
  assumes "kind \<in> set (cs_Owns setup)" and "old kind k \<noteq> new kind k"
    and "old kind k = Some ob \<or> new kind k = Some ob" and "controlling (cs_For setup) (object_meta ob) = Some key"
  shows "key \<in> requests setup old new"
proof -
  have "key \<in> owner_of (cs_For setup) (old kind k) \<union> owner_of (cs_For setup) (new kind k)"
    using assms(3,4) by (auto simp: owner_of_def)
  then show ?thesis using assms(1,2) unfolding requests_def changed_def by blast
qed

section \<open>The work queue\<close>

record 'w manager =
  mg_world :: 'w
  mg_queue :: "nkey set"
  mg_timers :: "nkey \<Rightarrow> time option"

text \<open>\<open>AddAfter\<close>: an item that is already waiting keeps the earlier time.\<close>

definition add_after :: "nkey \<Rightarrow> time \<Rightarrow> (nkey \<Rightarrow> time option) \<Rightarrow> nkey \<Rightarrow> time option" where
  "add_after key t timers = timers(key \<mapsto> (case timers key of None \<Rightarrow> t | Some u \<Rightarrow> min t u))"

text \<open>What controller-runtime does with the result of a pass that ends in world \<open>w\<close> at time \<open>now\<close>.\<close>

definition handle_result :: "nkey \<Rightarrow> time \<Rightarrow> (api_error + duration) \<Rightarrow> 'w manager \<Rightarrow> 'w manager" where
  "handle_result key now res s =
     (case res of
        Inl e \<Rightarrow> s\<lparr>mg_queue := insert key (mg_queue s)\<rparr>
      | Inr d \<Rightarrow> if d > 0 then s\<lparr>mg_timers := add_after key (now + d) (mg_timers s)\<rparr> else s)"

text \<open>
  A step: a pass for a request in the queue, when the world is in order (\<open>orderly\<close>, an assumption
  on clocks and references), a timer that has run out, or any change of the world.
\<close>

inductive manager_step :: "('w \<Rightarrow> time) \<Rightarrow> ('w \<Rightarrow> 'w \<Rightarrow> nkey set) \<Rightarrow> (nkey \<Rightarrow> 'w \<Rightarrow> (api_error + duration) \<times> 'w) \<Rightarrow>
    (nkey \<Rightarrow> 'w \<Rightarrow> 'w \<Rightarrow> bool) \<Rightarrow> 'w manager \<Rightarrow> 'w manager \<Rightarrow> bool"
  for clock events reconcile orderly where
  work: "key \<in> mg_queue s \<Longrightarrow> reconcile key (mg_world s) = (res, w') \<Longrightarrow> orderly key (mg_world s) w' \<Longrightarrow>
    manager_step clock events reconcile orderly s (handle_result key (clock w') res
      (s\<lparr>mg_world := w', mg_queue := (mg_queue s - {key}) \<union> events (mg_world s) w'\<rparr>))"
| fire: "mg_timers s key = Some t \<Longrightarrow> t \<le> clock (mg_world s) \<Longrightarrow>
    manager_step clock events reconcile orderly s
      (s\<lparr>mg_queue := insert key (mg_queue s), mg_timers := (mg_timers s)(key := None)\<rparr>)"
| change: "manager_step clock events reconcile orderly s
      (s\<lparr>mg_world := w', mg_queue := mg_queue s \<union> events (mg_world s) w'\<rparr>)"

text \<open>The manager starts with every stored object in the queue, as its first list reports them all.\<close>

definition started :: "('w \<Rightarrow> nkey \<Rightarrow> 'o option) \<Rightarrow> 'w \<Rightarrow> 'w manager" where
  "started stored w = \<lparr>mg_world = w, mg_queue = dom (stored w), mg_timers = Map.empty\<rparr>"

text \<open>It has caught up when no request is waiting and no timer has run out.\<close>

definition caught_up :: "('w \<Rightarrow> time) \<Rightarrow> 'w manager \<Rightarrow> bool" where
  "caught_up clock s \<longleftrightarrow> mg_queue s = {} \<and> (\<forall>key t. mg_timers s key = Some t \<longrightarrow> clock (mg_world s) < t)"

section \<open>The obligation of a reconciler\<close>

locale watched =
  fixes clock :: "'w \<Rightarrow> time" and events :: "'w \<Rightarrow> 'w \<Rightarrow> nkey set"
    and reconcile :: "nkey \<Rightarrow> 'w \<Rightarrow> (api_error + duration) \<times> 'w" and orderly :: "nkey \<Rightarrow> 'w \<Rightarrow> 'w \<Rightarrow> bool"
    and stored :: "'w \<Rightarrow> nkey \<Rightarrow> 'o option"
    and settled :: "nkey \<Rightarrow> 'w \<Rightarrow> bool" and until :: "nkey \<Rightarrow> 'w \<Rightarrow> time option"
  assumes absent: "stored w key = None \<Longrightarrow> settled key w \<and> until key w = None"
    and stable: "key \<notin> events w w' \<Longrightarrow> settled key w \<Longrightarrow> settled key w' \<and> until key w' = until key w"
    and pass: "reconcile key w = (Inr d, w') \<Longrightarrow> orderly key w w' \<Longrightarrow> key \<notin> events w w' \<Longrightarrow>
      settled key w' \<and> (\<forall>t. until key w' = Some t \<longrightarrow> 0 < d \<and> clock w' + d \<le> t)"
begin

text \<open>Every object is in the queue, or settled with a timer that runs out in time.\<close>

definition attended :: "'w manager \<Rightarrow> nkey \<Rightarrow> bool" where
  "attended s key \<longleftrightarrow> key \<in> mg_queue s \<or> settled key (mg_world s)
     \<and> (\<forall>t. until key (mg_world s) = Some t \<longrightarrow> (\<exists>u \<le> t. mg_timers s key = Some u))"

lemma attended_world:
  assumes "attended s key" and "mg_queue s - {k} \<union> events (mg_world s) w' \<subseteq> mg_queue s'" and "k \<noteq> key"
    and "mg_world s' = w'" and "\<And>u. mg_timers s key = Some u \<Longrightarrow> \<exists>v \<le> u. mg_timers s' key = Some v"
  shows "attended s' key"
proof (cases "key \<in> mg_queue s'")
  case False
  then have "key \<notin> mg_queue s" "key \<notin> events (mg_world s) w'" using assms(2,3) by auto
  then show ?thesis using assms(1,4,5) stable unfolding attended_def by (metis order_trans)
qed (simp add: attended_def)

lemma handle_result_simps [simp]:
  "mg_world (handle_result key now res s) = mg_world s"
  "mg_queue (handle_result key now res s) = (case res of Inl e \<Rightarrow> insert key (mg_queue s) | Inr d \<Rightarrow> mg_queue s)"
  by (auto simp: handle_result_def split: sum.split)

lemma handle_result_timers:
  "mg_timers s k = Some u \<Longrightarrow> \<exists>v \<le> u. mg_timers (handle_result key now res s) k = Some v"
  by (auto simp: handle_result_def add_after_def split: sum.split)

lemma attended_pass:
  assumes "reconcile key (mg_world s) = (res, w')" and "orderly key (mg_world s) w'"
  shows "attended (handle_result key (clock w') res
    (s\<lparr>mg_world := w', mg_queue := mg_queue s - {key} \<union> events (mg_world s) w'\<rparr>)) key"
proof (cases res)
  case (Inr d)
  show ?thesis
  proof (cases "key \<in> events (mg_world s) w'")
    case False
    from pass [OF assms(1) [unfolded Inr] assms(2) False] show ?thesis
      by (auto simp: Inr attended_def handle_result_def add_after_def split: option.split)
  qed (auto simp: attended_def handle_result_def Inr)
qed (simp add: attended_def handle_result_def)

lemma attended_step:
  assumes "manager_step clock events reconcile orderly s s'" and "\<And>key. attended s key"
  shows "attended s' key"
  using assms(1)
proof cases
  case (work k res w')
  show ?thesis
  proof (cases "k = key")
    case True
    then show ?thesis using work attended_pass by simp
  next
    case False
    show ?thesis unfolding work(1)
      by (rule attended_world [where w' = w', OF assms(2) _ False])
        (auto intro!: handle_result_timers split: sum.split)
  qed
next
  case (fire k t)
  then show ?thesis using assms(2) [of key] by (auto simp: attended_def)
next
  case (change w')
  then have "\<And>u. mg_timers s key = Some u \<Longrightarrow> \<exists>v \<le> u. mg_timers s' key = Some v" by auto
  show ?thesis
  proof (cases "key \<in> mg_queue s'")
    case False
    then have "key \<notin> mg_queue s" "key \<notin> events (mg_world s) w'" using change by auto
    then show ?thesis using assms(2) [of key] stable change unfolding attended_def by simp
  qed (simp add: attended_def)
qed

lemma attended_reachable:
  "(manager_step clock events reconcile orderly)\<^sup>*\<^sup>* s s' \<Longrightarrow> (\<And>key. attended s key) \<Longrightarrow> attended s' key"
  by (induction arbitrary: key rule: rtranclp_induct) (auto intro: attended_step)

text \<open>A manager that has caught up leaves only settled objects, and none beyond its time.\<close>

lemma caught_up_settled:
  assumes "(manager_step clock events reconcile orderly)\<^sup>*\<^sup>* (started stored w) s'" and "caught_up clock s'"
  shows "settled key (mg_world s') \<and> (\<forall>t. until key (mg_world s') = Some t \<longrightarrow> clock (mg_world s') < t)"
proof -
  have "attended (started stored w) k" for k
    using absent [of w k] by (cases "stored w k") (auto simp: attended_def started_def)
  with assms(1) have "attended s' key" by (rule attended_reachable)
  then show ?thesis using assms(2) unfolding attended_def caught_up_def by (metis empty_iff less_le_trans)
qed

end

end
