(* ===== verification/Manager_Runs.thy ===== *)
theory Manager_Runs
  imports Manager Status_Server
begin

text \<open>
  The queue of the CheckRun controller. A run is settled when it is terminal, or when it has a start and
  nothing it waits for has happened: no Job of its own has failed, and its Jobs have not all succeeded
  with their results in. The controller then looks again a second after the deadline. The contract
  \<open>run_manager\<close> is about reads only: they are current, and a pass changes no Job that exists. That
  \<open>CheckRun_Reconcile\<close> meets the obligation of \<open>watched\<close> over every such server is \<open>runs_watched\<close>. \<open>run_loop\<close>
  adds that the server answers; over it a second pass changes nothing (\<open>second_pass\<close>), so the writes of a pass, which
  put its own run back into the queue, do not keep the queue busy.
\<close>

section \<open>What the controller sees\<close>

definition run_objects :: "('w \<Rightarrow> nkey \<Rightarrow> CheckRun option) \<Rightarrow> ('w \<Rightarrow> nkey \<Rightarrow> Job option) \<Rightarrow> 'w \<Rightarrow>
    string \<Rightarrow> nkey \<Rightarrow> watched_object option" where
  "run_objects stored jobs w kind =
     (if kind = ''CheckRun'' then map_option RunObject \<circ> stored w
      else if kind = ''Job'' then map_option JobObject \<circ> jobs w else Map.empty)"

definition run_requests :: "('w \<Rightarrow> nkey \<Rightarrow> CheckRun option) \<Rightarrow> ('w \<Rightarrow> nkey \<Rightarrow> Job option) \<Rightarrow> 'w \<Rightarrow> 'w \<Rightarrow> nkey set" where
  "run_requests stored jobs w w' = requests CheckRun_SetupWithManager (run_objects stored jobs w) (run_objects stored jobs w')"

definition run_pass :: "'w kube \<Rightarrow> pkgs \<Rightarrow> CheckRunReconciler \<Rightarrow> nkey \<Rightarrow> 'w \<Rightarrow> (api_error + duration) \<times> 'w" where
  "run_pass K P r key w =
     (case CheckRun_Reconcile K P r key \<lparr>world = w, acts = []\<rparr> of (res, s) \<Rightarrow> (res, world s))"

definition owns_job :: "nkey \<Rightarrow> Job \<Rightarrow> bool" where
  "owns_job key job \<longleftrightarrow> controlling ''CheckRun'' (job_Meta job) = Some key"

text \<open>A Job of the run itself, under the name the controller gives it.\<close>

definition own_job :: "('w \<Rightarrow> nkey \<Rightarrow> Job option) \<Rightarrow> 'w \<Rightarrow> nkey \<Rightarrow> CheckRun \<Rightarrow> RunnerSpec \<Rightarrow> Job \<Rightarrow> bool" where
  "own_job jobs w key run rn job \<longleftrightarrow> jobs w (jobKey run rn) = Some job \<and> owns_job key job"

definition decidable :: "('w \<Rightarrow> nkey \<Rightarrow> Job option) \<Rightarrow> 'w \<Rightarrow> nkey \<Rightarrow> CheckRun \<Rightarrow> bool" where
  "decidable jobs w key run \<longleftrightarrow>
     (\<exists>rn \<in> set (tpl_Runners (run_Template run)). \<exists>job. own_job jobs w key run rn job \<and> jobFailed job)
     \<or> (\<forall>rn \<in> set (tpl_Runners (run_Template run)). \<exists>job. own_job jobs w key run rn job \<and> jobSucceeded job) \<and> reported run"

definition run_settled :: "('w \<Rightarrow> nkey \<Rightarrow> CheckRun option) \<Rightarrow> ('w \<Rightarrow> nkey \<Rightarrow> Job option) \<Rightarrow> nkey \<Rightarrow> 'w \<Rightarrow> bool" where
  "run_settled stored jobs key w \<longleftrightarrow> (\<forall>run. stored w key = Some run \<longrightarrow> isTerminalPhase (run_Phase run)
     \<or> st_StartTime (run_Status run) \<noteq> None \<and> \<not> decidable jobs w key run)"

definition run_until :: "('w \<Rightarrow> nkey \<Rightarrow> CheckRun option) \<Rightarrow> duration \<Rightarrow> nkey \<Rightarrow> 'w \<Rightarrow> time option" where
  "run_until stored slack key w =
     (case stored w key of
        None \<Rightarrow> None
      | Some run \<Rightarrow> if isTerminalPhase (run_Phase run) then None
          else map_option (\<lambda>start. time_add start (runTimeout run) + Second + slack) (st_StartTime (run_Status run)))"

text \<open>
  The clocks: a recorded start is not ahead of the clock of the pass, the timer starts at most
  \<open>slack\<close> after the clock was read, and the timeout, of at most 292 years, is a duration that can be added to.
\<close>

definition run_orderly :: "'w kube \<Rightarrow> ('w \<Rightarrow> nkey \<Rightarrow> CheckRun option) \<Rightarrow> duration \<Rightarrow> nkey \<Rightarrow> 'w \<Rightarrow> 'w \<Rightarrow> bool" where
  "run_orderly K stored slack key w w' \<longleftrightarrow> (let now = k_now K (snd (k_get_run K key w)) in
     k_now K w' \<le> now + slack \<and> (\<forall>run. stored w key = Some run \<longrightarrow> runTimeout run + Second \<le> maxDuration
       \<and> (\<forall>start. st_StartTime (run_Status run) = Some start \<longrightarrow> start \<le> now)))"

lemma run_requests_self:
  assumes "key \<notin> run_requests stored jobs w w'"
  shows "stored w' key = stored w key"
proof -
  have "run_objects stored jobs w ''CheckRun'' key = run_objects stored jobs w' ''CheckRun'' key"
    using assms requests_self [of "run_objects stored jobs w" CheckRun_SetupWithManager key]
    by (auto simp: run_requests_def CheckRun_SetupWithManager_def)
  then show ?thesis by (cases "stored w key"; cases "stored w' key") (simp_all add: run_objects_def)
qed

lemma run_requests_jobs:
  assumes "key \<notin> run_requests stored jobs w w'" and "owns_job key job"
  shows "jobs w k = Some job \<longleftrightarrow> jobs w' k = Some job"
proof (rule ccontr)
  let ?old = "run_objects stored jobs w" and ?new = "run_objects stored jobs w'"
  assume "\<not> (jobs w k = Some job \<longleftrightarrow> jobs w' k = Some job)"
  then have "?old ''Job'' k \<noteq> ?new ''Job'' k" "?old ''Job'' k = Some (JobObject job) \<or> ?new ''Job'' k = Some (JobObject job)"
    by (cases "jobs w k"; cases "jobs w' k"; auto simp: run_objects_def)+
  then have "key \<in> requests CheckRun_SetupWithManager ?old ?new"
    by (intro requests_owner [where kind = "''Job''" and ob = "JobObject job"])
      (use assms(2) in \<open>simp_all add: CheckRun_SetupWithManager_def owns_job_def\<close>)
  then show False using assms(1) by (simp add: run_requests_def)
qed

lemma run_requests_own:
  "key \<notin> run_requests stored jobs w w' \<Longrightarrow> own_job jobs w' key run rn job \<longleftrightarrow> own_job jobs w key run rn job"
  using run_requests_jobs unfolding own_job_def by metis

lemma decidable_stable: "key \<notin> run_requests stored jobs w w' \<Longrightarrow> decidable jobs w' key run \<longleftrightarrow> decidable jobs w key run"
  unfolding decidable_def by (simp only: run_requests_own)

section \<open>A pass that lets the run go on\<close>

locale run_manager = run_state stored K P for stored :: "'w \<Rightarrow> nkey \<Rightarrow> CheckRun option" and K :: "'w kube" and P +
  fixes jobs :: "'w \<Rightarrow> nkey \<Rightarrow> Job option"
  assumes run_absent: "fst (k_get_run K k w) = Inl NotFound \<Longrightarrow> stored w k = None"
    and job_present: "fst (k_get_job K k w) = Inr job \<Longrightarrow> jobs w k = Some job"
    and job_absent: "fst (k_get_job K k w) = Inl NotFound \<Longrightarrow> jobs w k = None"
    and jobs_kept: "jobs w \<subseteq>\<^sub>m jobs (snd (k_get_run K k w))" "jobs w \<subseteq>\<^sub>m jobs (snd (k_get_sa K k w))"
      "jobs w \<subseteq>\<^sub>m jobs (snd (k_get_job K k w))" "jobs w \<subseteq>\<^sub>m jobs (snd (k_create_job K job w))"
    and range_jobs: "ranges (p_range_jobs P)"
begin

lemma perform_kept:
  "perform a f s = (q, t) \<Longrightarrow> (\<And>w. jobs w \<subseteq>\<^sub>m jobs (snd (f w))) \<Longrightarrow> jobs (world s) \<subseteq>\<^sub>m jobs (world t)"
  using perform_world [of a f s] by simp

text \<open>The Jobs a pass collects are those that were there, as they were, and new ones.\<close>

lemma ensureJobs_collects:
  assumes "ensureJobs K P r run timeout rns js s = (Inr js', t)" and "distinct (map fst js)"
  shows "distinct (map fst js') \<and> fst ` set js' = fst ` set js \<union> rn_Name ` set rns
    \<and> (\<forall>n job. jobs (world s) (run_Namespace run, jobName (run_Name run) n) = Some job \<longrightarrow>
         n \<in> rn_Name ` set rns \<or> map_of js n = Some job \<longrightarrow> map_of js' n = Some job)"
  using assms
proof (induction rns arbitrary: js s)
  case (Cons rn rns)
  let ?key = "(run_Namespace run, jobName (run_Name run) (rn_Name rn))"
  obtain g s1 where g: "perform (Req (GetJob ?key)) (k_get_job K ?key) s = (g, s1)" by fastforce
  have kept: "jobs (world s) \<subseteq>\<^sub>m jobs (world s1)" using g jobs_kept(3) by (rule perform_kept)
  have res: "fst (k_get_job K ?key (world s)) = g"
    using perform_result [of "Req (GetJob ?key)" "k_get_job K ?key" s] g by simp
  obtain job1 u where u: "ensureJobs K P r run timeout rns (AList.update (rn_Name rn) job1 js) u = (Inr js', t)"
    and mono: "jobs (world s) \<subseteq>\<^sub>m jobs (world u)" and own: "\<forall>j. jobs (world s) ?key = Some j \<longrightarrow> job1 = j"
  proof (cases g)
    case (Inr job1)
    show thesis
      by (rule that [of job1 s1]) (use Cons.prems g kept res job_present [of ?key "world s" job1] Inr in \<open>auto simp: Let_def\<close>)
  next
    case (Inl e)
    with Cons.prems(1) g have e: "e = NotFound" by (cases e) (simp_all add: Let_def)
    then have none: "jobs (world s) ?key = None" using res Inl job_absent by simp
    from Cons.prems(1) g Inl e obtain d where d: "buildJob P r run rn timeout = Inr d" by (auto simp: Let_def split: sum.splits)
    obtain c s2 where c: "perform (Req (CreateJob d)) (k_create_job K d) s1 = (c, s2)" by fastforce
    have "jobs (world s1) \<subseteq>\<^sub>m jobs (world s2)" using c jobs_kept(4) by (rule perform_kept)
    with kept have m: "jobs (world s) \<subseteq>\<^sub>m jobs (world s2)" by (rule map_le_trans)
    obtain x where "ensureJobs K P r run timeout rns (AList.update (rn_Name rn) x js) s2 = (Inr js', t)"
      using Cons.prems(1) g Inl e d c by (auto simp: Let_def split: sum.splits api_error.splits)
    then show thesis using m none by (intro that) simp_all
  qed
  have names: "fst ` set (AList.update (rn_Name rn) job1 js) = insert (rn_Name rn) (fst ` set js)" by (induction js) auto
  note rec = Cons.IH [OF u distinct_update [OF Cons.prems(2)]]
  have "map_of js' n = Some job"
    if at: "jobs (world s) (run_Namespace run, jobName (run_Name run) n) = Some job"
      and src: "n \<in> rn_Name ` set (rn # rns) \<or> map_of js n = Some job" for n job
  proof -
    have "jobs (world u) (run_Namespace run, jobName (run_Name run) n) = Some job"
      using mono at by (auto simp: map_le_def dom_def)
    moreover have "n \<in> rn_Name ` set rns \<or> map_of (AList.update (rn_Name rn) job1 js) n = Some job"
      using src own at by (auto simp: update_conv')
    ultimately show ?thesis using rec by blast
  qed
  then show ?case using rec names by auto
qed simp

text \<open>A pass after which the run is not terminal has not finished it.\<close>

lemma finish_ends:
  assumes "finish K P run ph now sm c u = (Inr d, t)" and "isTerminalPhase ph"
    and "stored (world u) (meta_key (run_Meta run)) = Some run"
    and "stored (world t) (meta_key (run_Meta run)) = Some run'" and "\<not> isTerminalPhase (run_Phase run')"
  shows False
proof -
  from finish_effect [OF assms(1,3)] have "run' = applied P run (finishStatus run ph now sm c)" using assms(4) by simp
  from arg_cong [OF this, of run_Phase] have "run_Phase run' = ph" by (simp add: finishStatus_def)
  then show False using assms(2,5) by simp
qed

lemma read_current:
  assumes "CheckRun_Reconcile K P r key s = (Inr d, t)" and "stored (world s) key = Some run"
  obtains s1 where "perform (Req (GetRun key)) (k_get_run K key) s = (Inr run, s1)"
    "fst (k_get_run K key (world s)) = Inr run" "meta_key (run_Meta run) = key"
proof -
  obtain g s1 where g: "perform (Req (GetRun key)) (k_get_run K key) s = (g, s1)" by fastforce
  then have res: "fst (k_get_run K key (world s)) = g" using perform_result [of "Req (GetRun key)" "k_get_run K key" s] by simp
  have "g = Inr run"
  proof (cases g)
    case (Inl e)
    then have "e = NotFound" using assms(1) g by (auto simp: CheckRun_Reconcile_def split: api_error.splits)
    then show ?thesis using run_absent [of key "world s"] res Inl assms(2) by simp
  next
    case (Inr x)
    then show ?thesis using get_run [of key "world s" x] res assms(2) by simp
  qed
  then show thesis using that g res get_run [of key "world s" run] by simp
qed

text \<open>It has come to the Jobs.\<close>

lemma running_settles:
  assumes "CheckRun_Reconcile K P r key s = (Inr d, t)" and "stored (world s) key = Some run"
    and "\<not> isTerminalPhase (run_Phase run)" and "stored (world t) key = Some run'" and "\<not> isTerminalPhase (run_Phase run')"
  obtains u now where "ensureAndSettle K P r run now u = (Inr d, t)" "stored (world u) = stored (world s)"
    "jobs (world s) \<subseteq>\<^sub>m jobs (world u)"
proof -
  obtain s1 where g: "perform (Req (GetRun key)) (k_get_run K key) s = (Inr run, s1)" and key: "meta_key (run_Meta run) = key"
    using assms(1,2) by (rule read_current)
  have s1: "stored (world s1) = stored (world s)" "jobs (world s) \<subseteq>\<^sub>m jobs (world s1)"
    using perform_frame [OF g frame(1)] perform_kept [OF g jobs_kept(1)] by simp_all
  let ?sa = "(run_Namespace run, runnerServiceAccount r)"
  obtain q s2 where sa: "perform (Req (GetServiceAccount ?sa)) (k_get_sa K ?sa) s1 = (q, s2)" by fastforce
  have s2: "stored (world s2) = stored (world s)" "jobs (world s) \<subseteq>\<^sub>m jobs (world s2)"
    using perform_frame [OF sa frame(2)] perform_kept [OF sa jobs_kept(2)] s1 map_le_trans by auto
  note eq = assms(1) [unfolded Reconcile_eq [OF g] Let_def sa]
  show thesis
  proof (cases "st_StartTime (run_Status run)")
    case (Some start)
    then show thesis using eq assms(3) that s1 by simp
  next
    case None
    note eq = eq [unfolded None]
    show thesis
    proof (cases q)
      case None
      then show thesis using eq assms(3) that s2 by simp
    next
      case (Some e)
      have "e = NotFound" using eq assms(3) Some by (cases e) simp_all
      then obtain now c reason text1 where
        fin: "finish K P run CheckRunError now None c (warning run reason text1 s2) = (Inr d, t)"
        using eq assms(3) Some by simp
      have at: "stored (world (warning run reason text1 s2)) (meta_key (run_Meta run)) = Some run"
        using s2(1) assms(2) key by (simp add: warning_def)
      have False by (rule finish_ends [OF fin _ at _ assms(5)]) (simp_all add: isTerminalPhase_def key assms(4))
      then show thesis ..
    qed
  qed
qed

text \<open>There it has found the run undecided.\<close>

lemma running_jobs:
  assumes "CheckRun_Reconcile K P r key s = (Inr d, t)" and "stored (world s) key = Some run"
    and "\<not> isTerminalPhase (run_Phase run)" and "stored (world t) key = Some run'" and "\<not> isTerminalPhase (run_Phase run')"
  obtains u js v now x where "stored (world u) = stored (world s)" "jobs (world s) \<subseteq>\<^sub>m jobs (world u)"
    "ensureJobs K P r run (runTimeout run) (tpl_Runners (run_Template run)) [] u = (Inr js, v)"
    "stillRunning K P run now (runTimeout run) x = (Inr d, t)" "world x = world v" "stored (world v) = stored (world s)"
    "\<forall>(n, job) \<in> set js. \<not> jobFailed job" "\<not> ((\<forall>(n, job) \<in> set js. jobSucceeded job) \<and> reported run)"
proof -
  have key: "meta_key (run_Meta run) = key" using assms(1,2) by (rule read_current)
  obtain u now where "ensureAndSettle K P r run now u = (Inr d, t)" and u: "stored (world u) = stored (world s)"
    "jobs (world s) \<subseteq>\<^sub>m jobs (world u)" using assms by (rule running_settles)
  then obtain js v where e: "ensureJobs K P r run (runTimeout run) (tpl_Runners (run_Template run)) [] u = (Inr js, v)"
    and rj: "reconcileJobs K P run now (runTimeout run) js v = (Inr d, t)"
    by (auto simp: ensureAndSettle_def split: prod.splits sum.splits)
  have v: "stored (world v) = stored (world s)"
    using ensureJobs_frame [of P r run "runTimeout run" "tpl_Runners (run_Template run)" "[]" u] e u(1) by simp
  have range: "set (p_range_jobs P js) = set js" using range_jobs by (rule ranges_set)
  show thesis
  proof (cases rule: reconcileJobs_form [of K P run now "runTimeout run" js v])
    case (finish x ph sm c)
    have False by (rule finish_ends [OF rj [unfolded finish(1)] finish(4) _ _ assms(5)]) (simp_all add: finish(2) v key assms(2,4))
    then show thesis ..
  next
    case (running x)
    show thesis
      by (rule that [OF u e rj [unfolded running(1)] running(2) v])
        (use running(4,5) range in \<open>auto simp: find_None_iff list_all_iff\<close>)
  qed
qed

lemma running_pass:
  assumes "CheckRun_Reconcile K P r key s = (Inr d, t)" and "stored (world s) key = Some run"
    and "stored (world t) key = Some run" and "\<not> isTerminalPhase (run_Phase run)"
  shows "\<not> decidable jobs (world s) key run"
proof -
  let ?rns = "tpl_Runners (run_Template run)"
  obtain u js v where u: "jobs (world s) \<subseteq>\<^sub>m jobs (world u)"
    and e: "ensureJobs K P r run (runTimeout run) ?rns [] u = (Inr js, v)"
    and undecided: "\<forall>(n, job) \<in> set js. \<not> jobFailed job" "\<not> ((\<forall>(n, job) \<in> set js. jobSucceeded job) \<and> reported run)"
    using assms(1,2,4,3,4) by (rule running_jobs)
  have js: "distinct (map fst js)" "fst ` set js = rn_Name ` set ?rns" "\<forall>n job. jobs (world u)
      (run_Namespace run, jobName (run_Name run) n) = Some job \<longrightarrow> n \<in> rn_Name ` set ?rns \<longrightarrow> map_of js n = Some job"
    using ensureJobs_collects [OF e] by simp_all
  have found: "(rn_Name rn, job) \<in> set js" if "rn \<in> set ?rns" "own_job jobs (world s) key run rn job" for rn job
  proof -
    have "jobs (world u) (run_Namespace run, jobName (run_Name run) (rn_Name rn)) = Some job"
      using that(2) u by (auto simp: own_job_def jobKey_def map_le_def dom_def)
    then have "map_of js (rn_Name rn) = Some job" using js(3) that(1) by simp
    then show ?thesis by (rule map_of_SomeD)
  qed
  have "\<forall>(n, job) \<in> set js. jobSucceeded job"
    if all: "\<forall>rn \<in> set ?rns. \<exists>job. own_job jobs (world s) key run rn job \<and> jobSucceeded job"
  proof clarify
    fix n job assume *: "(n, job) \<in> set js"
    then have "n \<in> rn_Name ` set ?rns" unfolding js(2) [symmetric] by (rule image_eqI [rotated]) simp
    then obtain rn where rn: "rn \<in> set ?rns" "rn_Name rn = n" by blast
    then obtain job' where job': "own_job jobs (world s) key run rn job'" "jobSucceeded job'" using all by blast
    have "(n, job') \<in> set js" using found [OF rn(1) job'(1)] rn(2) by simp
    then have "job' = job" using eq_key_imp_eq_value [OF js(1)] * by blast
    then show "jobSucceeded job" using job'(2) by simp
  qed
  then show ?thesis using found undecided unfolding decidable_def by blast
qed

text \<open>The bound on its \<open>RequeueAfter\<close>.\<close>

lemma running_requeue:
  assumes "CheckRun_Reconcile K P r key s = (Inr d, t)" and "stored (world s) key = Some run"
    and "stored (world t) key = Some run" and "\<not> isTerminalPhase (run_Phase run)"
    and "run_orderly K stored slack key (world s) (world t)"
  obtains start where "st_StartTime (run_Status run) = Some start" "0 < d"
    "k_now K (world t) + d \<le> time_add start (runTimeout run) + Second + slack"
proof -
  let ?now = "k_now K (snd (k_get_run K key (world s)))"
  obtain s1 where got: "fst (k_get_run K key (world s)) = Inr run" and key: "meta_key (run_Meta run) = key"
    using assms(1,2) by (rule read_current)
  from Reconcile_outcome [OF got assms(4), of r] obtain cs where
    st: "stored (world t) = (stored (world s))(key \<mapsto> applied P run cs)"
    and cs: "\<not> isTerminalPhase (cs_phase cs) \<longrightarrow> cs = runningStatus run ?now \<and> \<not> overdue run ?now (runTimeout run)
       \<and> d = dur_add (time_sub (time_add (deref (st_StartTime (run_Status run)) ?now) (runTimeout run)) ?now) Second"
    unfolding pass_outcome_def assms(1) key by auto
  have same: "run = applied P run cs" using st assms(3) by simp
  from arg_cong [OF this, of run_Phase] have "run_Phase run = cs_phase cs" by simp
  then have "\<not> isTerminalPhase (cs_phase cs)" using assms(4) by simp
  with cs have run: "cs = runningStatus run ?now" "\<not> overdue run ?now (runTimeout run)"
    "d = dur_add (time_sub (time_add (deref (st_StartTime (run_Status run)) ?now) (runTimeout run)) ?now) Second" by auto
  have "st_StartTime (run_Status run) = map_option whole_second (cs_startTime cs)"
    using arg_cong [OF same, of "\<lambda>x. st_StartTime (run_Status x)"] by simp
  then have "st_StartTime (run_Status run) \<noteq> None" unfolding run(1) runningStatus_def by auto
  then obtain start where start: "st_StartTime (run_Status run) = Some start" by blast
  have bounds: "runTimeout run + Second \<le> maxDuration" "start \<le> ?now" "k_now K (world t) \<le> ?now + slack"
    using assms(2,5) start by (auto simp: run_orderly_def Let_def)
  have ahead: "?now \<le> time_add start (runTimeout run)" using run(2) start by (simp add: overdue_def)
  have "d = time_add start (runTimeout run) - ?now + Second"
    using requeue_exact [OF _ ahead] bounds(1,2) run(3) start by (simp add: time_add_def)
  then show thesis using start ahead bounds(3) by (intro that [of start]) simp_all
qed

text \<open>The controller attends to every run.\<close>

lemma runs_watched:
  "watched (k_now K) (run_requests stored jobs) (run_pass K P r) (run_orderly K stored slack) stored
     (run_settled stored jobs) (run_until stored slack)"
proof
  show "run_settled stored jobs key w \<and> run_until stored slack key w = None" if "stored w key = None" for key w
    using that by (simp add: run_settled_def run_until_def)
  show "run_settled stored jobs key w' \<and> run_until stored slack key w' = run_until stored slack key w"
    if e: "key \<notin> run_requests stored jobs w w'" and "run_settled stored jobs key w" for key w w'
    using that(2) unfolding run_settled_def run_until_def run_requests_self [OF e] decidable_stable [OF e] by simp
  fix key w d w'
  assume p: "run_pass K P r key w = (Inr d, w')" and orderly: "run_orderly K stored slack key w w'"
    and e: "key \<notin> run_requests stored jobs w w'"
  note same = run_requests_self [OF e]
  obtain t where t: "CheckRun_Reconcile K P r key \<lparr>world = w, acts = []\<rparr> = (Inr d, t)" "world t = w'"
    using p by (auto simp: run_pass_def split: prod.splits)
  show "run_settled stored jobs key w' \<and> (\<forall>t. run_until stored slack key w' = Some t \<longrightarrow> 0 < d \<and> k_now K w' + d \<le> t)"
  proof (cases "\<exists>run. stored w key = Some run \<and> \<not> isTerminalPhase (run_Phase run)")
    case False
    then show ?thesis using same by (auto simp: run_settled_def run_until_def split: option.split)
  next
    case True
    then obtain run where run: "stored w key = Some run" "\<not> isTerminalPhase (run_Phase run)" by blast
    have st: "stored (world \<lparr>world = w, acts = []\<rparr>) key = Some run" "stored (world t) key = Some run"
      using run(1) same t(2) by simp_all
    have "\<not> decidable jobs w key run" using running_pass [OF t(1) st run(2)] by simp
    moreover obtain start where "st_StartTime (run_Status run) = Some start" "0 < d"
        "k_now K (world t) + d \<le> time_add start (runTimeout run) + Second + slack"
      using orderly t(2) by (auto intro: running_requeue [OF t(1) st run(2)])
    ultimately show ?thesis using same run t(2) by (simp add: run_settled_def run_until_def decidable_stable [OF e])
  qed
qed

lemma caught_up_run:
  assumes "(manager_step (k_now K) (run_requests stored jobs) (run_pass K P r) (run_orderly K stored slack))\<^sup>*\<^sup>*
      (started stored w) s"
    and "caught_up (k_now K) s" and "stored (mg_world s) key = Some run" and "\<not> isTerminalPhase (run_Phase run)"
  obtains start where "st_StartTime (run_Status run) = Some start"
    "k_now K (mg_world s) < time_add start (runTimeout run) + Second + slack" "\<not> decidable jobs (mg_world s) key run"
proof -
  have "run_settled stored jobs key (mg_world s) \<and> (\<forall>t. run_until stored slack key (mg_world s) = Some t \<longrightarrow> k_now K (mg_world s) < t)"
    using runs_watched assms(1,2) by (rule watched.caught_up_settled)
  then show thesis using assms(3,4) that by (auto simp: run_settled_def run_until_def)
qed

end

section \<open>No pass triggers another without end\<close>

text \<open>A server that answers, and on which only the creation of a Job changes the Jobs.\<close>

locale run_loop = run_manager stored K P jobs + server: run_server jobs K P
    for stored :: "'w \<Rightarrow> nkey \<Rightarrow> CheckRun option" and K :: "'w kube" and P and jobs :: "'w \<Rightarrow> nkey \<Rightarrow> Job option" +
  assumes jobs_frame: "jobs (snd (k_get_run K k w)) = jobs w" "jobs (snd (k_apply_status K doc owner w)) = jobs w"
begin

lemma ensureJobs_read:
  assumes "ensureJobs K P r run timeout rns js s = (Inr js', t)" and "\<forall>rn \<in> set rns. jobs (world s) (jobKey run rn) \<noteq> None"
  shows "jobs (world t) = jobs (world s)"
proof
  fix k
  from server.ensure_store [of r run timeout rns js s] assms(1) have
    "\<forall>k j. jobs (world s) k = Some j \<longrightarrow> jobs (world t) k = Some j"
    "\<forall>k. k \<notin> jobKey run ` set rns \<longrightarrow> jobs (world t) k = jobs (world s) k" by auto
  then show "jobs (world t) k = jobs (world s) k" using assms(2) by (cases "k \<in> jobKey run ` set rns") fastforce+
qed

lemma ensureJobs_set:
  assumes "ensureJobs K P r run timeout rns [] s = (Inr js, t)"
  shows "set js = {(n, job). n \<in> rn_Name ` set rns \<and> jobs (world t) (run_Namespace run, jobName (run_Name run) n) = Some job}"
proof -
  have js: "\<forall>(n, j) \<in> set js. jobs (world t) (run_Namespace run, jobName (run_Name run) n) = Some j"
    "fst ` set js = rn_Name ` set rns" using server.ensure_jobs [OF assms] by simp_all
  show ?thesis
  proof (intro set_eqI iffI)
    fix x assume "x \<in> set js"
    then show "x \<in> {(n, job). n \<in> rn_Name ` set rns
        \<and> jobs (world t) (run_Namespace run, jobName (run_Name run) n) = Some job}"
      using js(1) imageI [of x "set js" fst] unfolding js(2) by auto
  next
    fix x assume "x \<in> {(n, job). n \<in> rn_Name ` set rns
        \<and> jobs (world t) (run_Namespace run, jobName (run_Name run) n) = Some job}"
    then obtain n job where x: "x = (n, job)" "n \<in> fst ` set js"
      "jobs (world t) (run_Namespace run, jobName (run_Name run) n) = Some job" using js(2) by auto
    then obtain job' where "(n, job') \<in> set js" by auto
    moreover from this have "job' = job" using js(1) x(3) by auto
    ultimately show "x \<in> set js" using x(1) by simp
  qed
qed

lemma stillRunning_jobs: "jobs (world (snd (stillRunning K P run now timeout s))) = jobs (world s)"
proof -
  have "jobs w' = jobs w" if "k_apply_status K doc owner w = (q, w')" for doc owner w q w'
    using jobs_frame(2) [of doc owner w] that by simp
  then show ?thesis
    by (auto simp: stillRunning_def applyStatus_def Let_def perform_def split: prod.splits sum.splits option.splits)
qed

text \<open>A run that goes on reads back as the status the next pass writes.\<close>

lemma running_again: "applied P (applied P run (runningStatus run now)) (runningStatus (applied P run (runningStatus run now)) later) =
    applied P run (runningStatus run now)"
  by (simp add: applied_def runningStatus_def newStatus_def wire_def)

lemma reported_applied: "reported (applied P run cs) = reported run"
  by (simp add: reported_def podsByRunner_def)

text \<open>The pass after one that has left the run running, before the deadline.\<close>

lemma undecided_again:
  assumes first: "CheckRun_Reconcile K P r key s = (Inr d, t)" and run: "stored (world s) key = Some run"
      "\<not> isTerminalPhase (run_Phase run)"
    and run': "stored (world t) key = Some run'" "\<not> isTerminalPhase (run_Phase run')"
    and g: "perform (Req (GetRun key)) (k_get_run K key) t' = (Inr run', t1)" and same: "world t' = world t"
    and ahead: "\<not> overdue run' (k_now K (world t1)) (runTimeout run')"
  shows "stored (world (snd (CheckRun_Reconcile K P r key t'))) = stored (world t)
    \<and> jobs (world (snd (CheckRun_Reconcile K P r key t'))) = jobs (world t)"
proof -
  let ?now = "k_now K (world t1)" and ?rns = "tpl_Runners (run_Template run)"
  obtain u js v now x where u: "stored (world u) = stored (world s)"
    and e: "ensureJobs K P r run (runTimeout run) ?rns [] u = (Inr js, v)"
    and still: "stillRunning K P run now (runTimeout run) x = (Inr d, t)" "world x = world v" "stored (world v) = stored (world s)"
    and undecided: "\<forall>(n, job) \<in> set js. \<not> jobFailed job" "\<not> ((\<forall>(n, job) \<in> set js. jobSucceeded job) \<and> reported run)"
    using first run run' by (rule running_jobs)
  have key: "meta_key (run_Meta run) = key" using first run(1) by (rule read_current)
  have "stored (world t) = (stored (world x))(key \<mapsto> applied P run (runningStatus run now))"
    using stillRunning_effect [OF still(1)] still(2,3) run(1) key by auto
  then have r': "run' = applied P run (runningStatus run now)" using run'(1) by simp
  have names: "run_Namespace run' = run_Namespace run" "run_Name run' = run_Name run" "run_Template run' = run_Template run"
    "st_StartTime (run_Status run') \<noteq> None" "meta_key (run_Meta run') = key"
    using key by (simp_all add: r' runningStatus_def)
  have jt: "jobs (world t) = jobs (world v)" using stillRunning_jobs [of run now "runTimeout run" x] still by simp
  have t1: "stored (world t1) = stored (world t)" "jobs (world t1) = jobs (world t)"
    using perform_frame [OF g frame(1)] perform_world [of "Req (GetRun key)" "k_get_run K key" t'] g same jobs_frame(1) by simp_all
  obtain js' v' where e': "ensureJobs K P r run' (runTimeout run') ?rns [] t1 = (Inr js', v')"
    using server.ensure_store by blast
  have there: "\<forall>rn \<in> set ?rns. jobs (world t1) (jobKey run' rn) \<noteq> None"
    using server.ensure_store [of r run "runTimeout run" ?rns "[]" u] e names t1(2) jt by (auto simp: jobKey_def)
  have v': "jobs (world v') = jobs (world t)" "stored (world v') = stored (world t)"
    using ensureJobs_read [OF e' there] ensureJobs_frame [of P r run' "runTimeout run'" ?rns "[]" t1] e' t1 by simp_all
  have same_jobs: "set js' = set js" unfolding ensureJobs_set [OF e] ensureJobs_set [OF e'] using v'(1) jt names by simp
  have eq: "CheckRun_Reconcile K P r key t' = reconcileJobs K P run' ?now (runTimeout run') js' v'"
    using names(3,4) run'(2) e' by (auto simp: Reconcile_eq [OF g] Let_def ensureAndSettle_def)
  have range: "set (p_range_jobs P js') = set js'" using range_jobs by (rule ranges_set)
  show ?thesis
  proof (cases rule: reconcileJobs_form [of K P run' ?now "runTimeout run'" js' v'])
    case (finish y ph sm c)
    then show ?thesis using ahead undecided range same_jobs reported_applied [of run "runningStatus run now"]
      by (auto simp: find_None_iff list_all_iff r')
  next
    case (running y)
    have "stored (world y) (meta_key (run_Meta run')) = Some run'" using running(2) v'(2) run'(1) names(5) by simp
    from stillRunning_effect [OF surjective_pairing this, of ?now "runTimeout run'"]
    have "stored (world (snd (stillRunning K P run' ?now (runTimeout run') y))) = stored (world y)"
      using running_again [of run now ?now] running(2) v'(2) run'(1) names(5) by (auto simp: r' fun_upd_idem)
    then show ?thesis using stillRunning_jobs [of run' ?now "runTimeout run'" y] running v' eq by simp
  qed
qed

text \<open>A pass that finds no run to decide only reads.\<close>

lemma idle_pass:
  assumes "\<And>run. fst (k_get_run K key (world s)) = Inr run \<Longrightarrow> isTerminalPhase (run_Phase run)"
  shows "stored (world (snd (CheckRun_Reconcile K P r key s))) = stored (world s)
    \<and> jobs (world (snd (CheckRun_Reconcile K P r key s))) = jobs (world s)"
proof -
  obtain g s1 where g: "perform (Req (GetRun key)) (k_get_run K key) s = (g, s1)" by fastforce
  then have res: "fst (k_get_run K key (world s)) = g" and w: "world s1 = snd (k_get_run K key (world s))"
    using perform_result [of "Req (GetRun key)" "k_get_run K key" s] perform_world [of "Req (GetRun key)" "k_get_run K key" s]
    by simp_all
  have "snd (CheckRun_Reconcile K P r key s) = s1"
    using g assms res by (cases g) (auto simp: CheckRun_Reconcile_def split: api_error.split)
  then show ?thesis using w frame(1) jobs_frame(1) by simp
qed

lemma second_pass:
  assumes first: "run_pass K P r key w = (Inr d, w')" and second: "run_pass K P r key w' = (res, w'')"
    and ahead: "\<And>run. stored w' key = Some run \<Longrightarrow> \<not> isTerminalPhase (run_Phase run) \<Longrightarrow>
      \<not> overdue run (k_now K (snd (k_get_run K key w'))) (runTimeout run)"
  shows "stored w'' = stored w' \<and> jobs w'' = jobs w'"
proof -
  let ?s = "\<lparr>world = w, acts = []\<rparr>" and ?t' = "\<lparr>world = w', acts = []\<rparr>"
  obtain t where t: "CheckRun_Reconcile K P r key ?s = (Inr d, t)" "world t = w'"
    using first by (auto simp: run_pass_def split: prod.splits)
  have out: "world (snd (CheckRun_Reconcile K P r key ?t')) = w''" using second by (simp add: run_pass_def split: prod.splits)
  show ?thesis
  proof (cases "\<exists>run'. fst (k_get_run K key w') = Inr run' \<and> \<not> isTerminalPhase (run_Phase run')")
    case False
    then show ?thesis using idle_pass [of key ?t' r] out by auto
  next
    case True
    then obtain run' where run': "fst (k_get_run K key w') = Inr run'" "\<not> isTerminalPhase (run_Phase run')" by blast
    then have st: "stored w' key = Some run'" using get_run by simp
    have "\<exists>run. fst (k_get_run K key w) = Inr run \<and> \<not> isTerminalPhase (run_Phase run)"
    proof (rule ccontr)
      assume none: "\<not> ?thesis"
      then have "stored w' = stored w" using idle_pass [of key ?s r] t by auto
      moreover from t(1) this st obtain s1 where "fst (k_get_run K key w) = Inr run'"
        by (auto elim: read_current [where s = ?s and r = r and key = key])
      ultimately show False using none run'(2) by blast
    qed
    then obtain run where run: "fst (k_get_run K key w) = Inr run" "\<not> isTerminalPhase (run_Phase run)" by blast
    then have "stored (world ?s) key = Some run" using get_run by simp
    moreover obtain t1 where g: "perform (Req (GetRun key)) (k_get_run K key) ?t' = (Inr run', t1)"
      using perform_result [of "Req (GetRun key)" "k_get_run K key" ?t'] run'(1) by (metis ctx.select_convs(1) prod.collapse)
    moreover have "world t1 = snd (k_get_run K key w')"
      using perform_world [of "Req (GetRun key)" "k_get_run K key" ?t'] g by simp
    ultimately show ?thesis
      using undecided_again [OF t(1) _ run(2) _ run'(2) g] st t(2) ahead [OF st run'(2)] out by simp
  qed
qed

end

section \<open>The sample server\<close>

lemma look_job_frame [simp]:
  "look_job (w\<lparr>cl_uid := u\<rparr>) = look_job w" "look_job (w\<lparr>cl_runs := rs\<rparr>) = look_job w" "look_job (w\<lparr>cl_now := t\<rparr>) = look_job w"
  by (simp_all add: look_job_def fun_eq_iff)

interpretation managed: run_manager stored_run mergeKube mergePkgs look_job
proof
  fix w :: cluster
  show "fst (k_get_run mergeKube k w) = Inl NotFound \<Longrightarrow> stored_run w k = None" for k
    by (simp add: mergeKube_def found_def split: option.splits)
  show "fst (k_get_job mergeKube k w) = Inr job \<Longrightarrow> look_job w k = Some job"
    "fst (k_get_job mergeKube k w) = Inl NotFound \<Longrightarrow> look_job w k = None" for k job
    by (simp_all add: mergeKube_def clusterKube_def found_def split: option.splits)
  show "look_job w \<subseteq>\<^sub>m look_job (snd (k_get_run mergeKube k w))" "look_job w \<subseteq>\<^sub>m look_job (snd (k_get_sa mergeKube k w))"
    "look_job w \<subseteq>\<^sub>m look_job (snd (k_get_job mergeKube k w))" for k
    by (simp_all add: mergeKube_def clusterKube_def)
  show "look_job w \<subseteq>\<^sub>m look_job (snd (k_create_job mergeKube job w))" for job
    by (auto simp: mergeKube_def clusterKube_def cl_create_job_def Let_def look_job_def map_le_def)
  show "ranges (p_range_jobs mergePkgs)" by simp
qed

lemma look_job_merge: "look_job (snd (merge_status doc owner w)) = look_job w"
  by (cases "(doc, owner, w)" rule: merge_status.cases) (auto simp: merge_into_def split: option.split)

interpretation loops: run_loop stored_run mergeKube mergePkgs look_job
  by unfold_locales (simp_all add: mergeKube_def look_job_merge)

interpretation run_queue: watched "k_now mergeKube" "run_requests stored_run look_job"
  "run_pass mergeKube mergePkgs r" "run_orderly mergeKube stored_run slack" stored_run
  "run_settled stored_run look_job" "run_until stored_run slack" for r slack
  by (rule managed.runs_watched)

end
