(* ===== verification/Manager_Suites.thy ===== *)
theory Manager_Suites
  imports Manager Suite_History
begin

text \<open>
  The queue of the CheckSuite controller. A suite is settled when its status is that of the present
  generation, its run-now annotation has been handled, its list of active runs is exact and its history
  is within the limits, the latter two as long as its schedule goes on; the controller then looks again at the
  next tick of the schedule. The contract
  \<open>suite_manager\<close> adds to \<open>suite_state\<close> that reads are current, that an accepted update is stored and that a
  delete which is answered deletes. That \<open>CheckSuite_Reconcile\<close> meets the obligation of \<open>watched\<close> is
  \<open>suites_watched\<close>.
\<close>

section \<open>What the controller sees\<close>

definition suite_objects :: "('w \<Rightarrow> nkey \<Rightarrow> CheckSuite option) \<Rightarrow> ('w \<Rightarrow> nkey \<Rightarrow> CheckRun option) \<Rightarrow> 'w \<Rightarrow>
    string \<Rightarrow> nkey \<Rightarrow> watched_object option" where
  "suite_objects stored runs w kind =
     (if kind = ''CheckSuite'' then map_option SuiteObject \<circ> stored w
      else if kind = ''CheckRun'' then map_option RunObject \<circ> runs w else Map.empty)"

definition suite_requests :: "('w \<Rightarrow> nkey \<Rightarrow> CheckSuite option) \<Rightarrow> ('w \<Rightarrow> nkey \<Rightarrow> CheckRun option) \<Rightarrow> 'w \<Rightarrow> 'w \<Rightarrow> nkey set" where
  "suite_requests stored runs w w' =
     requests CheckSuite_SetupWithManager (suite_objects stored runs w) (suite_objects stored runs w')"

definition suite_pass :: "'w kube \<Rightarrow> pkgs \<Rightarrow> nkey \<Rightarrow> 'w \<Rightarrow> (api_error + duration) \<times> 'w" where
  "suite_pass K P key w =
     (case CheckSuite_Reconcile K P key \<lparr>world = w, acts = []\<rparr> of (res, s) \<Rightarrow> (res, world s))"

definition names_suite :: "nkey \<Rightarrow> CheckRun \<Rightarrow> bool" where
  "names_suite key run \<longleftrightarrow> controlling ''CheckSuite'' (run_Meta run) = Some key"

text \<open>The runs of a suite: in its namespace, with its label, controlled by it.\<close>

definition listed :: "CheckSuite \<Rightarrow> CheckRun \<Rightarrow> bool" where
  "listed suite run \<longleftrightarrow> run_Namespace run = suite_Namespace suite
     \<and> om_Labels (run_Meta run) (fst (listSelector suite)) = Some (snd (listSelector suite))"

definition own_runs :: "('w \<Rightarrow> nkey \<Rightarrow> CheckRun option) \<Rightarrow> pkgs \<Rightarrow> nkey \<Rightarrow> CheckSuite \<Rightarrow> 'w \<Rightarrow> CheckRun set" where
  "own_runs runs P key suite w =
     {run. (\<exists>k. runs w k = Some run) \<and> listed suite run \<and> p_controlled_by P run suite \<and> names_suite key run}"

definition exact_status :: "CheckRun set \<Rightarrow> CheckSuite \<Rightarrow> bool" where
  "exact_status own suite \<longleftrightarrow> sst_ObservedGeneration (suite_Status suite) = om_Generation (suite_Meta suite)
     \<and> set (sst_Active (suite_Status suite)) = runRef ` {run \<in> own. isActive run}
     \<and> length (sst_Active (suite_Status suite)) = card {run \<in> own. isActive run}"

definition within_limits :: "CheckRun set \<Rightarrow> CheckSuite \<Rightarrow> bool" where
  "within_limits own suite \<longleftrightarrow> (let limits = historyLimits (ss_HistoryLimit (suite_Spec suite)) in
     int (card {run \<in> own. run_Phase run = CheckRunSucceeded}) \<le> max 0 (fst limits)
     \<and> int (card {run \<in> own. run_Phase run = CheckRunFailed \<or> run_Phase run = CheckRunError}) \<le> max 0 (snd limits))"

definition suite_settled :: "('w \<Rightarrow> nkey \<Rightarrow> CheckSuite option) \<Rightarrow> ('w \<Rightarrow> nkey \<Rightarrow> CheckRun option) \<Rightarrow> pkgs \<Rightarrow> nkey \<Rightarrow> 'w \<Rightarrow> bool" where
  "suite_settled stored runs P key w \<longleftrightarrow> (\<forall>suite. stored w key = Some suite \<longrightarrow> \<not> triggered suite
     \<and> (ticking P suite \<longrightarrow> exact_status (own_runs runs P key suite w) suite \<and> within_limits (own_runs runs P key suite w) suite))"

text \<open>The tick after the one recorded last, if the suite has a schedule in force.\<close>

definition nextTick :: "pkgs \<Rightarrow> CheckSuite \<Rightarrow> time option" where
  "nextTick P suite =
     (case (if deref (ss_Suspend (suite_Spec suite)) False then None else ss_Schedule (suite_Spec suite)) of
        None \<Rightarrow> None
      | Some text \<Rightarrow>
          (case p_parse_cron P text of
             Inl _ \<Rightarrow> None
           | Inr nxt \<Rightarrow> Some (nxt (deref (suite_Last suite) (om_CreationTimestamp (suite_Meta suite))))))"

definition suite_until :: "('w \<Rightarrow> nkey \<Rightarrow> CheckSuite option) \<Rightarrow> pkgs \<Rightarrow> duration \<Rightarrow> nkey \<Rightarrow> 'w \<Rightarrow> time option" where
  "suite_until stored P slack key w =
     (case stored w key of
        None \<Rightarrow> None | Some suite \<Rightarrow> if ticking P suite then map_option (\<lambda>t. t + slack) (nextTick P suite) else None)"

text \<open>
  What a pass relies on: the timer starts at most \<open>slack\<close> after the clock was read, the next tick is less than
  292 years away, and a run that the suite controls by its UID names it in its reference.
\<close>

definition suite_orderly :: "'w kube \<Rightarrow> pkgs \<Rightarrow> ('w \<Rightarrow> nkey \<Rightarrow> CheckSuite option) \<Rightarrow> ('w \<Rightarrow> nkey \<Rightarrow> CheckRun option) \<Rightarrow>
    duration \<Rightarrow> nkey \<Rightarrow> 'w \<Rightarrow> 'w \<Rightarrow> bool" where
  "suite_orderly K P stored runs slack key w w' \<longleftrightarrow> (let now = k_now K (snd (k_get_suite K key w)) in
     k_now K w' \<le> now + slack
     \<and> (\<forall>suite. stored w key = Some suite \<longrightarrow> (\<forall>t. nextTick P suite = Some t \<longrightarrow> t - now \<le> maxDuration)
          \<and> (\<forall>k run. runs w k = Some run \<longrightarrow> p_controlled_by P run suite \<longrightarrow> names_suite key run)))"

lemma suite_requests_self:
  assumes "key \<notin> suite_requests stored runs w w'"
  shows "stored w' key = stored w key"
proof -
  have "suite_objects stored runs w ''CheckSuite'' key = suite_objects stored runs w' ''CheckSuite'' key"
    using assms requests_self [of "suite_objects stored runs w" CheckSuite_SetupWithManager key]
    by (auto simp: suite_requests_def CheckSuite_SetupWithManager_def)
  then show ?thesis by (cases "stored w key"; cases "stored w' key") (simp_all add: suite_objects_def)
qed

lemma suite_requests_runs:
  assumes "key \<notin> suite_requests stored runs w w'" and "names_suite key run"
  shows "runs w k = Some run \<longleftrightarrow> runs w' k = Some run"
proof (rule ccontr)
  let ?old = "suite_objects stored runs w" and ?new = "suite_objects stored runs w'"
  assume "\<not> (runs w k = Some run \<longleftrightarrow> runs w' k = Some run)"
  then have "?old ''CheckRun'' k \<noteq> ?new ''CheckRun'' k" "?old ''CheckRun'' k = Some (RunObject run) \<or> ?new ''CheckRun'' k = Some (RunObject run)"
    by (cases "runs w k"; cases "runs w' k"; auto simp: suite_objects_def)+
  then have "key \<in> requests CheckSuite_SetupWithManager ?old ?new"
    by (intro requests_owner [where kind = "''CheckRun''" and ob = "RunObject run"])
      (use assms(2) in \<open>simp_all add: CheckSuite_SetupWithManager_def names_suite_def\<close>)
  then show False using assms(1) by (simp add: suite_requests_def)
qed

lemma own_runs_stable: "key \<notin> suite_requests stored runs w w' \<Longrightarrow> own_runs runs P key suite w' = own_runs runs P key suite w"
  unfolding own_runs_def using suite_requests_runs by (metis (lifting))

section \<open>What a pass has found that changes nothing\<close>

text \<open>The status a pass writes at its end, and where nothing is created.\<close>

lemma handleSchedule_final:
  assumes "handleSchedule K P suite active now status s = (Inr d, t)"
  obtains st w where "fst (k_update_suite_status K (suite\<lparr>suite_Status := st\<rparr>) w) = None"
    "world t = snd (k_update_suite_status K (suite\<lparr>suite_Status := st\<rparr>) w)"
    "sst_LastScheduleTime st = (case dueTick P suite now status of Some tick \<Rightarrow> Some tick | None \<Rightarrow> sst_LastScheduleTime status)"
    "sst_LastManualTrigger st = sst_LastManualTrigger status" "d = requeueDelay P suite now status"
    "dueTick P suite now status = None \<longrightarrow> w = world s \<and> sst_Active st = sst_Active status
       \<and> sst_ObservedGeneration st = sst_ObservedGeneration status"
proof -
  obtain status1 s1 d1 where w: "world s1 = world s" and st1: "sst_LastScheduleTime status1 = sst_LastScheduleTime status"
      "sst_LastManualTrigger status1 = sst_LastManualTrigger status" "sst_Active status1 = sst_Active status"
      "sst_ObservedGeneration status1 = sst_ObservedGeneration status" "d1 = requeueDelay P suite now status"
    and form: "handleSchedule K P suite active now status s =
      (case (case dueTick P suite now status of None \<Rightarrow> (Inr status1, s1)
         | Some tick \<Rightarrow> fireTick K P suite active now tick status1 s1) of
         (Inl e, s2) \<Rightarrow> (Inl e, s2)
       | (Inr status2, s2) \<Rightarrow> done_with (updateStatus K suite status2 s2) d1)"
    by (rule handleSchedule_form [of s suite status P now K active])
  then obtain st s2 where o: "(case dueTick P suite now status of None \<Rightarrow> (Inr status1, s1)
      | Some tick \<Rightarrow> fireTick K P suite active now tick status1 s1) = (Inr st, s2)"
    and upd: "done_with (updateStatus K suite st s2) d1 = (Inr d, t)"
    using assms by (auto split: prod.splits sum.splits)
  let ?x = "suite\<lparr>suite_Status := st\<rparr>"
  have "world t = snd (k_update_suite_status K ?x (world s2))" "d = d1"
    using upd perform_world [of "Req (UpdateSuiteStatus ?x)" "k_update_suite_status K ?x" s2]
    by (auto simp: done_with_def updateStatus_def Let_def split: prod.splits option.splits)
  moreover have "sst_LastScheduleTime st = (case dueTick P suite now status of Some tick \<Rightarrow> Some tick | None \<Rightarrow> sst_LastScheduleTime status)"
    "sst_LastManualTrigger st = sst_LastManualTrigger status"
    using o st1 fireTick_status by (fastforce split: option.splits)+
  moreover have "dueTick P suite now status = None \<longrightarrow> world s2 = world s \<and> sst_Active st = sst_Active status
      \<and> sst_ObservedGeneration st = sst_ObservedGeneration status"
    using o st1 w by auto
  ultimately show thesis using done_with_accepted [OF upd] st1(5) by (intro that [of st "world s2"]) simp_all
qed

text \<open>A due tick that is a whole second is never the one recorded.\<close>

definition whole_ticks :: "pkgs \<Rightarrow> bool" where
  "whole_ticks P \<longleftrightarrow> (\<forall>cron nxt t. p_parse_cron P cron = Inr nxt \<longrightarrow> whole_second (nxt t) = nxt t)"

lemma dueTick_whole:
  assumes "whole_ticks P" and "dueTick P suite now status = Some tick"
  shows "whole_second tick = tick"
proof -
  obtain cron nxt e where p: "p_parse_cron P cron = Inr nxt" and m: "fst (mostRecentScheduleTime nxt e now) = Some tick"
    using assms(2) unfolding dueTick_def by (auto split: option.splits sum.splits if_splits)
  have "fst (scanTicks nxt now lm n (nxt u)) = Some tick \<Longrightarrow> (\<forall>l. lm = Some l \<longrightarrow> whole_second l = l) \<Longrightarrow> whole_second tick = tick"
    for lm n u
  proof (induction "Suc maxMissedScans - n" arbitrary: lm n u rule: less_induct)
    case less
    have whole: "whole_second (nxt u) = nxt u" using assms(1) p by (simp add: whole_ticks_def)
    show ?case
    proof (cases "\<not> after (nxt u) now \<and> Suc n \<le> maxMissedScans")
      case True
      then have "fst (scanTicks nxt now (Some (nxt u)) (Suc n) (nxt (nxt u))) = Some tick"
        using less.prems(1) by (simp add: scanTicks.simps [of nxt now lm])
      then show ?thesis using less.hyps [of "Suc n" "Some (nxt u)" "nxt u"] True whole by auto
    next
      case False
      then show ?thesis using less.prems whole
        by (auto simp: scanTicks.simps [of nxt now lm] split: if_splits)
    qed
  qed
  from this [of None 0 e] show ?thesis using m by (simp add: mostRecentScheduleTime_def)
qed

lemma recorded_not_due:
  assumes "ticking P suite" and "whole_ticks P" and "sst_LastScheduleTime status = map_option whole_second
    (case dueTick P suite now status of Some tick \<Rightarrow> Some tick | None \<Rightarrow> prev)"
  shows "dueTick P suite now status = None"
proof (rule ccontr)
  assume "dueTick P suite now status \<noteq> None"
  then obtain tick where due: "dueTick P suite now status = Some tick" by blast
  then have "sst_LastScheduleTime status = Some tick" using assms(3) dueTick_whole [OF assms(2) due] by simp
  then show False using dueTick_after [OF assms(1) due] by simp
qed

text \<open>Before the next tick, none is due.\<close>

lemma dueTick_before:
  assumes "\<And>t. nextTick P suite = Some t \<Longrightarrow> now < t"
  shows "dueTick P suite now (suite_Status suite) = None"
proof (cases "if deref (ss_Suspend (suite_Spec suite)) False then None else ss_Schedule (suite_Spec suite)")
  case None
  then show ?thesis by (simp add: dueTick_def)
next
  case (Some cron)
  show ?thesis
  proof (cases "p_parse_cron P cron")
    case (Inl e)
    then show ?thesis unfolding dueTick_def Some by simp
  next
    case (Inr nxt)
    have "nextTick P suite = Some (nxt (deref (suite_Last suite) (om_CreationTimestamp (suite_Meta suite))))"
      unfolding nextTick_def Some by (simp add: Inr)
    from assms [OF this] show ?thesis unfolding dueTick_def Some
      by (simp add: Inr mostRecentScheduleTime_def scanTicks.simps after_def)
  qed
qed

text \<open>Then the delay reaches the next tick.\<close>

lemma requeue_next:
  assumes "dueTick P suite now (suite_Status suite) = None" and "nextTick P suite = Some t" and "t - now \<le> maxDuration"
  shows "requeueDelay P suite now (suite_Status suite) = t - now \<and> now < t"
proof -
  let ?e = "deref (suite_Last suite) (om_CreationTimestamp (suite_Meta suite))"
  obtain cron nxt where s: "(if deref (ss_Suspend (suite_Spec suite)) False then None else ss_Schedule (suite_Spec suite)) = Some cron"
    "p_parse_cron P cron = Inr nxt" "t = nxt ?e"
    using assms(2) by (auto simp: nextTick_def split: option.splits sum.splits)
  have none: "fst (scanTicks nxt now None 0 (nxt ?e)) = None"
    using assms(1) s(2) unfolding dueTick_def s(1) by (simp add: mostRecentScheduleTime_def)
  have some: "fst (scanTicks nxt now (Some l) n u) \<noteq> None" for l n u
  proof (induction "Suc maxMissedScans - n" arbitrary: l n u rule: less_induct)
    case less
    show ?case using less [of "Suc n" u "nxt u"] by (auto simp: scanTicks.simps [of nxt now "Some l"] Let_def)
  qed
  have ahead: "now < nxt ?e"
  proof (rule ccontr)
    assume "\<not> now < nxt ?e"
    then show False using none some by (simp add: scanTicks.simps [of nxt now None] after_def maxMissedScans_def)
  qed
  then have "scanTicks nxt now None 0 (nxt ?e) = (None, nxt ?e, False)" by (simp add: scanTicks.simps after_def)
  then have "requeueDelay P suite now (suite_Status suite) = time_sub (nxt ?e) now"
    unfolding requeueDelay_def s(1) by (simp add: s(2) mostRecentScheduleTime_def)
  then show ?thesis using ahead s(3) assms(3) by (simp add: time_sub_def)
qed

text \<open>The parts of a pass that succeeds.\<close>

abbreviation succeededRuns :: "pkgs \<Rightarrow> CheckSuite \<Rightarrow> CheckRun list \<Rightarrow> CheckRun list" where
  "succeededRuns P suite items \<equiv> filter (\<lambda>run. run_Phase run = CheckRunSucceeded) (suiteRuns P suite items)"

abbreviation failedRuns :: "pkgs \<Rightarrow> CheckSuite \<Rightarrow> CheckRun list \<Rightarrow> CheckRun list" where
  "failedRuns P suite items \<equiv>
     filter (\<lambda>run. run_Phase run = CheckRunFailed \<or> run_Phase run = CheckRunError) (suiteRuns P suite items)"

lemma suitePass_parts:
  assumes "suitePass K P suite now items s = (Inr d, t)"
  obtains s1 s2 s3 status where
    "gcRuns K P (succeededRuns P suite items) (fst (historyLimits (ss_HistoryLimit (suite_Spec suite)))) s = (None, s1)"
    "gcRuns K P (failedRuns P suite items) (snd (historyLimits (ss_HistoryLimit (suite_Spec suite)))) s1 = (None, s2)"
    "manualTrigger K P suite (startStatus P suite items) s2 = (Inr status, s3)"
    "handleSchedule K P suite (activeRuns P suite items) now status s3 = (Inr d, t)"
  using assms by (auto simp: suitePass_def Let_def split: prod.splits option.splits sum.splits)

lemma manualTrigger_handles:
  "manualTrigger K P suite (startStatus P suite items) s = (Inr status, t) \<Longrightarrow>
     sst_LastScheduleTime status = suite_Last suite
     \<and> sst_LastManualTrigger status = (if triggered suite then runNow suite else sst_LastManualTrigger (suite_Status suite))
     \<and> (\<not> triggered suite \<longrightarrow> status = startStatus P suite items \<and> t = s)"
  by (auto simp: manualTrigger_eq split: prod.splits sum.splits if_splits)

locale suite_manager = suite_state stored issued K
    for stored :: "'w \<Rightarrow> nkey \<Rightarrow> CheckSuite option" and issued and K :: "'w kube" +
  fixes P :: pkgs and runs :: "'w \<Rightarrow> nkey \<Rightarrow> CheckRun option"
  assumes suite_present: "fst (k_get_suite K k w) = Inr suite \<Longrightarrow> stored w k = Some suite \<and> suite_Key suite = k"
    and suite_absent: "fst (k_get_suite K k w) = Inl NotFound \<Longrightarrow> stored w k = None"
    and list_present: "fst (k_list_runs K ns (label, v) w) = Inr items \<Longrightarrow> distinct items
      \<and> set items = {run. (\<exists>k. runs w k = Some run) \<and> run_Namespace run = ns \<and> om_Labels (run_Meta run) label = Some v}"
    and runs_key: "runs w k = Some run \<Longrightarrow> runKey run = k"
    and runs_read: "runs (snd (k_get_suite K k w)) = runs w" "runs (snd (k_list_runs K ns sel w)) = runs w"
      "runs (snd (k_update_suite_status K x w)) = runs w"
    and delete_done: "fst (k_delete_run K k w) \<in> {None, Some NotFound} \<Longrightarrow> runs (snd (k_delete_run K k w)) = (runs w)(k := None)"
    and update_done: "fst (k_update_suite_status K x w) = None \<Longrightarrow>
      \<exists>cur. stored (snd (k_update_suite_status K x w)) (suite_Key x) = Some cur \<and> suite_Status cur = suite_wire (suite_Status x)"
    and sorter: "run_sorter (p_sort_runs P)"
    and ticks: "whole_ticks P"
begin

lemma deleteRuns_deletes:
  "deleteRuns K rs s = (None, t) \<Longrightarrow> runs (world t) = (\<lambda>k. if k \<in> runKey ` set rs then None else runs (world s) k)"
proof (induction rs arbitrary: s)
  case (Cons run rs)
  obtain q s1 where p: "perform (Req (DeleteRun (runKey run))) (k_delete_run K (runKey run)) s = (q, s1)" by fastforce
  with Cons.prems have q: "q \<in> {None, Some NotFound}" and rec: "deleteRuns K rs s1 = (None, t)"
    by (auto simp: runKey_def Let_def split: option.splits api_error.splits)
  have "runs (world s1) = (runs (world s))(runKey run := None)"
    using delete_done [of "runKey run" "world s"] q perform_result [of "Req (DeleteRun (runKey run))" "k_delete_run K (runKey run)" s]
      perform_world [of "Req (DeleteRun (runKey run))" "k_delete_run K (runKey run)" s] p by simp
  then show ?case unfolding Cons.IH [OF rec] by (intro ext) simp
qed auto

lemma gcRuns_deletes:
  assumes "gcRuns K P rs limit s = (None, t)" and "\<forall>run \<in> set rs. runs (world t) (runKey run) \<noteq> None"
  shows "int (length rs) \<le> max 0 limit" and "runs (world t) = runs (world s)"
proof -
  have no: "gcExcess P rs limit = []" if "limit < int (length rs)"
  proof (rule ccontr)
    assume "gcExcess P rs limit \<noteq> []"
    then obtain run where run: "run \<in> set (gcExcess P rs limit)" by (cases "gcExcess P rs limit") auto
    then have "run \<in> set rs" using run_sorter.sortr_set [OF sorter, of rs] by (auto simp: gcExcess_def dest: in_set_takeD)
    moreover have "deleteRuns K (gcExcess P rs limit) s = (None, t)" using assms(1) that by (simp add: gcRuns_def)
    ultimately show False using assms(2) run deleteRuns_deletes by (metis (mono_tags, lifting) imageI)
  qed
  show "int (length rs) \<le> max 0 limit"
    using no run_sorter.sortr_length [OF sorter, of rs] by (fastforce simp: gcExcess_def)
  show "runs (world t) = runs (world s)"
    using assms(1) no deleteRuns_deletes [of "[]" s t] by (auto simp: gcRuns_def split: if_splits)
qed

lemma gcRuns_shrinks:
  "gcRuns K P rs limit s = (None, t) \<Longrightarrow> runs (world t) k \<noteq> None \<Longrightarrow> runs (world s) k \<noteq> None"
  by (auto simp: gcRuns_def deleteRuns_deletes split: if_splits)

text \<open>A pass that leaves the suite and its runs as they were has found it settled.\<close>

lemma suitePass_quiet:
  assumes "suitePass K P suite now items s = (Inr d, t)" and "stored (world t) (suite_Key suite) = Some suite"
    and "\<forall>run \<in> set (suiteRuns P suite items). runs (world t) (runKey run) \<noteq> None"
  defines "limits \<equiv> historyLimits (ss_HistoryLimit (suite_Spec suite))"
  shows "\<not> triggered suite" and "ticking P suite \<Longrightarrow> dueTick P suite now (suite_Status suite) = None
    \<and> d = requeueDelay P suite now (suite_Status suite)
    \<and> sst_ObservedGeneration (suite_Status suite) = om_Generation (suite_Meta suite)
    \<and> sst_Active (suite_Status suite) = activeRefs (activeRuns P suite items)
    \<and> int (length (succeededRuns P suite items)) \<le> max 0 (fst limits)
    \<and> int (length (failedRuns P suite items)) \<le> max 0 (snd limits)"
proof -
  obtain s1 s2 s3 status where g: "gcRuns K P (succeededRuns P suite items) (fst limits) s = (None, s1)"
      "gcRuns K P (failedRuns P suite items) (snd limits) s1 = (None, s2)"
    and m: "manualTrigger K P suite (startStatus P suite items) s2 = (Inr status, s3)"
    and h: "handleSchedule K P suite (activeRuns P suite items) now status s3 = (Inr d, t)"
    unfolding limits_def by (rule suitePass_parts [OF assms(1)])
  note man = manualTrigger_handles [OF m]
  have due: "dueTick P suite now status = dueTick P suite now (suite_Status suite)"
    "requeueDelay P suite now status = requeueDelay P suite now (suite_Status suite)"
    using man by (simp_all only: dueTick_def requeueDelay_def)
  obtain st w where upd: "fst (k_update_suite_status K (suite\<lparr>suite_Status := st\<rparr>) w) = None"
      "world t = snd (k_update_suite_status K (suite\<lparr>suite_Status := st\<rparr>) w)"
    and last: "sst_LastScheduleTime st = (case dueTick P suite now status of Some tick \<Rightarrow> Some tick | None \<Rightarrow> sst_LastScheduleTime status)"
    and trig: "sst_LastManualTrigger st = sst_LastManualTrigger status" and d: "d = requeueDelay P suite now status"
    and quiet: "dueTick P suite now status = None \<longrightarrow> w = world s3 \<and> sst_Active st = sst_Active status
       \<and> sst_ObservedGeneration st = sst_ObservedGeneration status"
    by (rule handleSchedule_final [OF h])
  have "suite_Status suite = suite_wire st"
    using update_done [OF upd(1)] assms(2) upd(2) by simp
  then have st: "suite_Last suite = map_option whole_second (sst_LastScheduleTime st)"
    "sst_LastManualTrigger (suite_Status suite) = sst_LastManualTrigger st" "sst_Active (suite_Status suite) = sst_Active st"
    "sst_ObservedGeneration (suite_Status suite) = sst_ObservedGeneration st" by (simp_all add: suite_wire_def)
  show t: "\<not> triggered suite" using st(2) trig man by (auto simp: triggered_def split: if_splits)
  assume ticking: "ticking P suite"
  have n: "dueTick P suite now (suite_Status suite) = None"
    by (rule recorded_not_due [OF ticking ticks, where prev = "sst_LastScheduleTime status"]) (use st(1) last due in simp)
  have w: "runs (world t) = runs (world s2)" using quiet due n man t upd(2) runs_read(3) by simp
  have kept: "runs (world s2) (runKey run) \<noteq> None" if "run \<in> set (suiteRuns P suite items)" for run
    using assms(3) that w by simp
  then have "int (length (failedRuns P suite items)) \<le> max 0 (snd limits)" using gcRuns_deletes(1) [OF g(2)] by simp
  moreover have "int (length (succeededRuns P suite items)) \<le> max 0 (fst limits)"
    using gcRuns_deletes(1) [OF g(1)] kept gcRuns_shrinks [OF g(2)] by simp
  ultimately show "dueTick P suite now (suite_Status suite) = None
    \<and> d = requeueDelay P suite now (suite_Status suite)
    \<and> sst_ObservedGeneration (suite_Status suite) = om_Generation (suite_Meta suite)
    \<and> sst_Active (suite_Status suite) = activeRefs (activeRuns P suite items)
    \<and> int (length (succeededRuns P suite items)) \<le> max 0 (fst limits)
    \<and> int (length (failedRuns P suite items)) \<le> max 0 (snd limits)"
    using t n d st(3,4) quiet man due by (simp add: startStatus_def)
qed

lemma read_suite:
  assumes "CheckSuite_Reconcile K P key s = (Inr d, t)" and "stored (world s) key = Some suite"
  obtains items s2 where "CheckSuite_Reconcile K P key s =
      suitePass K P suite (k_now K (snd (k_get_suite K key (world s)))) items s2"
    "suite_Key suite = key" "runs (world s2) = runs (world s)" "distinct items"
    "set items = {run. (\<exists>k. runs (world s) k = Some run) \<and> listed suite run}"
proof -
  let ?sel = "listSelector suite" and ?ns = "suite_Namespace suite"
  obtain g s1 where g: "perform (Req (GetSuite key)) (k_get_suite K key) s = (g, s1)" by fastforce
  then have res: "fst (k_get_suite K key (world s)) = g" and w1: "world s1 = snd (k_get_suite K key (world s))"
    using perform_result [of "Req (GetSuite key)" "k_get_suite K key" s]
      perform_world [of "Req (GetSuite key)" "k_get_suite K key" s] by simp_all
  have got: "g = Inr suite"
  proof (cases g)
    case (Inl e)
    then have "e = NotFound" using assms(1) g by (auto simp: CheckSuite_Reconcile_def split: api_error.splits)
    then show ?thesis using suite_absent [of key "world s"] res Inl assms(2) by simp
  next
    case (Inr x)
    then show ?thesis using suite_present [of key "world s" x] res assms(2) by simp
  qed
  obtain l s2 where l: "perform (Req (ListRuns ?ns ?sel)) (k_list_runs K ?ns ?sel) s1 = (l, s2)" by fastforce
  then have lres: "fst (k_list_runs K ?ns ?sel (world s1)) = l" and w2: "world s2 = snd (k_list_runs K ?ns ?sel (world s1))"
    using perform_result [of "Req (ListRuns ?ns ?sel)" "k_list_runs K ?ns ?sel" s1]
      perform_world [of "Req (ListRuns ?ns ?sel)" "k_list_runs K ?ns ?sel" s1] by simp_all
  obtain items where items: "l = Inr items"
    using assms(1) g l unfolding got by (cases l) (auto simp: CheckSuite_Reconcile_def listSelector_def Let_def)
  have r1: "runs (world s1) = runs (world s)" using w1 runs_read(1) by simp
  have present: "distinct items \<and> set items = {run. (\<exists>k. runs (world s1) k = Some run) \<and> run_Namespace run = ?ns
      \<and> om_Labels (run_Meta run) (fst ?sel) = Some (snd ?sel)}"
    using lres items by (intro list_present) simp
  show thesis
  proof (rule that)
    show "CheckSuite_Reconcile K P key s = suitePass K P suite (k_now K (snd (k_get_suite K key (world s)))) items s2"
      using Suite_Reconcile_eq [OF g [unfolded got] l [unfolded items]] w1 by simp
    show "suite_Key suite = key" using suite_present [of key "world s" suite] res got by simp
    show "runs (world s2) = runs (world s)" using w2 runs_read(2) r1 by simp
  qed (use present r1 in \<open>simp_all add: listed_def\<close>)
qed

lemma own_card:
  assumes "distinct items" and "set (suiteRuns P suite items) = own"
  shows "length (filter Q (suiteRuns P suite items)) = card {run \<in> own. Q run}"
proof -
  have "distinct (filter Q (suiteRuns P suite items))" using assms(1) by (simp add: suiteRuns_def)
  from distinct_card [OF this] show ?thesis using assms(2) by simp
qed

text \<open>A pass after which the suite is not in the queue again.\<close>

lemma quiet_pass:
  assumes "suite_pass K P key w = (Inr d, w')" and "key \<notin> suite_requests stored runs w w'"
    and "stored w key = Some suite" and named: "\<And>k run. runs w k = Some run \<Longrightarrow> p_controlled_by P run suite \<Longrightarrow> names_suite key run"
  defines "now \<equiv> k_now K (snd (k_get_suite K key w))" and "own \<equiv> own_runs runs P key suite w"
  shows "\<not> triggered suite \<and> (ticking P suite \<longrightarrow> dueTick P suite now (suite_Status suite) = None
    \<and> d = requeueDelay P suite now (suite_Status suite) \<and> exact_status own suite \<and> within_limits own suite)"
proof -
  let ?limits = "historyLimits (ss_HistoryLimit (suite_Spec suite))"
  obtain t where t: "CheckSuite_Reconcile K P key \<lparr>world = w, acts = []\<rparr> = (Inr d, t)" "world t = w'"
    using assms(1) by (auto simp: suite_pass_def split: prod.splits)
  have "stored (world \<lparr>world = w, acts = []\<rparr>) key = Some suite" using assms(3) by simp
  from t(1) this obtain items s2 where pass: "suitePass K P suite now items s2 = (Inr d, t)" and key: "suite_Key suite = key"
    and items: "distinct items" "set items = {run. (\<exists>k. runs w k = Some run) \<and> listed suite run}"
    by (rule read_suite) (use t(1) in \<open>auto simp: now_def\<close>)
  have mine: "set (suiteRuns P suite items) = own"
    using items(2) named by (auto simp: suiteRuns_def own_runs_def own_def)
  have "runs (world t) (runKey run) \<noteq> None" if run: "run \<in> set (suiteRuns P suite items)" for run
  proof -
    obtain k where k: "runs w k = Some run" using run items(2) by (auto simp: suiteRuns_def)
    have "runs w' k = Some run"
      using suite_requests_runs [OF assms(2) named [OF k]] k run by (simp add: suiteRuns_def)
    then show ?thesis using runs_key [of w' k run] t(2) by simp
  qed
  then have quiet: "\<not> triggered suite" "ticking P suite \<Longrightarrow> dueTick P suite now (suite_Status suite) = None
    \<and> d = requeueDelay P suite now (suite_Status suite)
    \<and> sst_ObservedGeneration (suite_Status suite) = om_Generation (suite_Meta suite)
    \<and> sst_Active (suite_Status suite) = activeRefs (activeRuns P suite items)
    \<and> int (length (succeededRuns P suite items)) \<le> max 0 (fst ?limits)
    \<and> int (length (failedRuns P suite items)) \<le> max 0 (snd ?limits)"
    using suitePass_quiet [OF pass] suite_requests_self [OF assms(2)] assms(3) t(2) key by simp_all
  note card = own_card [OF items(1) mine]
  show ?thesis
  proof (intro conjI impI)
    assume "ticking P suite"
    note q = quiet(2) [OF this]
    show "dueTick P suite now (suite_Status suite) = None" "d = requeueDelay P suite now (suite_Status suite)"
      using q by simp_all
    show "exact_status own suite"
      using q card [of isActive] mine by (auto simp: exact_status_def activeRefs_def activeRuns_def)
    show "within_limits own suite" using q card by (simp add: within_limits_def Let_def)
  qed (rule quiet(1))
qed

lemma suites_watched:
  "watched (k_now K) (suite_requests stored runs) (suite_pass K P) (suite_orderly K P stored runs slack) stored
     (suite_settled stored runs P) (suite_until stored P slack)"
proof
  show "suite_settled stored runs P key w \<and> suite_until stored P slack key w = None" if "stored w key = None" for key w
    using that by (simp add: suite_settled_def suite_until_def)
  show "suite_settled stored runs P key w' \<and> suite_until stored P slack key w' = suite_until stored P slack key w"
    if e: "key \<notin> suite_requests stored runs w w'" and "suite_settled stored runs P key w" for key w w'
    using that(2) unfolding suite_settled_def suite_until_def suite_requests_self [OF e] own_runs_stable [OF e] by simp
  fix key w d w'
  assume p: "suite_pass K P key w = (Inr d, w')" and orderly: "suite_orderly K P stored runs slack key w w'"
    and e: "key \<notin> suite_requests stored runs w w'"
  let ?now = "k_now K (snd (k_get_suite K key w))"
  show "suite_settled stored runs P key w' \<and> (\<forall>t. suite_until stored P slack key w' = Some t \<longrightarrow> 0 < d \<and> k_now K w' + d \<le> t)"
  proof (cases "stored w key")
    case None
    then show ?thesis using suite_requests_self [OF e] by (simp add: suite_settled_def suite_until_def)
  next
    case (Some suite)
    have named: "names_suite key run" if "runs w k = Some run" "p_controlled_by P run suite" for k run
      using orderly Some that by (cases k) (auto simp: suite_orderly_def Let_def)
    note q = quiet_pass [OF p e Some named, simplified]
    have "0 < d \<and> k_now K w' + d \<le> u + slack" if u: "ticking P suite" "nextTick P suite = Some u" for u
    proof -
      have "u - ?now \<le> maxDuration" "k_now K w' \<le> ?now + slack"
        using orderly Some u(2) by (auto simp: suite_orderly_def Let_def)
      then show ?thesis using requeue_next [OF _ u(2), of ?now] q u(1) by simp
    qed
    then show ?thesis using q suite_requests_self [OF e] Some
      by (auto simp: suite_settled_def suite_until_def own_runs_stable [OF e] split: if_splits)
  qed
qed

lemma caught_up_suite:
  assumes "(manager_step (k_now K) (suite_requests stored runs) (suite_pass K P) (suite_orderly K P stored runs slack))\<^sup>*\<^sup>*
      (started stored w) s"
    and "caught_up (k_now K) s" and "stored (mg_world s) key = Some suite"
  shows "\<not> triggered suite \<and> (ticking P suite \<longrightarrow> dueTick P suite (k_now K (mg_world s) - slack) (suite_Status suite) = None
    \<and> exact_status (own_runs runs P key suite (mg_world s)) suite
    \<and> within_limits (own_runs runs P key suite (mg_world s)) suite)"
proof -
  have settled: "suite_settled stored runs P key (mg_world s)
      \<and> (\<forall>t. suite_until stored P slack key (mg_world s) = Some t \<longrightarrow> k_now K (mg_world s) < t)"
    using suites_watched assms(1,2) by (rule watched.caught_up_settled)
  then have "dueTick P suite (k_now K (mg_world s) - slack) (suite_Status suite) = None" if "ticking P suite"
    using assms(3) that by (intro dueTick_before) (auto simp: suite_until_def)
  with settled show ?thesis using assms(3) by (simp add: suite_settled_def)
qed

end

section \<open>The sample server\<close>

text \<open>The versioned server, with a list that has every stored run once.\<close>

definition tidy_runs :: "cluster \<Rightarrow> CheckRun list" where
  "tidy_runs w = map snd (filter (\<lambda>(k, run). runKey run = k) (AList.clearjunk (cl_runs w)))"

definition suiteKube :: "cluster kube" where
  "suiteKube = versionKube\<lparr>k_list_runs := (\<lambda>ns (label, v) w.
     (Inr (filter (\<lambda>run. run_Namespace run = ns \<and> om_Labels (run_Meta run) label = Some v) (tidy_runs w)), w))\<rparr>"

lemma map_of_without: "map_of (filter (\<lambda>(k', _). k' \<noteq> k) xs) = (map_of xs)(k := None)"
  by (induction xs) auto

lemma tidy_runs_set: "set (tidy_runs w) = {run. \<exists>k. stored_run w k = Some run}"
proof -
  have "(k, run) \<in> set (AList.clearjunk (cl_runs w)) \<longleftrightarrow> map_of (cl_runs w) k = Some run" for k run
    by (metis distinct_clearjunk map_of_clearjunk map_of_eq_Some_iff)
  moreover have "stored_run w k = Some run \<longleftrightarrow> map_of (cl_runs w) k = Some run \<and> runKey run = k" for k run
    by (auto simp: stored_run_def look_run_def runKey_def split: option.splits)
  ultimately show ?thesis unfolding tidy_runs_def by (force simp: image_iff)
qed

lemma tidy_runs_distinct: "distinct (tidy_runs w)"
proof -
  have "distinct (AList.clearjunk (cl_runs w))" by (metis distinct_clearjunk distinct_map)
  moreover have "inj_on snd (set (filter (\<lambda>(k, run). runKey run = k) (AList.clearjunk (cl_runs w))))"
    by (auto simp: inj_on_def)
  ultimately show ?thesis by (simp add: tidy_runs_def distinct_map)
qed

lemma refPkgs_whole: "whole_ticks refPkgs"
proof -
  have "Second dvd everyNext Minute t" for t
    unfolding everyNext_def by (rule dvd_mult) (simp add: dvd_def)
  moreover have "Second dvd t div Second * Second + Minute" for t
    by (intro dvd_add dvd_triv_right) (simp add: dvd_def)
  moreover have "Second dvd zeroTime" by (simp add: zeroTime_def)
  ultimately show ?thesis by (auto simp: whole_ticks_def refPkgs_def whole_second_def split: if_splits)
qed

interpretation tidy: suite_manager stored_suite issued_versions suiteKube refPkgs stored_run
proof
  fix w :: cluster
  show "untouched stored_suite issued_versions w (snd (k_list_runs suiteKube ns sel w))" for ns sel
    by (cases sel) (simp add: suiteKube_def)
  show "untouched stored_suite issued_versions w (snd (k_get_suite suiteKube k w))"
    "untouched stored_suite issued_versions w (snd (k_get_run suiteKube k w))"
    "untouched stored_suite issued_versions w (snd (k_create_run suiteKube run w))"
    "untouched stored_suite issued_versions w (snd (k_delete_run suiteKube k w))"
    "untouched stored_suite issued_versions w (snd (k_update_suite_status suiteKube x w))
      \<or> accepted stored_suite issued_versions x w (snd (k_update_suite_status suiteKube x w))" for k run x
    using versioned.get_suite [of w k] versioned.get_run [of w k] versioned.create_run [of w run]
      versioned.delete_run [of w k] versioned.update_status [of w x] by (simp_all add: suiteKube_def)
  show "fst (k_get_suite suiteKube k w) = Inr suite \<Longrightarrow> stored_suite w k = Some suite \<and> suite_Key suite = k"
    "fst (k_get_suite suiteKube k w) = Inl NotFound \<Longrightarrow> stored_suite w k = None" for k suite
    by (auto simp: suiteKube_def versionKube_def found_def stored_suite_def split: option.splits if_splits)
  show "fst (k_list_runs suiteKube ns (label, v) w) = Inr items \<Longrightarrow> distinct items
      \<and> set items = {run. (\<exists>k. stored_run w k = Some run) \<and> run_Namespace run = ns \<and> om_Labels (run_Meta run) label = Some v}"
    for ns label v items
    by (auto simp: suiteKube_def tidy_runs_distinct tidy_runs_set simp del: split_paired_Ex)
  show "stored_run w k = Some run \<Longrightarrow> runKey run = k" for k run
    by (auto simp: stored_run_def runKey_def split: option.splits if_splits)
  show "stored_run (snd (k_get_suite suiteKube k w)) = stored_run w"
    "stored_run (snd (k_list_runs suiteKube ns sel w)) = stored_run w"
    "stored_run (snd (k_update_suite_status suiteKube x w)) = stored_run w" for k ns sel x
    by (cases sel; auto simp: suiteKube_def versionKube_def cl_update_suite_def stored_run_def look_run_def fun_eq_iff
        split: option.split)+
  show "stored_run (snd (k_delete_run suiteKube k w)) = (stored_run w)(k := None)" for k
    by (auto simp: suiteKube_def versionKube_def clusterKube_def stored_run_def look_run_def map_of_without fun_eq_iff)
  show "\<exists>cur. stored_suite (snd (k_update_suite_status suiteKube x w)) (suite_Key x) = Some cur \<and> suite_Status cur = suite_wire (suite_Status x)"
    if "fst (k_update_suite_status suiteKube x w) = None" for x
    using that by (auto simp: suiteKube_def versionKube_def cl_update_suite_def stored_suite_def update_conv' split: option.splits if_splits)
  show "mset (p_sort_runs refPkgs xs) = mset xs" "sorted (map runRecency (p_sort_runs refPkgs xs))" for xs
    by simp_all
qed (rule refPkgs_whole)

interpretation suite_queue: watched "k_now suiteKube" "suite_requests stored_suite stored_run"
  "suite_pass suiteKube refPkgs" "suite_orderly suiteKube refPkgs stored_suite stored_run slack" stored_suite
  "suite_settled stored_suite stored_run refPkgs" "suite_until stored_suite refPkgs slack" for slack
  by (rule tidy.suites_watched)

end
