(* ===== verification/Suite_Loop.thy ===== *)
theory Suite_Loop
  imports Manager_Suites
begin

text \<open>
  The writes of a pass over a CheckSuite and the requests that follow from them. A pass always sends its whole
  status; the server leaves a suite alone when the status is the stored one, so a pass after which nothing is
  left to do should not change the suite, as that change would put the suite back into the queue. \<open>calm\<close> is the
  state in which a pass creates and deletes nothing, \<open>calmStatus\<close> the status it sends then, \<open>noted\<close> that the
  status says so already. The contract \<open>suite_loop\<close> adds to \<open>suite_manager\<close> a server that answers. \<open>calm_pass\<close> gives the
  whole effect of a calm pass, \<open>calm_unchanged\<close> that it leaves the suite as it was exactly when the runs are
  listed in the order in which the status has them; \<open>pass_settles\<close> that after any pass that succeeds the suite is
  noted and its history within the limits; \<open>passes_converge\<close> that with the runs listed in the same order the third
  pass changes nothing.
\<close>

section \<open>The status of a calm pass\<close>

definition calmStatus :: "pkgs \<Rightarrow> CheckSuite \<Rightarrow> CheckRun list \<Rightarrow> CheckSuiteStatus" where
  "calmStatus P suite items = noteSchedule P suite (startStatus P suite items)"

text \<open>Nothing is left to do at the time \<open>now\<close>.\<close>

definition calm :: "pkgs \<Rightarrow> time \<Rightarrow> CheckRun set \<Rightarrow> CheckSuite \<Rightarrow> bool" where
  "calm P now own suite \<longleftrightarrow> \<not> triggered suite \<and> dueTick P suite now (suite_Status suite) = None \<and> within_limits own suite"

text \<open>The status says so, but for the order of the active runs.\<close>

definition noted :: "pkgs \<Rightarrow> CheckSuite \<Rightarrow> bool" where
  "noted P suite \<longleftrightarrow> sst_ObservedGeneration (suite_Status suite) = om_Generation (suite_Meta suite)
     \<and> map_option whole_second (suite_Last suite) = suite_Last suite
     \<and> (\<forall>c. scheduleNote P suite = Some c \<longrightarrow> find_condition (sst_Conditions (suite_Status suite)) (cond_Type c) = Some c)"

lemma calmStatus_simps [simp]:
  "sst_ObservedGeneration (calmStatus P suite items) = om_Generation (suite_Meta suite)"
  "sst_LastScheduleTime (calmStatus P suite items) = suite_Last suite"
  "sst_LastManualTrigger (calmStatus P suite items) = sst_LastManualTrigger (suite_Status suite)"
  "sst_Active (calmStatus P suite items) = activeRefs (activeRuns P suite items)"
  by (simp_all add: calmStatus_def startStatus_def)

lemma calmStatus_conditions:
  "sst_Conditions (calmStatus P suite items) = (case scheduleNote P suite of
     None \<Rightarrow> sst_Conditions (suite_Status suite) | Some c \<Rightarrow> p_set_condition P (sst_Conditions (suite_Status suite)) c)"
  by (simp add: calmStatus_def noteSchedule_def startStatus_def setCondition_def split: option.split)

lemma calmStatus_noted:
  "condition_list (p_set_condition P) \<Longrightarrow> scheduleNote P suite = Some c \<Longrightarrow>
     find_condition (sst_Conditions (noteSchedule P suite status)) (cond_Type c) = Some c"
  by (simp add: noteSchedule_def setCondition_def condition_list.find_set)

lemma gcRuns_within:
  assumes "run_sorter (p_sort_runs P)" and "int (length rs) \<le> max 0 limit"
  shows "gcRuns K P rs limit s = (None, s)"
  using assms run_sorter.sortr_length [OF assms(1), of rs] by (auto simp: gcRuns_def gcExcess_def max_def split: if_splits)

lemma startStatus_observed: "sst_ObservedGeneration (startStatus P suite items) = om_Generation (suite_Meta suite)"
  by (simp add: startStatus_def)

lemma fireTick_observed:
  "fireTick K P suite active now tick status s = (Inr status', t) \<Longrightarrow> sst_ObservedGeneration status' = sst_ObservedGeneration status"
  by (auto simp: fireTick_def Let_def split: if_splits prod.splits option.splits sum.splits)

lemma done_with_ok:
  assumes "fst (k_update_suite_status K (suite\<lparr>suite_Status := st\<rparr>) (world s)) = None"
  obtains t where "done_with (updateStatus K suite st s) d = (Inr d, t)"
    "world t = snd (k_update_suite_status K (suite\<lparr>suite_Status := st\<rparr>) (world s))"
  using assms by (cases "k_update_suite_status K (suite\<lparr>suite_Status := st\<rparr>) (world s)")
    (simp add: done_with_def updateStatus_def perform_def)

text \<open>A calm pass is its update.\<close>

lemma suitePass_calm:
  assumes "run_sorter (p_sort_runs P)" and "\<not> triggered suite" and "dueTick P suite now (suite_Status suite) = None"
    and "int (length (succeededRuns P suite items)) \<le> max 0 (fst (historyLimits (ss_HistoryLimit (suite_Spec suite))))"
    and "int (length (failedRuns P suite items)) \<le> max 0 (snd (historyLimits (ss_HistoryLimit (suite_Spec suite))))"
  obtains s1 where "world s1 = world s" "suitePass K P suite now items s =
    done_with (updateStatus K suite (calmStatus P suite items) s1) (requeueDelay P suite now (suite_Status suite))"
proof -
  let ?st = "startStatus P suite items"
  have last: "sst_LastScheduleTime ?st = suite_Last suite" by (simp add: startStatus_def)
  have due: "dueTick P suite now ?st = None" "requeueDelay P suite now ?st = requeueDelay P suite now (suite_Status suite)"
    using assms(3) last by (simp_all only: dueTick_def requeueDelay_def)
  obtain s1 where s1: "world s1 = world s" "handleSchedule K P suite (activeRuns P suite items) now ?st s =
      done_with (updateStatus K suite (calmStatus P suite items) s1) (requeueDelay P suite now (suite_Status suite))"
    by (rule handleSchedule_noted [of s suite K P "activeRuns P suite items" now ?st]) (simp add: due calmStatus_def that)
  have "manualTrigger K P suite ?st s = (Inr ?st, s)" using assms(2) by (simp add: manualTrigger_eq)
  then show thesis
    using gcRuns_within [OF assms(1,4), of K s] gcRuns_within [OF assms(1,5), of K s] s1
    by (intro that [of s1]) (simp_all add: suitePass_def Let_def)
qed

section \<open>Two versions of a suite\<close>

text \<open>They differ in nothing but the status and the version.\<close>

definition reversioned :: "CheckSuite \<Rightarrow> CheckSuite \<Rightarrow> bool" where
  "reversioned x y \<longleftrightarrow> y = x\<lparr>suite_Meta := (suite_Meta x)\<lparr>om_ResourceVersion := suite_Version y\<rparr>, suite_Status := suite_Status y\<rparr>"

lemma reversioned_same:
  assumes "reversioned x y"
  shows "suite_Spec y = suite_Spec x" "om_Generation (suite_Meta y) = om_Generation (suite_Meta x)"
    "om_Annotations (suite_Meta y) = om_Annotations (suite_Meta x)" "om_UID (suite_Meta y) = om_UID (suite_Meta x)"
    "om_CreationTimestamp (suite_Meta y) = om_CreationTimestamp (suite_Meta x)" "suite_Key y = suite_Key x"
    "suite_Name y = suite_Name x" "suite_Namespace y = suite_Namespace x"
  by (subst assms [unfolded reversioned_def], simp)+

lemma reversioned_simps:
  assumes "reversioned x y"
  shows "scheduleNote P y = scheduleNote P x" "runNow y = runNow x" "listSelector y = listSelector x" "listed y = listed x"
proof -
  have "scheduleCondition y = scheduleCondition x"
    by (simp add: fun_eq_iff scheduleCondition_def reversioned_same [OF assms])
  then show "scheduleNote P y = scheduleNote P x" by (simp only: scheduleNote_def reversioned_same [OF assms])
qed (simp_all add: runNow_def listSelector_def listed_def fun_eq_iff reversioned_same [OF assms])

section \<open>The history after a pass\<close>

text \<open>No run appears that is not active.\<close>

definition fades :: "('w \<Rightarrow> nkey \<Rightarrow> CheckRun option) \<Rightarrow> 'w \<Rightarrow> 'w \<Rightarrow> bool" where
  "fades runs w w' \<longleftrightarrow> (\<forall>k run. runs w' k = Some run \<longrightarrow> runs w k = Some run \<or> isActive run)"

lemma fades_refl [simp]: "runs w' = runs w \<Longrightarrow> fades runs w w'"
  by (simp add: fades_def)

lemma fades_trans [trans]: "fades runs u v \<Longrightarrow> fades runs v w \<Longrightarrow> fades runs u w"
  unfolding fades_def by blast

lemma fades_finished: "fades runs w w' \<Longrightarrow> runs w' k = Some run \<Longrightarrow> \<not> isActive run \<Longrightarrow> runs w k = Some run"
  unfolding fades_def by blast

text \<open>The runs of a suite, as a pass gets them.\<close>

definition family :: "('w \<Rightarrow> nkey \<Rightarrow> CheckRun option) \<Rightarrow> pkgs \<Rightarrow> CheckSuite \<Rightarrow> 'w \<Rightarrow> CheckRun set" where
  "family runs P suite w = {run. (\<exists>k. runs w k = Some run) \<and> listed suite run \<and> p_controlled_by P run suite}"

definition listing :: "'w kube \<Rightarrow> nkey \<Rightarrow> 'w \<Rightarrow> CheckRun list" where
  "listing K key w =
     (case k_get_suite K key w of
        (Inl e, w1) \<Rightarrow> []
      | (Inr suite, w1) \<Rightarrow>
          (case fst (k_list_runs K (suite_Namespace suite) (listSelector suite) w1) of Inl e \<Rightarrow> [] | Inr items \<Rightarrow> items))"

lemma upsert_same: "find_condition cs (cond_Type c) = Some c \<Longrightarrow> upsert_condition cs c = cs"
  by (induction cs) (auto simp: find_condition_def split: if_splits)

text \<open>No tick is due when the pass reads the clock.\<close>

definition between_ticks :: "'w kube \<Rightarrow> pkgs \<Rightarrow> ('w \<Rightarrow> nkey \<Rightarrow> CheckSuite option) \<Rightarrow> nkey \<Rightarrow> 'w \<Rightarrow> bool" where
  "between_ticks K P stored key w \<longleftrightarrow> (\<forall>suite. stored w key = Some suite \<longrightarrow>
     dueTick P suite (k_now K (snd (k_get_suite K key w))) (suite_Status suite) = None)"

section \<open>A server that answers\<close>

text \<open>
  Reads of what is there succeed, an update of the stored version is accepted and leaves a suite alone whose
  status it does not change, a created run is the one sent; and the documented behaviour of the packages: a
  condition that is there already is not changed, and control is a matter of UIDs.
\<close>

locale suite_loop = suite_manager stored issued K P runs
    for stored :: "'w \<Rightarrow> nkey \<Rightarrow> CheckSuite option" and issued and K :: "'w kube" and P and runs :: "'w \<Rightarrow> nkey \<Rightarrow> CheckRun option" +
  assumes get_ok: "stored w k = Some suite \<Longrightarrow> fst (k_get_suite K k w) = Inr suite"
    and list_ok: "\<exists>items. fst (k_list_runs K ns sel w) = Inr items"
    and update_ok: "stored w (suite_Key x) = Some old \<Longrightarrow> suite_Version old = suite_Version x \<Longrightarrow> fst (k_update_suite_status K x w) = None"
    and update_same: "stored w (suite_Key x) = Some old \<Longrightarrow> suite_wire (suite_Status x) = suite_Status old \<Longrightarrow>
      stored (snd (k_update_suite_status K x w)) = stored w"
    and run_read: "runs (snd (k_get_run K k w)) = runs w"
    and create_sent: "runs (snd (k_create_run K run w)) k = Some r \<Longrightarrow> runs w k = Some r \<or> run_Status r = run_Status run"
    and own_status: "p_own_run P suite run = Inr run' \<Longrightarrow> run_Status run' = run_Status run"
    and conditions: "condition_list (p_set_condition P)"
    and set_same: "find_condition cs (cond_Type c) = Some c \<Longrightarrow> p_set_condition P cs c = cs"
    and controlled_uid: "om_UID (suite_Meta x) = om_UID (suite_Meta y) \<Longrightarrow> p_controlled_by P run x = p_controlled_by P run y"
begin

lemma suiteRuns_same: "reversioned x y \<Longrightarrow> suiteRuns P y items = suiteRuns P x items"
  by (simp add: suiteRuns_def controlled_uid [OF reversioned_same(4)])

lemma family_same: "reversioned x y \<Longrightarrow> family runs P y w = family runs P x w"
  by (simp add: family_def reversioned_simps controlled_uid [OF reversioned_same(4)])

text \<open>The update at the end.\<close>

lemma update_stored:
  assumes "stored w key = Some suite" and "suite_Key suite = key"
  shows "fst (k_update_suite_status K (suite\<lparr>suite_Status := st\<rparr>) w) = None"
    and "\<exists>new. stored (snd (k_update_suite_status K (suite\<lparr>suite_Status := st\<rparr>) w)) = (stored w)(key \<mapsto> new)
      \<and> reversioned suite new \<and> suite_Status new = suite_wire st"
proof -
  let ?x = "suite\<lparr>suite_Status := st\<rparr>" and ?w = "snd (k_update_suite_status K (suite\<lparr>suite_Status := st\<rparr>) w)"
  show ok: "fst (k_update_suite_status K ?x w) = None" using assms by (intro update_ok [of w ?x suite]) simp_all
  from update_done [OF this] obtain cur where cur: "stored ?w key = Some cur" "suite_Status cur = suite_wire st"
    using assms(2) by auto
  from update_status [of w ?x]
  show "\<exists>new. stored ?w = (stored w)(key \<mapsto> new) \<and> reversioned suite new \<and> suite_Status new = suite_wire st"
  proof
    assume "untouched stored issued w ?w"
    then have "stored ?w = stored w" by (simp add: untouched_def)
    with cur assms(1) have "stored ?w = (stored w)(key \<mapsto> suite)" "suite_Status suite = suite_wire st" by auto
    then show ?thesis by (intro exI [of _ suite]) (simp add: reversioned_def)
  next
    assume "accepted stored issued ?x w ?w"
    then obtain v where "stored ?w = (stored w)(key \<mapsto>
        suite\<lparr>suite_Meta := (suite_Meta suite)\<lparr>om_ResourceVersion := v\<rparr>, suite_Status := suite_wire st\<rparr>)"
      using assms by (auto simp: accepted_def)
    then show ?thesis by (intro exI conjI) (assumption, simp_all add: reversioned_def)
  qed
qed

text \<open>What a pass over a stored suite comes down to.\<close>

lemma pass_eq:
  assumes "stored w key = Some suite"
  obtains s2 where "CheckSuite_Reconcile K P key \<lparr>world = w, acts = []\<rparr> =
      suitePass K P suite (k_now K (snd (k_get_suite K key w))) (listing K key w) s2"
    "stored (world s2) = stored w" "runs (world s2) = runs w" "suite_Key suite = key" "distinct (listing K key w)"
    "set (listing K key w) = {run. (\<exists>k. runs w k = Some run) \<and> listed suite run}"
proof -
  let ?ns = "suite_Namespace suite" and ?sel = "listSelector suite"
  obtain w1 where g: "k_get_suite K key w = (Inr suite, w1)" using get_ok [OF assms] by (metis prod.collapse)
  obtain items w2 where l: "k_list_runs K ?ns ?sel w1 = (Inr items, w2)" using list_ok [of ?ns ?sel w1] by (metis prod.collapse)
  have items: "listing K key w = items" using g l by (simp add: listing_def)
  have "stored w1 = stored w" "stored w2 = stored w1"
    using get_suite [of w key] list_runs [of w1 ?ns ?sel] g l by (simp_all add: untouched_def)
  moreover have r: "runs w1 = runs w" "runs w2 = runs w1" using runs_read(1) [of key w] runs_read(2) [of ?ns ?sel w1] g l by simp_all
  moreover have "distinct items \<and> set items = {run. (\<exists>k. runs w1 k = Some run) \<and> run_Namespace run = ?ns
      \<and> om_Labels (run_Meta run) (fst ?sel) = Some (snd ?sel)}"
    using l by (intro list_present) simp
  moreover have "suite_Key suite = key" using suite_present [of key w suite] get_ok [OF assms] by simp
  moreover obtain s2 where "world s2 = w2" "CheckSuite_Reconcile K P key \<lparr>world = w, acts = []\<rparr> = suitePass K P suite (k_now K w1) items s2"
    by (rule reconcile_pass [of K key "\<lparr>world = w, acts = []\<rparr>" suite w1 items w2 P]) (use g l in simp_all)
  ultimately show thesis using g items by (intro that [of s2]) (simp_all add: listed_def)
qed

lemma pass_family:
  assumes "set items = {run. (\<exists>k. runs w k = Some run) \<and> listed suite run}"
  shows "set (suiteRuns P suite items) = family runs P suite w"
  using assms by (auto simp: suiteRuns_def family_def)

text \<open>A pass that finds nothing to do.\<close>

lemma calm_pass:
  assumes "stored w key = Some suite" and "calm P (k_now K (snd (k_get_suite K key w))) (family runs P suite w) suite"
  defines "st \<equiv> calmStatus P suite (listing K key w)"
  obtains w' new where "suite_pass K P key w = (Inr (requeueDelay P suite (k_now K (snd (k_get_suite K key w))) (suite_Status suite)), w')"
    "runs w' = runs w" "stored w' = (stored w)(key \<mapsto> new)" "reversioned suite new" "suite_Status new = suite_wire st"
    "suite_wire st = suite_Status suite \<longrightarrow> stored w' = stored w"
proof -
  let ?now = "k_now K (snd (k_get_suite K key w))" and ?limits = "historyLimits (ss_HistoryLimit (suite_Spec suite))"
  let ?x = "suite\<lparr>suite_Status := st\<rparr>"
  obtain s2 where pass: "CheckSuite_Reconcile K P key \<lparr>world = w, acts = []\<rparr> = suitePass K P suite ?now (listing K key w) s2"
    and s2: "stored (world s2) = stored w" "runs (world s2) = runs w" and key: "suite_Key suite = key"
    and items: "distinct (listing K key w)" "set (listing K key w) = {run. (\<exists>k. runs w k = Some run) \<and> listed suite run}"
    by (rule pass_eq [OF assms(1)])
  note card = own_card [OF items(1) pass_family [OF items(2)]]
  have "int (length (succeededRuns P suite (listing K key w))) \<le> max 0 (fst ?limits)"
    "int (length (failedRuns P suite (listing K key w))) \<le> max 0 (snd ?limits)"
    using assms(2) card by (simp_all add: calm_def within_limits_def Let_def)
  then obtain s3 where s3: "world s3 = world s2" "suitePass K P suite ?now (listing K key w) s2 =
      done_with (updateStatus K suite st s3) (requeueDelay P suite ?now (suite_Status suite))"
    by (rule suitePass_calm [OF sorter, of suite ?now "listing K key w" s2 K, rotated 2])
      (use assms(2) in \<open>simp_all add: calm_def st_def\<close>)
  have at: "stored (world s3) key = Some suite" using s3(1) s2(1) assms(1) by simp
  note upd = update_stored [OF this key, of st]
  obtain s4 where p: "done_with (updateStatus K suite st s3) (requeueDelay P suite ?now (suite_Status suite)) =
      (Inr (requeueDelay P suite ?now (suite_Status suite)), s4)" "world s4 = snd (k_update_suite_status K ?x (world s3))"
    by (rule done_with_ok [OF upd(1)])
  then have res: "suite_pass K P key w = (Inr (requeueDelay P suite ?now (suite_Status suite)), world s4)"
    by (simp add: suite_pass_def pass s3(2))
  have "runs (world s4) = runs w" using p(2) runs_read(3) [of ?x "world s3"] s3(1) s2(2) by simp
  moreover have "suite_wire st = suite_Status suite \<longrightarrow> stored (world s4) = stored w"
    using update_same [of "world s3" ?x suite] at key p(2) s3(1) s2(1) by simp
  moreover obtain new where "stored (world s4) = (stored w)(key \<mapsto> new)" "reversioned suite new" "suite_Status new = suite_wire st"
    using upd(2) p(2) s3(1) s2(1) by auto
  ultimately show thesis using res that by blast
qed

text \<open>The steps of a pass bring no finished run, and its collections leave no more than the limits.\<close>

lemma deleteRuns_fades: "deleteRuns K rs s = (None, t) \<Longrightarrow> fades runs (world s) (world t)"
  by (auto simp: fades_def deleteRuns_deletes split: if_splits)

lemma gcRuns_fades: "gcRuns K P rs limit s = (None, t) \<Longrightarrow> fades runs (world s) (world t)"
  by (auto simp: gcRuns_def deleteRuns_fades split: if_splits)

lemma createRun_fades: "fades runs (world s) (world (snd (createRun K P suite name s)))"
proof (cases "p_own_run P suite (newRun suite name)")
  case (Inr run)
  obtain q s1 where p: "perform (Req (CreateRun run)) (k_create_run K run) s = (q, s1)" by fastforce
  obtain g s2 where h: "perform (Req (GetRun (meta_key (run_Meta run)))) (k_get_run K (meta_key (run_Meta run))) s1 = (g, s2)"
    by fastforce
  have w: "world s1 = snd (k_create_run K run (world s))" "world s2 = snd (k_get_run K (meta_key (run_Meta run)) (world s1))"
    using p h perform_world by (metis snd_conv)+
  have "isActive r" if "run_Status r = run_Status run" for r
    using that own_status [OF Inr] by (simp add: isActive_def newRun_def)
  then have "fades runs (world s) (world s1)" unfolding fades_def w(1) using create_sent by blast
  moreover have "runs (world s2) = runs (world s1)" using run_read w(2) by simp
  ultimately show ?thesis using p h Inr
    by (auto simp: createRun_def Let_def fades_def split: sum.split api_error.split)
qed (simp add: createRun_def)

lemma fireTick_fades:
  assumes "fireTick K P suite active now tick status s = (Inr st, t)"
  shows "fades runs (world s) (world t)"
proof (cases "fires suite active now tick")
  case False
  then show ?thesis using assms by (auto simp: fireTick_def fires_def startingDeadline_def Let_def split: if_splits)
next
  case True
  let ?d = "if ss_ConcurrencyPolicy (suite_Spec suite) = ReplaceConcurrent then deleteRuns K active s else (None, s)"
  obtain s1 where d: "?d = (None, s1)" and c: "snd (createRun K P suite (scheduledRunName suite tick) s1) = t"
    using assms unfolding fireTick_fires [OF True] by (auto split: prod.splits option.splits sum.splits)
  have "fades runs (world s) (world s1)" using d deleteRuns_fades [of active s s1] by (auto split: if_splits)
  also have "fades runs (world s1) (world t)" using createRun_fades [of s1 suite "scheduledRunName suite tick"] c by simp
  finally show ?thesis .
qed

lemma manualTrigger_fades: "fades runs (world s) (world (snd (manualTrigger K P suite (startStatus P suite items) s)))"
  using createRun_fades [of s suite "manualRunName suite (runNow suite)"]
  by (auto simp: manualTrigger_eq split: prod.splits sum.splits)

lemma gcRuns_keeps:
  assumes "gcRuns K P rs limit s = (None, t)"
  shows "int (card {run \<in> set rs. runs (world t) (runKey run) = Some run}) \<le> max 0 limit"
proof (cases "int (length rs) \<le> limit")
  case True
  have "card {run \<in> set rs. runs (world t) (runKey run) = Some run} \<le> card (set rs)" by (rule card_mono) auto
  then show ?thesis using True card_length [of rs] by linarith
next
  case False
  let ?n = "nat (int (length rs) - limit)" and ?sorted = "p_sort_runs P rs"
  have del: "deleteRuns K (take ?n ?sorted) s = (None, t)" using assms False by (simp add: gcRuns_def gcExcess_def)
  have "{run \<in> set rs. runs (world t) (runKey run) = Some run} \<subseteq> set (drop ?n ?sorted)"
  proof
    fix run
    assume run: "run \<in> {run \<in> set rs. runs (world t) (runKey run) = Some run}"
    then have "run \<in> set ?sorted" by (simp add: run_sorter.sortr_set [OF sorter])
    then have "run \<in> set (take ?n ?sorted) \<or> run \<in> set (drop ?n ?sorted)"
      by (metis append_take_drop_id Un_iff set_append)
    moreover have "run \<notin> set (take ?n ?sorted)" using run deleteRuns_deletes [OF del] by (auto split: if_splits)
    ultimately show "run \<in> set (drop ?n ?sorted)" by blast
  qed
  from card_mono [OF _ this] have "card {run \<in> set rs. runs (world t) (runKey run) = Some run} \<le> card (set (drop ?n ?sorted))"
    by simp
  also have "\<dots> \<le> length rs - ?n" using card_length [of "drop ?n ?sorted"] by (simp add: run_sorter.sortr_length [OF sorter])
  finally show ?thesis using False by linarith
qed

lemma finished_kept:
  assumes "gcRuns K P (filter Q (suiteRuns P suite items)) limit s = (None, t)" and "fades runs (world t) w'"
    and "\<And>run. Q run \<Longrightarrow> \<not> isActive run" and "fades runs w (world s)"
    and "set items = {run. (\<exists>k. runs w k = Some run) \<and> listed suite run}"
  shows "int (card {run \<in> family runs P suite w'. Q run}) \<le> max 0 limit"
proof -
  have "{run \<in> family runs P suite w'. Q run} \<subseteq>
      {run \<in> set (filter Q (suiteRuns P suite items)). runs (world t) (runKey run) = Some run}"
  proof
    fix run
    assume "run \<in> {run \<in> family runs P suite w'. Q run}"
    then obtain k where k: "runs w' k = Some run" "listed suite run" "p_controlled_by P run suite" "Q run"
      by (auto simp: family_def)
    have t: "runs (world t) k = Some run" using fades_finished [OF assms(2) k(1)] assms(3) k(4) by simp
    have "fades runs (world s) (world t)" using assms(1) by (rule gcRuns_fades)
    with assms(4) have "fades runs w (world t)" by (rule fades_trans)
    then have "runs w k = Some run" using fades_finished [OF \<open>fades runs w (world t)\<close> t] assms(3) k(4) by simp
    then show "run \<in> {run \<in> set (filter Q (suiteRuns P suite items)). runs (world t) (runKey run) = Some run}"
      using t runs_key [OF t] k pass_family [OF assms(5)] by (auto simp: family_def simp del: split_paired_Ex)
  qed
  then have "card {run \<in> family runs P suite w'. Q run} \<le>
      card {run \<in> set (filter Q (suiteRuns P suite items)). runs (world t) (runKey run) = Some run}"
    by (intro card_mono) simp_all
  then show ?thesis using gcRuns_keeps [OF assms(1)] by linarith
qed

text \<open>After a pass that succeeds the suite is noted, and nothing is left to do until the next tick.\<close>

lemma pass_settles:
  assumes "suite_pass K P key w = (Inr d, w')" and "stored w key = Some suite"
  obtains new where "stored w' = (stored w)(key \<mapsto> new)" "reversioned suite new" "noted P new" "\<not> triggered new"
    "within_limits (family runs P new w') new"
proof -
  let ?items = "listing K key w" and ?now = "k_now K (snd (k_get_suite K key w))"
  let ?limits = "historyLimits (ss_HistoryLimit (suite_Spec suite))"
  obtain t where t: "CheckSuite_Reconcile K P key \<lparr>world = w, acts = []\<rparr> = (Inr d, t)" "world t = w'"
    using assms(1) by (auto simp: suite_pass_def split: prod.splits)
  obtain s0 where pass: "CheckSuite_Reconcile K P key \<lparr>world = w, acts = []\<rparr> = suitePass K P suite ?now ?items s0"
    and s0: "stored (world s0) = stored w" "runs (world s0) = runs w" and key: "suite_Key suite = key"
    and items: "set ?items = {run. (\<exists>k. runs w k = Some run) \<and> listed suite run}"
    by (rule pass_eq [OF assms(2)])
  obtain s1 s2 s3 status where g: "gcRuns K P (succeededRuns P suite ?items) (fst ?limits) s0 = (None, s1)"
      "gcRuns K P (failedRuns P suite ?items) (snd ?limits) s1 = (None, s2)"
    and m: "manualTrigger K P suite (startStatus P suite ?items) s2 = (Inr status, s3)"
    and h: "handleSchedule K P suite (activeRuns P suite ?items) ?now status s3 = (Inr d, t)"
    using t(1) unfolding pass by (rule suitePass_parts)
  note man = manualTrigger_handles [OF m]
  have gen: "sst_ObservedGeneration status = om_Generation (suite_Meta suite)"
    using m startStatus_observed by (fastforce simp: manualTrigger_eq split: prod.splits sum.splits if_splits)
  let ?note = "noteSchedule P suite status"
  obtain s4 where s4: "world s4 = world s3" and form: "handleSchedule K P suite (activeRuns P suite ?items) ?now status s3 =
      (case (case dueTick P suite ?now status of None \<Rightarrow> (Inr ?note, s4)
         | Some tick \<Rightarrow> fireTick K P suite (activeRuns P suite ?items) ?now tick ?note s4) of
         (Inl e, s5) \<Rightarrow> (Inl e, s5)
       | (Inr status2, s5) \<Rightarrow> done_with (updateStatus K suite status2 s5) (requeueDelay P suite ?now status))"
    by (rule handleSchedule_noted)
  obtain st s5 where o: "(case dueTick P suite ?now status of None \<Rightarrow> (Inr ?note, s4)
      | Some tick \<Rightarrow> fireTick K P suite (activeRuns P suite ?items) ?now tick ?note s4) = (Inr st, s5)"
    and upd: "done_with (updateStatus K suite st s5) (requeueDelay P suite ?now status) = (Inr d, t)"
    using h unfolding form by (auto split: prod.splits sum.splits)
  have st: "sst_Conditions st = sst_Conditions ?note" "sst_ObservedGeneration st = om_Generation (suite_Meta suite)"
    "sst_LastManualTrigger st = sst_LastManualTrigger status"
    using o gen fireTick_status fireTick_observed by (fastforce split: option.splits)+
  have world: "fades runs (world s4) (world s5)" "kept s4 s5"
    using o fireTick_fades fireTick_kept [of s4 P suite "activeRuns P suite ?items" ?now] by (auto split: option.splits dest!: sndI)
  have "kept s0 s1" using gcRuns_kept g(1) by (metis snd_conv)
  also have "kept s1 s2" using gcRuns_kept g(2) by (metis snd_conv)
  also have "kept s2 s3" using manualTrigger_kept(1) m by (metis snd_conv)
  also have "kept s3 s5" using world(2) s4 by simp
  finally have at: "stored (world s5) = stored w" using s0(1) by (simp add: untouched_def)
  note put = update_stored [of "world s5" key suite st, unfolded at, OF assms(2) key]
  have w': "w' = snd (k_update_suite_status K (suite\<lparr>suite_Status := st\<rparr>) (world s5))"
    by (rule done_with_ok [OF put(1), of "requeueDelay P suite ?now status"]) (use upd t(2) in auto)
  obtain new where new: "stored w' = (stored w)(key \<mapsto> new)" "reversioned suite new" "suite_Status new = suite_wire st"
    using put(2) w' by blast
  have "fades runs (world s2) (world s3)" using manualTrigger_fades m by (metis snd_conv)
  also have "fades runs (world s3) (world s5)" using world(1) s4 by simp
  also have "fades runs (world s5) w'" using runs_read(3) w' by simp
  finally have late: "fades runs (world s2) w'" .
  have early: "fades runs (world s1) (world s2)" "fades runs w (world s1)"
    using gcRuns_fades [OF g(2)] gcRuns_fades [OF g(1)] s0(2) by (simp_all add: fades_def)
  have "within_limits (family runs P suite w') suite"
    using finished_kept [OF g(1) fades_trans [OF early(1) late] _ _ items]
      finished_kept [OF g(2) late _ early(2) items] s0(2) by (auto simp: within_limits_def Let_def isActive_def)
  then have "within_limits (family runs P new w') new"
    by (simp add: within_limits_def family_same [OF new(2)] reversioned_same [OF new(2)])
  moreover have "\<not> triggered new"
    using man st(3) new(3) reversioned_simps(2) [OF new(2)] by (auto simp: triggered_def suite_wire_def split: if_splits)
  moreover have "noted P new"
    using st new(3) reversioned_simps(1) [OF new(2)] reversioned_same(2) [OF new(2)] calmStatus_noted [OF conditions]
    by (simp add: noted_def suite_wire_def option.map_comp comp_def whole_second_idem)
  ultimately show thesis using new(1,2) that by blast
qed

text \<open>A calm pass over a noted suite changes it only if the runs are listed in another order.\<close>

lemma calm_unchanged:
  assumes "stored w key = Some suite" and "noted P suite"
    and "calm P (k_now K (snd (k_get_suite K key w))) (family runs P suite w) suite"
  obtains w' where "suite_pass K P key w = (Inr (requeueDelay P suite (k_now K (snd (k_get_suite K key w))) (suite_Status suite)), w')"
    "runs w' = runs w"
    "stored w' = stored w \<longleftrightarrow> sst_Active (suite_Status suite) = activeRefs (activeRuns P suite (listing K key w))"
    "stored w' key = stored w key \<Longrightarrow> stored w' = stored w"
proof -
  let ?st = "calmStatus P suite (listing K key w)"
  obtain w' new where pass: "suite_pass K P key w = (Inr (requeueDelay P suite (k_now K (snd (k_get_suite K key w))) (suite_Status suite)), w')"
    and w': "runs w' = runs w" "stored w' = (stored w)(key \<mapsto> new)" "reversioned suite new" "suite_Status new = suite_wire ?st"
    and same: "suite_wire ?st = suite_Status suite \<longrightarrow> stored w' = stored w"
    by (rule calm_pass [OF assms(1,3)])
  have conds: "sst_Conditions ?st = sst_Conditions (suite_Status suite)"
    using assms(2) by (auto simp: calmStatus_conditions noted_def set_same split: option.split)
  have "suite_wire ?st = suite_Status suite" if "sst_Active (suite_Status suite) = activeRefs (activeRuns P suite (listing K key w))"
    by (rule CheckSuiteStatus.equality) (use that assms(2) conds in \<open>simp_all add: suite_wire_def noted_def\<close>)
  moreover have "sst_Active (suite_Status suite) = activeRefs (activeRuns P suite (listing K key w))" if "stored w' = stored w"
  proof -
    have "Some new = Some suite" using fun_cong [OF that, of key] w'(2) assms(1) by simp
    then have "suite_Status suite = suite_wire ?st" using w'(4) by simp
    from arg_cong [OF this, of sst_Active] show ?thesis by (simp add: suite_wire_def)
  qed
  moreover have "stored w' = stored w" if "stored w' key = stored w key" using that w'(2) assms(1) by auto
  ultimately show thesis using pass w'(1) same that by blast
qed

lemma calm_requests:
  assumes "stored w key = Some suite" and "noted P suite"
    and "calm P (k_now K (snd (k_get_suite K key w))) (family runs P suite w) suite" and "suite_pass K P key w = (res, w')"
  shows "key \<in> suite_requests stored runs w w' \<longleftrightarrow> sst_Active (suite_Status suite) \<noteq> activeRefs (activeRuns P suite (listing K key w))"
proof -
  have kept: "runs w' = runs w" "stored w' = stored w \<longleftrightarrow> sst_Active (suite_Status suite) = activeRefs (activeRuns P suite (listing K key w))"
      "stored w' key = stored w key \<Longrightarrow> stored w' = stored w"
    by (rule calm_unchanged [OF assms(1-3)], use assms(4) in simp)+
  have "suite_requests stored runs w w' = {}" if "stored w' = stored w"
    using that kept(1) by (simp add: suite_requests_def requests_def changed_def suite_objects_def)
  then show ?thesis using kept(2,3) suite_requests_self [of key stored runs w w'] by blast
qed

text \<open>Two passes settle a suite; with the runs in the same order a third leaves it as it is.\<close>

lemma pass_calms:
  assumes "suite_pass K P key w = (Inr d, w')" and "stored w key = Some suite" and "between_ticks K P stored key w'"
  obtains new where "stored w' = (stored w)(key \<mapsto> new)" "reversioned suite new" "noted P new"
    "calm P (k_now K (snd (k_get_suite K key w'))) (family runs P new w') new"
  by (rule pass_settles [OF assms(1,2)]) (use assms(3) that in \<open>auto simp: calm_def between_ticks_def\<close>)

lemma passes_converge:
  assumes "stored w key = Some suite" and "suite_pass K P key w = (Inr d, w1)"
    and "suite_pass K P key w1 = (r2, w2)" and "suite_pass K P key w2 = (r3, w3)"
    and "between_ticks K P stored key w1" and "between_ticks K P stored key w2" and "listing K key w2 = listing K key w1"
  shows "(\<exists>d2. r2 = Inr d2) \<and> runs w2 = runs w1 \<and> (\<exists>d3. r3 = Inr d3) \<and> runs w3 = runs w2 \<and> stored w3 = stored w2"
proof -
  obtain one where one: "stored w1 = (stored w)(key \<mapsto> one)"
      "calm P (k_now K (snd (k_get_suite K key w1))) (family runs P one w1) one"
    by (rule pass_calms [OF assms(2,1,5)])
  then have at1: "stored w1 key = Some one" by simp
  obtain two where second: "r2 = Inr (requeueDelay P one (k_now K (snd (k_get_suite K key w1))) (suite_Status one))"
      "runs w2 = runs w1" "stored w2 = (stored w1)(key \<mapsto> two)" "suite_Status two = suite_wire (calmStatus P one (listing K key w1))"
    by (rule calm_pass [OF at1 one(2)]) (use assms(3) in simp)
  then have at2: "stored w2 key = Some two" by simp
  obtain two' where two': "stored w2 = (stored w1)(key \<mapsto> two')" "reversioned one two'" "noted P two'"
      "calm P (k_now K (snd (k_get_suite K key w2))) (family runs P two' w2) two'"
    by (rule pass_calms [OF assms(3) [unfolded second(1)] at1 assms(6)])
  then have "two' = two" using at2 by simp
  note two = two' [unfolded this]
  have "sst_Active (suite_Status two) = activeRefs (activeRuns P two (listing K key w2))"
    using second(4) assms(7) suiteRuns_same [OF two(2)] by (simp add: suite_wire_def activeRuns_def)
  with calm_unchanged [OF at2 two(3,4)] obtain d3 w3' where
    "suite_pass K P key w2 = (Inr d3, w3')" "runs w3' = runs w2" "stored w3' = stored w2" by metis
  then show ?thesis using assms(4) second(1,2) by simp
qed

end

section \<open>The sample server\<close>

interpretation tidy_loop: suite_loop stored_suite issued_versions suiteKube refPkgs stored_run
proof
  fix w :: cluster
  show "\<exists>items. fst (k_list_runs suiteKube ns sel w) = Inr items" for ns sel
    by (cases sel) (simp add: suiteKube_def)
  show "stored_run (snd (k_create_run suiteKube run w)) k = Some r \<Longrightarrow> stored_run w k = Some r \<or> run_Status r = run_Status run"
    for run k r
    by (auto simp: suiteKube_def versionKube_def clusterKube_def cl_create_run_def stored_run_def look_run_def Let_def
        split: if_splits option.splits)
  show "find_condition cs (cond_Type c) = Some c \<Longrightarrow> p_set_condition refPkgs cs c = cs" for cs c
    by (simp add: upsert_same)
  show "p_own_run refPkgs suite run = Inr run' \<Longrightarrow> run_Status run' = run_Status run" for suite run run'
    by (auto simp: refPkgs_def split: if_splits)
  show "om_UID (suite_Meta x) = om_UID (suite_Meta y) \<Longrightarrow> p_controlled_by refPkgs run x = p_controlled_by refPkgs run y"
    for x y run by (simp add: refPkgs_def)
qed (simp_all add: suiteKube_def versionKube_def found_def cl_update_suite_def clusterKube_def upsert.find_set upsert.distinct_set)

end
