(* ===== verification/Whole_System.thy ===== *)
theory Whole_System
  imports Manager_Runs Suite_Loop
begin

text \<open>
  The two controllers of the manager over one world. Each has its own queue and timers; what one of them
  changes the other sees as a change of the world. \<open>system_step\<close> interleaves their steps, and \<open>system_parts\<close>
  shows that each of the two alone has gone through the loop of \<open>Manager\<close>, so that what is proved of one
  controller holds while the other is at work. \<open>systemKube\<close> is one server that meets the contracts of both.
\<close>

section \<open>Two controllers\<close>

definition notice :: "('w \<Rightarrow> 'w \<Rightarrow> nkey set) \<Rightarrow> 'w \<Rightarrow> 'w manager \<Rightarrow> 'w manager" where
  "notice events w' s = s\<lparr>mg_world := w', mg_queue := mg_queue s \<union> events (mg_world s) w'\<rparr>"

inductive system_step :: "('w manager \<Rightarrow> 'w manager \<Rightarrow> bool) \<Rightarrow> ('w \<Rightarrow> 'w \<Rightarrow> nkey set) \<Rightarrow>
    ('w manager \<Rightarrow> 'w manager \<Rightarrow> bool) \<Rightarrow> ('w \<Rightarrow> 'w \<Rightarrow> nkey set) \<Rightarrow>
    'w manager \<times> 'w manager \<Rightarrow> 'w manager \<times> 'w manager \<Rightarrow> bool"
  for step1 events1 step2 events2 where
  one: "step1 a a' \<Longrightarrow> system_step step1 events1 step2 events2 (a, b) (a', notice events2 (mg_world a') b)"
| other: "step2 b b' \<Longrightarrow> system_step step1 events1 step2 events2 (a, b) (notice events1 (mg_world b') a, b')"

inductive_cases system_stepE [elim]: "system_step step1 events1 step2 events2 (a, b) (a', b')"

lemma notice_world [simp]: "mg_world (notice events w s) = w"
  by (simp add: notice_def)

lemma notice_step: "manager_step clock events reconcile orderly s (notice events w s)"
  unfolding notice_def by (rule manager_step.change)

lemma system_parts:
  assumes "(system_step (manager_step clock1 events1 pass1 orderly1) events1
      (manager_step clock2 events2 pass2 orderly2) events2)\<^sup>*\<^sup>* (a, b) (a', b')"
    and "mg_world a = mg_world b"
  shows "(manager_step clock1 events1 pass1 orderly1)\<^sup>*\<^sup>* a a' \<and> (manager_step clock2 events2 pass2 orderly2)\<^sup>*\<^sup>* b b'
    \<and> mg_world a' = mg_world b'"
  using assms(1)
proof (induction "(a', b')" arbitrary: a' b' rule: rtranclp_induct)
  case base
  then show ?case using assms(2) by simp
next
  case (step v)
  obtain c d where v: "v = (c, d)" by (cases v)
  with step(3) have parts: "(manager_step clock1 events1 pass1 orderly1)\<^sup>*\<^sup>* a c"
    "(manager_step clock2 events2 pass2 orderly2)\<^sup>*\<^sup>* b d" by simp_all
  from step(2) [unfolded v] show ?case
    by cases (use parts in \<open>auto intro: rtranclp.rtrancl_into_rtrancl notice_step\<close>)
qed

lemma isActive_iff: "isActive run \<longleftrightarrow> \<not> isTerminalPhase (run_Phase run)"
  by (cases "run_Phase run") (simp_all add: isActive_def isTerminalPhase_def)

section \<open>One server for both\<close>

definition systemKube :: "cluster kube" where
  "systemKube = mergeKube\<lparr>k_get_suite := k_get_suite suiteKube, k_list_runs := k_list_runs suiteKube,
     k_update_suite_status := k_update_suite_status suiteKube\<rparr>"

lemma systemKube_simps [simp]:
  "k_now systemKube = cl_now" "k_get_run systemKube = k_get_run mergeKube" "k_get_suite systemKube = k_get_suite suiteKube"
  "k_get_sa systemKube = k_get_sa mergeKube" "k_get_job systemKube = k_get_job mergeKube"
  "k_create_job systemKube = k_create_job mergeKube" "k_apply_status systemKube = k_apply_status mergeKube"
  "k_list_runs systemKube = k_list_runs suiteKube" "k_create_run systemKube = k_create_run suiteKube"
  "k_delete_run systemKube = k_delete_run suiteKube"
  "k_update_suite_status systemKube = k_update_suite_status suiteKube"
  by (simp_all add: systemKube_def mergeKube_def suiteKube_def versionKube_def clusterKube_def)

lemma suiteKube_get [simp]: "snd (k_get_suite suiteKube k w) = w"
  by (simp add: suiteKube_def versionKube_def)

interpretation system_runs: run_manager stored_run systemKube mergePkgs look_job
proof
  fix w :: cluster
  show "fst (k_get_run systemKube k w) = Inr run \<Longrightarrow> stored_run w k = Some run \<and> meta_key (run_Meta run) = k" for k run
    using merged.get_run by simp
  show "fst (k_get_run systemKube k w) = Inl NotFound \<Longrightarrow> stored_run w k = None" for k
    using managed.run_absent by simp
  show "k_apply_status systemKube (statusDocument run m) checkRunFieldManager w = (None, w') \<Longrightarrow>
      stored_run w (meta_key (run_Meta run)) = Some run \<Longrightarrow> p_status_map mergePkgs (newStatus mergePkgs run cs) = Inr m \<Longrightarrow>
      stored_run w' = (stored_run w)(meta_key (run_Meta run) \<mapsto> applied mergePkgs run cs)" for run m w' cs
    using merged.apply_done by simp
qed (use merged.frame merged.apply_refused managed.job_present managed.job_absent managed.jobs_kept in \<open>simp_all\<close>)

interpretation system_loops: run_loop stored_run systemKube mergePkgs look_job
proof
  fix w :: cluster
  show "k_get_job systemKube k w = (case look_job w k of None \<Rightarrow> Inl NotFound | Some ob \<Rightarrow> Inr ob, w)" for k
    using answered.get_look by simp
  show "look_job w (meta_key (job_Meta j)) \<noteq> None \<Longrightarrow> k_create_job systemKube j w = (Inl AlreadyExists, w)" for j
    using answered.create_existing by simp
  show "look_job w (meta_key (job_Meta j)) = None \<Longrightarrow> \<exists>j' w'. k_create_job systemKube j w = (Inr j', w')
      \<and> meta_key (job_Meta j') = meta_key (job_Meta j) \<and> look_job w' = (look_job w)(meta_key (job_Meta j) \<mapsto> j')" for j
    using answered.create_fresh by simp
qed (use answered.own_key answered.apply_ok loops.jobs_frame in \<open>simp_all\<close>)

interpretation system_suites: suite_manager stored_suite issued_versions systemKube mergePkgs stored_run
proof
  fix w :: cluster
  show "fst (k_get_suite systemKube k w) = Inr suite \<Longrightarrow> stored_suite w k = Some suite \<and> suite_Key suite = k"
    "fst (k_get_suite systemKube k w) = Inl NotFound \<Longrightarrow> stored_suite w k = None" for k suite
    using tidy.suite_present tidy.suite_absent by simp_all
  show "fst (k_list_runs systemKube ns (label, v) w) = Inr items \<Longrightarrow> distinct items
      \<and> set items = {run. (\<exists>k. stored_run w k = Some run) \<and> run_Namespace run = ns \<and> om_Labels (run_Meta run) label = Some v}"
    for ns label v items
    using tidy.list_present by simp
  show "untouched stored_suite issued_versions w (snd (k_get_run systemKube k w))" for k
    by (simp add: mergeKube_def)
qed (use tidy.get_suite tidy.list_runs tidy.create_run tidy.delete_run tidy.update_status tidy.runs_key tidy.runs_read
    tidy.delete_done tidy.update_done tidy.sorter tidy.ticks in \<open>simp_all add: mergePkgs_def whole_ticks_def\<close>)

interpretation system_suite_loops: suite_loop stored_suite issued_versions systemKube mergePkgs stored_run
proof
  show "stored_run (snd (k_get_run systemKube k w)) = stored_run w" for k w
    by (simp add: mergeKube_def)
  show "om_UID (suite_Meta x) = om_UID (suite_Meta y) \<Longrightarrow> p_controlled_by mergePkgs run x = p_controlled_by mergePkgs run y"
    "p_own_run mergePkgs suite run = Inr run' \<Longrightarrow> run_Status run' = run_Status run"
    "find_condition cs (cond_Type c) = Some c \<Longrightarrow> p_set_condition mergePkgs cs c = cs" for x y suite run run' cs c
    using tidy_loop.controlled_uid [of x y run] tidy_loop.own_status [of suite run run'] tidy_loop.set_same [of cs c]
    by (simp_all add: mergePkgs_def)
qed (use tidy_loop.get_ok tidy_loop.list_ok tidy_loop.update_ok tidy_loop.update_same tidy_loop.create_sent
    upsert.find_set upsert.distinct_set in \<open>simp_all add: mergePkgs_def\<close>)

end
