(* ===== verification/Manager_Properties.thy ===== *)
theory Manager_Properties
  imports Whole_System Lifecycle_Properties
begin

text \<open>
  The controllers in the loop of the manager. The histories are those of \<open>manager_step\<close>: passes for requests
  that are waiting, with any of their calls failing, timers that run out, and between them any change
  whatever of the world, by users, pods, the kubelet or the other controller. The witnesses are
  histories on a server that holds a suite half through its minute and a run that waits for its results.
\<close>

section \<open>A suite and its run\<close>

text \<open>The status of the suite is right: it lists the run, and the last tick has been handled.\<close>

definition busySuite :: CheckSuite where
  "busySuite = (sampleSuite AllowConcurrent '''')\<lparr>suite_Status :=
     \<lparr>sst_ObservedGeneration = 1, sst_LastScheduleTime = Some 0, sst_LastManualTrigger = '''',
      sst_Active = [runRef startedRun],
      sst_Conditions = [scheduleCondition (sampleSuite AllowConcurrent '''') ConditionTrue ''Parsed''
        (Sprintf ''schedule parsed successfully'' [])]\<rparr>\<rparr>"

definition busyWorld :: cluster where
  "busyWorld = world (sampleCluster 0 [startedRun] busySuite [completeJob])"

lemma busyWorld_runs: "stored_run busyWorld = [demoKey \<mapsto> startedRun]" "tidy_runs busyWorld = [startedRun]"
  using startedRun_names
  by (auto simp: busyWorld_def sampleCluster_def stored_run_def look_run_def tidy_runs_def runKey_def meta_key_def fun_eq_iff)

lemma busyWorld_suites: "stored_suite busyWorld = [demoKey \<mapsto> busySuite]"
  by (auto simp: busyWorld_def stored_suite_def sampleCluster_def busySuite_def sampleSuite_def newMeta_def meta_key_def fun_eq_iff)

lemma busyWorld_clock: "cl_now busyWorld = 0"
  by (simp add: busyWorld_def sampleCluster_def)

lemma startedRun_own:
  "run_Phase startedRun = CheckRunRunning" "om_Labels (run_Meta startedRun) = [labelSuite \<mapsto> ''demo'']"
  "om_Controller (run_Meta startedRun) = Some \<lparr>ow_APIVersion = SchemeGroupVersion, ow_Kind = ''CheckSuite'', ow_Name = ''demo'', ow_UID = ''uid-demo''\<rparr>"
  by (simp_all add: startedRun_def sampleRun_def newMeta_def)

lemma busySuite_fields:
  "ss_Schedule (suite_Spec busySuite) = Some ''* * * * *''" "ss_Suspend (suite_Spec busySuite) = None"
  "ss_HistoryLimit (suite_Spec busySuite) = None" "suite_Last busySuite = Some 0"
  "om_Annotations (suite_Meta busySuite) = Map.empty" "suite_Name busySuite = ''demo''" "suite_Namespace busySuite = ''prod''"
  "om_UID (suite_Meta busySuite) = ''uid-demo''"
  by (simp_all add: busySuite_def sampleSuite_def newMeta_def)

text \<open>A pass over the suite, with any of its runs active, finds nothing to do before the next minute.\<close>

definition busyWith :: "string \<Rightarrow> ObjectReference list \<Rightarrow> CheckSuite" where
  "busyWith v refs = busySuite\<lparr>suite_Meta := (suite_Meta busySuite)\<lparr>om_ResourceVersion := v\<rparr>,
     suite_Status := (suite_Status busySuite)\<lparr>sst_Active := refs\<rparr>\<rparr>"

definition running_own :: "CheckRun \<Rightarrow> bool" where
  "running_own run \<longleftrightarrow> run_Phase run = CheckRunRunning \<and> om_Controller (run_Meta run) = om_Controller (run_Meta startedRun)
     \<and> om_Labels (run_Meta run) = [labelSuite \<mapsto> ''demo''] \<and> run_Namespace run = ''prod''"

lemma busyWith_fields [simp]:
  "suite_Spec (busyWith v refs) = suite_Spec busySuite" "suite_Last (busyWith v refs) = Some 0"
  "om_Annotations (suite_Meta (busyWith v refs)) = Map.empty" "suite_Name (busyWith v refs) = ''demo''"
  "suite_Namespace (busyWith v refs) = ''prod''" "om_UID (suite_Meta (busyWith v refs)) = ''uid-demo''"
  "suite_Key (busyWith v refs) = demoKey" "suite_Version (busyWith v refs) = v"
  "sst_Active (suite_Status (busyWith v refs)) = refs"
  by (simp_all add: busyWith_def busySuite_fields) (simp_all add: busySuite_def sampleSuite_def newMeta_def meta_key_def)

lemma busy_pass:
  assumes "stored_suite w demoKey = Some (busyWith v refs)" and "\<forall>run \<in> set (tidy_runs w). running_own run" and "cl_now w = 0"
  shows "suite_pass systemKube mergePkgs demoKey w = (Inr Minute, snd (cl_update_suite (busyWith v (activeRefs (tidy_runs w))) w))"
proof -
  let ?x = "busyWith v refs" and ?rs = "tidy_runs w"
  have get: "k_get_suite suiteKube demoKey w = (Inr ?x, w)"
    using assms(1) by (simp add: suiteKube_def versionKube_def found_def)
  have list: "k_list_runs suiteKube ''prod'' (labelSuite, ''demo'') w = (Inr ?rs, w)"
    using assms(2) by (simp add: suiteKube_def running_own_def)
  have label: "label63 ''demo'' = ''demo''" by code_simp
  have own: "filter (\<lambda>run. p_controlled_by mergePkgs run ?x) ?rs = ?rs" "filter isActive ?rs = ?rs"
      "filter (\<lambda>run. run_Phase run = CheckRunSucceeded) ?rs = []"
      "filter (\<lambda>run. run_Phase run = CheckRunFailed \<or> run_Phase run = CheckRunError) ?rs = []"
    using assms(2) by (simp_all add: filter_id_conv filter_empty_conv running_own_def mergePkgs_def refPkgs_def startedRun_own isActive_def)
  have parse: "p_parse_cron mergePkgs ''* * * * *'' = Inr (everyNext Minute)" by (simp add: mergePkgs_def refPkgs_def)
  have nxt: "mostRecentScheduleTime (everyNext 60000000000) 0 0 = (None, 60000000000, False)"
    by (simp add: mostRecentScheduleTime_def scanTicks.simps after_def everyNext_def)
  let ?st = "setCondition mergePkgs (scheduleCondition ?x ConditionTrue ''Parsed''
    (Sprintf ''schedule parsed successfully'' [])) ((suite_Status ?x)
      \<lparr>sst_ObservedGeneration := om_Generation (suite_Meta ?x), sst_Active := activeRefs ?rs\<rparr>)"
  have same: "?x\<lparr>suite_Status := ?st\<rparr> = busyWith v (activeRefs ?rs)"
    by (simp add: busyWith_def setCondition_def scheduleCondition_def busySuite_def sampleSuite_def newMeta_def)
  have "fst (cl_update_suite (busyWith v (activeRefs ?rs)) w) = None"
    using assms(1) by (simp add: cl_update_suite_def)
  then have put: "k_update_suite_status suiteKube (?x\<lparr>suite_Status := ?st\<rparr>) w =
      (None, snd (cl_update_suite (busyWith v (activeRefs ?rs)) w))"
    unfolding same by (simp add: suiteKube_def versionKube_def prod_eq_iff)
  have last: "sst_LastScheduleTime (setCondition mergePkgs c status) = sst_LastScheduleTime status" for c status
    by (simp add: setCondition_def)
  show ?thesis
    by (simp add: suite_pass_def CheckSuite_Reconcile_def perform_def get list label own assms(3) Let_def gcRuns_def
        historyLimits_def busySuite_fields last manualTrigger_def handleSchedule_def parse nxt done_with_def updateStatus_def
        put time_sub_def)
qed

lemma busyWith_wire: "suite_wire (suite_Status (busyWith v refs)) = suite_Status (busyWith v refs)"
  by (simp add: busyWith_def busySuite_def suite_wire_def whole_second_def)

lemma busySuite_with: "busySuite = busyWith (suite_Version busySuite) [runRef startedRun]"
  by (simp add: busyWith_def busySuite_def)

lemma busy_suite_pass: "suite_pass systemKube mergePkgs demoKey busyWorld = (Inr Minute, busyWorld)"
proof -
  let ?x = "busyWith (suite_Version busySuite) [runRef startedRun]"
  have st: "stored_suite busyWorld demoKey = Some ?x" using busySuite_with by (simp add: busyWorld_suites)
  have "cl_update_suite ?x busyWorld = (None, busyWorld)"
    by (simp add: cl_update_suite_def st busyWith_wire)
  moreover have "running_own startedRun" by (simp add: running_own_def startedRun_own startedRun_names)
  ultimately show ?thesis
    using busy_pass [OF st] by (simp add: busyWorld_runs busyWorld_clock activeRefs_def)
qed

text \<open>A pass over the run finds nothing to do before its deadline.\<close>

lemma busy_run_pass:
  obtains w where "run_pass systemKube mergePkgs sampleReconciler demoKey busyWorld = (Inr (601 * Second), w)"
    "stored_run w = stored_run busyWorld" "look_job w = look_job busyWorld" "stored_suite w = stored_suite busyWorld"
    "cl_now w = 0"
proof -
  let ?w = busyWorld
  have st: "stored_run ?w demoKey = Some startedRun" by (simp add: busyWorld_runs)
  have get: "k_get_run mergeKube demoKey ?w = (Inr startedRun, ?w)" by (simp add: mergeKube_def found_def st)
  have spec: "tpl_Runners (run_Template startedRun) = [zoneRunner]" "tpl_Timeout (run_Template startedRun) = None"
    "rn_Name zoneRunner = ''zone-a''" "jobName ''demo'' ''zone-a'' = ''demo-zone-a''" "\<not> reported startedRun"
    by (simp_all add: startedRun_def sampleRun_def webTemplate_def zoneRunner_def jobName_short reported_def podsByRunner_def)
  have job: "jobSucceeded completeJob" "\<not> jobFailed completeJob"
    by (simp_all add: completeJob_def jobSucceeded_def jobFailed_def)
  have got: "k_get_job mergeKube (''prod'', ''demo-zone-a'') ?w = (Inr completeJob, ?w)"
    by (simp add: mergeKube_def clusterKube_def found_def look_job_def busyWorld_def sampleCluster_def completeJob_def
        newMeta_def meta_key_def)
  have put: "k_apply_status mergeKube (statusDocument startedRun m) checkRunFieldManager w =
      (None, merge_into demoKey (filter (\<lambda>(key, _). key \<noteq> ''runners'') m) w)" for m w
    by (simp add: mergeKube_def statusDocument_def startedRun_names)
  let ?m = "filter (\<lambda>(key, _). key \<noteq> ''runners'') (encode_status (newStatus mergePkgs startedRun (runningStatus startedRun 0)))"
  have pass: "run_pass systemKube mergePkgs sampleReconciler demoKey ?w = (Inr (601 * Second), merge_into demoKey ?m ?w)"
    by (simp add: run_pass_def CheckRun_Reconcile_def perform_def get startedRun_state isTerminalPhase_def spec startedRun_names
        got busyWorld_clock defaultRunTimeout_def reconcileJobs_def after_def time_add_def job warnOnForeignPodEntries_def
        aggregate_eq stillRunning_def applyStatus_def put Let_def time_sub_def dur_add_def wrap64_def)
  show thesis
  proof (rule that [OF pass])
    have "decode_status ?m (st_Runners (run_Status startedRun)) = run_Status startedRun"
      unfolding decode_encode by (simp add: wire_def newStatus_def runningStatus_def startedRun_def sampleRun_def newMeta_def whole_second_def)
    then show "stored_run (merge_into demoKey ?m ?w) = stored_run ?w" "look_job (merge_into demoKey ?m ?w) = look_job ?w"
      "stored_suite (merge_into demoKey ?m ?w) = stored_suite ?w" "cl_now (merge_into demoKey ?m ?w) = 0"
      using st busyWorld_clock startedRun_names by (auto simp: merge_into_def stored_update meta_key_def fun_eq_iff)
  qed
qed

text \<open>The steps that make these passes; each leaves its controller with a timer and nothing to do.\<close>

abbreviation run_steps :: "cluster manager \<Rightarrow> cluster manager \<Rightarrow> bool" where
  "run_steps \<equiv> manager_step (k_now systemKube) (run_requests stored_run look_job)
     (run_pass systemKube mergePkgs sampleReconciler) (run_orderly systemKube stored_run 0)"

abbreviation suite_steps :: "cluster manager \<Rightarrow> cluster manager \<Rightarrow> bool" where
  "suite_steps \<equiv> manager_step (k_now systemKube) (suite_requests stored_suite stored_run)
     (suite_pass systemKube mergePkgs) (suite_orderly systemKube mergePkgs stored_suite stored_run 0)"

abbreviation waits :: "cluster \<Rightarrow> duration \<Rightarrow> cluster manager" where
  "waits w d \<equiv> \<lparr>mg_world = w, mg_queue = {}, mg_timers = [demoKey \<mapsto> d]\<rparr>"

lemma no_requests:
  "stored_run v = stored_run w \<Longrightarrow> look_job v = look_job w \<Longrightarrow> run_requests stored_run look_job v w = {}"
  "stored_suite v = stored_suite w \<Longrightarrow> stored_run v = stored_run w \<Longrightarrow> suite_requests stored_suite stored_run v w = {}"
  by (simp_all add: run_requests_def suite_requests_def requests_def changed_def run_objects_def suite_objects_def)

lemma waits_caught_up: "cl_now w < d \<Longrightarrow> caught_up (k_now systemKube) (waits w d)"
  by (simp add: caught_up_def)

lemma busy_suite_step: "suite_steps (started stored_suite busyWorld) (waits busyWorld Minute)"
proof -
  have "nextTick mergePkgs busySuite = Some Minute"
    by (simp add: nextTick_def busySuite_fields mergePkgs_def refPkgs_def everyNext_def)
  then have orderly: "suite_orderly systemKube mergePkgs stored_suite stored_run 0 demoKey busyWorld busyWorld"
    by (auto simp: suite_orderly_def Let_def busyWorld_suites busyWorld_runs busyWorld_clock names_suite_def controlling_def
        startedRun_own startedRun_names)
  have start: "demoKey \<in> mg_queue (started stored_suite busyWorld)" "mg_world (started stored_suite busyWorld) = busyWorld"
    by (simp_all add: started_def busyWorld_suites)
  let ?s = "handle_result demoKey (k_now systemKube busyWorld) (Inr Minute) ((started stored_suite busyWorld)
    \<lparr>mg_world := busyWorld, mg_queue := mg_queue (started stored_suite busyWorld) - {demoKey}
       \<union> suite_requests stored_suite stored_run (mg_world (started stored_suite busyWorld)) busyWorld\<rparr>)"
  have "suite_steps (started stored_suite busyWorld) ?s"
    by (rule manager_step.work [OF start(1)]) (simp_all only: start(2) busy_suite_pass orderly)
  moreover have "?s = waits busyWorld Minute"
    by (simp add: handle_result_def started_def busyWorld_suites no_requests add_after_def busyWorld_clock)
  ultimately show ?thesis by simp
qed

lemma busy_run_step:
  obtains w where "run_steps (started stored_run busyWorld) (waits w (601 * Second))"
    "stored_run w = stored_run busyWorld" "look_job w = look_job busyWorld" "stored_suite w = stored_suite busyWorld"
    "cl_now w = 0"
proof -
  obtain w where w: "run_pass systemKube mergePkgs sampleReconciler demoKey busyWorld = (Inr (601 * Second), w)"
    "stored_run w = stored_run busyWorld" "look_job w = look_job busyWorld" "stored_suite w = stored_suite busyWorld"
    "cl_now w = 0" by (rule busy_run_pass)
  have orderly: "run_orderly systemKube stored_run 0 demoKey busyWorld w"
    by (simp add: run_orderly_def Let_def w(5) busyWorld_runs startedRun_state) (simp add: mergeKube_def busyWorld_clock)
  have start: "demoKey \<in> mg_queue (started stored_run busyWorld)" "mg_world (started stored_run busyWorld) = busyWorld"
    by (simp_all add: started_def busyWorld_runs)
  let ?s = "handle_result demoKey (k_now systemKube w) (Inr (601 * Second)) ((started stored_run busyWorld)
    \<lparr>mg_world := w, mg_queue := mg_queue (started stored_run busyWorld) - {demoKey}
       \<union> run_requests stored_run look_job (mg_world (started stored_run busyWorld)) w\<rparr>)"
  have "run_steps (started stored_run busyWorld) ?s"
    by (rule manager_step.work [OF start(1)]) (simp_all only: start(2) w(1) orderly)
  moreover have "?s = waits w (601 * Second)"
    by (simp add: handle_result_def started_def busyWorld_runs no_requests add_after_def w)
  ultimately show thesis using w by (intro that [of w]) simp_all
qed

section \<open>CheckRuns\<close>

text \<open>C6: no run is forgotten: when the controller has caught up, a run that is not terminal has a start, its
  deadline has passed by no more than a second and the slack of the clocks, none of its own Jobs has
  failed, and it is not the case that all have succeeded and the results are in.\<close>

theorem caught_up_runs_settled:
  assumes "run_manager stored K P jobs"
    and "(manager_step (k_now K) (run_requests stored jobs) (run_pass K P r) (run_orderly K stored slack))\<^sup>*\<^sup>*
      (started stored w) s"
    and "caught_up (k_now K) s" and "stored (mg_world s) key = Some run" and "\<not> isTerminalPhase (run_Phase run)"
  shows "\<exists>start. st_StartTime (run_Status run) = Some start
    \<and> k_now K (mg_world s) < time_add start (runTimeout run) + Second + slack \<and> \<not> decidable jobs (mg_world s) key run"
  by (rule run_manager.caught_up_run [OF assms]) blast

theorem caught_up_runs_settled_witness:
  "\<exists>s run start. run_steps\<^sup>*\<^sup>* (started stored_run busyWorld) s
     \<and> caught_up (k_now systemKube) s \<and> stored_run (mg_world s) demoKey = Some run \<and> \<not> isTerminalPhase (run_Phase run)
     \<and> st_StartTime (run_Status run) = Some start
     \<and> k_now systemKube (mg_world s) < time_add start (runTimeout run) + Second
     \<and> \<not> decidable look_job (mg_world s) demoKey run"
proof -
  obtain w where w: "run_steps (started stored_run busyWorld) (waits w (601 * Second))"
    "stored_run w = stored_run busyWorld" "cl_now w = 0" by (rule busy_run_step)
  from w(1) have path: "run_steps\<^sup>*\<^sup>* (started stored_run busyWorld) (waits w (601 * Second))" by (rule r_into_rtranclp)
  have up: "caught_up (k_now systemKube) (waits w (601 * Second))" by (rule waits_caught_up) (simp add: w(3))
  have run: "stored_run (mg_world (waits w (601 * Second))) demoKey = Some startedRun" "\<not> isTerminalPhase (run_Phase startedRun)"
    by (simp_all add: w(2) busyWorld_runs startedRun_state isTerminalPhase_def)
  from caught_up_runs_settled [OF system_runs.run_manager_axioms path up run] path up run show ?thesis by fastforce
qed

text \<open>C9: a controller does not keep itself busy: on a server that answers, when a run is reconciled a second
  time, say because of the changes of the first pass, and its deadline has not come in between, the second pass
  changes neither a run nor a Job, so no request follows from it.\<close>

theorem second_pass_quiet:
  assumes "run_loop stored K P jobs"
    and "run_pass K P r key w = (Inr d, w')" and "run_pass K P r key w' = (res, w'')"
    and "\<And>run. stored w' key = Some run \<Longrightarrow> \<not> isTerminalPhase (run_Phase run) \<Longrightarrow>
      \<not> overdue run (k_now K (snd (k_get_run K key w'))) (runTimeout run)"
  shows "stored w'' = stored w' \<and> jobs w'' = jobs w' \<and> run_requests stored jobs w' w'' = {}"
proof -
  have "stored w'' = stored w' \<and> jobs w'' = jobs w'" using assms by (rule run_loop.second_pass)
  then show ?thesis by (simp add: run_requests_def requests_def changed_def run_objects_def)
qed

theorem second_pass_quiet_witness:
  "\<exists>w d. run_pass systemKube mergePkgs sampleReconciler demoKey busyWorld = (Inr d, w)
     \<and> stored_run (snd (run_pass systemKube mergePkgs sampleReconciler demoKey w)) = stored_run w"
proof -
  obtain w where w: "run_pass systemKube mergePkgs sampleReconciler demoKey busyWorld = (Inr (601 * Second), w)"
    "stored_run w = stored_run busyWorld" "cl_now w = 0" by (rule busy_run_pass)
  have "\<not> overdue run (k_now systemKube (snd (k_get_run systemKube demoKey w))) (runTimeout run)"
    if "stored_run w demoKey = Some run" for run
    using that by (simp add: w(2) busyWorld_runs overdue_def startedRun_state mergeKube_def w(3))
      (auto simp: startedRun_state overdue_def time_add_def)
  from second_pass_quiet [OF system_loops.run_loop_axioms w(1) surjective_pairing this] w(1) show ?thesis by blast
qed

section \<open>CheckSuites\<close>

lemma busy_ticking: "ticking mergePkgs busySuite"
proof -
  have "ticking refPkgs busySuite" by (rule refPkgs_ticking) (simp add: busySuite_fields)
  then show ?thesis by (simp add: ticking_def mergePkgs_def)
qed

text \<open>C15: no suite is forgotten: when the controller has caught up, the run-now annotation of every suite has been
  handled, and for a suite without a schedule in force, or with one that goes on, no tick is due, up to the slack of the
  clocks, the status is that of the present generation and lists exactly its active runs, and the history is within the
  limits. For a schedule that never fires the zero time is due forever.\<close>

theorem caught_up_suites_settled:
  assumes "suite_manager stored issued K P runs"
    and "(manager_step (k_now K) (suite_requests stored runs) (suite_pass K P) (suite_orderly K P stored runs slack))\<^sup>*\<^sup>*
      (started stored w) s"
    and "caught_up (k_now K) s" and "stored (mg_world s) key = Some suite"
  shows "\<not> triggered suite \<and> (ticking P suite \<longrightarrow> dueTick P suite (k_now K (mg_world s) - slack) (suite_Status suite) = None
    \<and> exact_status (own_runs runs P key suite (mg_world s)) suite
    \<and> within_limits (own_runs runs P key suite (mg_world s)) suite)"
  using assms by (rule suite_manager.caught_up_suite)

theorem caught_up_suites_settled_witness:
  "\<exists>s. suite_steps\<^sup>*\<^sup>* (started stored_suite busyWorld) s
     \<and> caught_up (k_now systemKube) s \<and> stored_suite (mg_world s) demoKey = Some busySuite \<and> \<not> triggered busySuite
     \<and> dueTick mergePkgs busySuite (k_now systemKube (mg_world s)) (suite_Status busySuite) = None"
proof -
  have path: "suite_steps\<^sup>*\<^sup>* (started stored_suite busyWorld) (waits busyWorld Minute)"
    using busy_suite_step by (rule r_into_rtranclp)
  have up: "caught_up (k_now systemKube) (waits busyWorld Minute)" by (rule waits_caught_up) (simp add: busyWorld_clock)
  have suite: "stored_suite (mg_world (waits busyWorld Minute)) demoKey = Some busySuite" by (simp add: busyWorld_suites)
  from caught_up_suites_settled [OF system_suites.suite_manager_axioms path up suite] path up suite busy_ticking
  show ?thesis by fastforce
qed

section \<open>Both together\<close>

text \<open>C5: the two controllers at work on one world, their steps in any order: when both have caught up, the active
  list of a suite without a schedule in force, or with one that goes on, and the runs agree: every entry is a stored run of the suite that has been started, is not
  decided and within its deadline, up to a second and the slack of the clocks, and every run of the suite that is
  not terminal has its entry.\<close>

theorem controllers_agree:
  assumes "run_manager stored_runs K P jobs" and "suite_manager stored_suites issued K P stored_runs"
    and "(system_step
        (manager_step (k_now K) (run_requests stored_runs jobs) (run_pass K P r) (run_orderly K stored_runs slack))
        (run_requests stored_runs jobs)
        (manager_step (k_now K) (suite_requests stored_suites stored_runs) (suite_pass K P)
          (suite_orderly K P stored_suites stored_runs slack))
        (suite_requests stored_suites stored_runs))\<^sup>*\<^sup>* (started stored_runs w, started stored_suites w) (a, b)"
    and "caught_up (k_now K) a" and "caught_up (k_now K) b" and "stored_suites (mg_world a) key = Some suite"
    and "ticking P suite"
  shows "set (sst_Active (suite_Status suite)) =
      runRef ` {run \<in> own_runs stored_runs P key suite (mg_world a). \<not> isTerminalPhase (run_Phase run)}
    \<and> (\<forall>run \<in> own_runs stored_runs P key suite (mg_world a). \<not> isTerminalPhase (run_Phase run) \<longrightarrow>
        stored_runs (mg_world a) (runKey run) = Some run
        \<and> (\<exists>start. st_StartTime (run_Status run) = Some start
             \<and> k_now K (mg_world a) < time_add start (runTimeout run) + Second + slack)
        \<and> \<not> decidable jobs (mg_world a) (runKey run) run)"
proof -
  let ?own = "own_runs stored_runs P key suite (mg_world a)"
  have "mg_world (started stored_runs w) = mg_world (started stored_suites w)" by (simp add: started_def)
  from system_parts [OF assms(3) this] have parts:
    "(manager_step (k_now K) (run_requests stored_runs jobs) (run_pass K P r) (run_orderly K stored_runs slack))\<^sup>*\<^sup>*
      (started stored_runs w) a"
    "(manager_step (k_now K) (suite_requests stored_suites stored_runs) (suite_pass K P)
      (suite_orderly K P stored_suites stored_runs slack))\<^sup>*\<^sup>* (started stored_suites w) b"
    and world: "mg_world a = mg_world b" by simp_all
  have "exact_status ?own suite"
    using suite_manager.caught_up_suite [OF assms(2) parts(2) assms(5)] assms(6,7) unfolding world by simp
  then have "set (sst_Active (suite_Status suite)) = runRef ` {run \<in> ?own. \<not> isTerminalPhase (run_Phase run)}"
    by (simp add: exact_status_def isActive_iff)
  moreover have "stored_runs (mg_world a) (runKey run) = Some run
        \<and> (\<exists>start. st_StartTime (run_Status run) = Some start
             \<and> k_now K (mg_world a) < time_add start (runTimeout run) + Second + slack)
        \<and> \<not> decidable jobs (mg_world a) (runKey run) run"
    if run: "run \<in> ?own" "\<not> isTerminalPhase (run_Phase run)" for run
  proof -
    from run(1) obtain k where "stored_runs (mg_world a) k = Some run" unfolding own_runs_def by blast
    then have at: "stored_runs (mg_world a) (runKey run) = Some run"
      using suite_manager.runs_key [OF assms(2)] by metis
    with run_manager.caught_up_run [OF assms(1) parts(1) assms(4) at run(2)] show ?thesis by metis
  qed
  ultimately show ?thesis by blast
qed

theorem controllers_agree_witness:
  "\<exists>a b. (system_step run_steps (run_requests stored_run look_job) suite_steps (suite_requests stored_suite stored_run))\<^sup>*\<^sup>*
       (started stored_run busyWorld, started stored_suite busyWorld) (a, b)
     \<and> caught_up (k_now systemKube) a \<and> caught_up (k_now systemKube) b \<and> stored_suite (mg_world a) demoKey = Some busySuite
     \<and> set (sst_Active (suite_Status busySuite)) =
       runRef ` {run \<in> own_runs stored_run mergePkgs demoKey busySuite (mg_world a). \<not> isTerminalPhase (run_Phase run)}"
proof -
  let ?runs = "run_requests stored_run look_job" and ?suites = "suite_requests stored_suite stored_run"
  let ?sys = "system_step run_steps ?runs suite_steps ?suites" and ?a = "started stored_run busyWorld"
  obtain w where w: "run_steps ?a (waits w (601 * Second))"
    "stored_run w = stored_run busyWorld" "stored_suite w = stored_suite busyWorld" "cl_now w = 0" by (rule busy_run_step)
  have "notice ?runs (mg_world (waits busyWorld Minute)) ?a = ?a"
    by (simp add: notice_def started_def no_requests)
  with system_step.other [where ?step2.0 = suite_steps and ?step1.0 = run_steps and ?events1.0 = ?runs
      and ?events2.0 = ?suites and a = ?a, OF busy_suite_step]
  have one: "?sys (?a, started stored_suite busyWorld) (?a, waits busyWorld Minute)" by simp
  have "notice ?suites (mg_world (waits w (601 * Second))) (waits busyWorld Minute) = waits w Minute"
    by (simp add: notice_def no_requests w(2,3))
  with system_step.one [where ?step2.0 = suite_steps and ?step1.0 = run_steps and ?events1.0 = ?runs
      and ?events2.0 = ?suites and b = "waits busyWorld Minute", OF w(1)]
  have "?sys (?a, waits busyWorld Minute) (waits w (601 * Second), waits w Minute)" by simp
  with one have path: "?sys\<^sup>*\<^sup>* (?a, started stored_suite busyWorld) (waits w (601 * Second), waits w Minute)"
    by (rule converse_rtranclp_into_rtranclp [OF _ r_into_rtranclp])
  have up: "caught_up (k_now systemKube) (waits w (601 * Second))" "caught_up (k_now systemKube) (waits w Minute)"
    by (rule waits_caught_up, simp add: w(4))+
  have suite: "stored_suite (mg_world (waits w (601 * Second))) demoKey = Some busySuite" by (simp add: w(3) busyWorld_suites)
  from controllers_agree [OF system_runs.run_manager_axioms system_suites.suite_manager_axioms path up suite busy_ticking] path up suite
  show ?thesis by blast
qed

end
