(* ===== verification/Suite_Loop_Properties.thy ===== *)
theory Suite_Loop_Properties
  imports Manager_Properties
begin

text \<open>
  What keeps the controller of suites busy. The list of active runs in the status of a suite is made anew by
  every pass, in the order in which the runs are listed. The cache of controller-runtime promises no order, so
  the properties say what holds in any order and what needs the same one twice. The witnesses are about
  a suite with two active runs that its status has in the reverse of the order in which they are listed.
\<close>

section \<open>Two runs in the other order\<close>

definition otherRun :: CheckRun where
  "otherRun = startedRun\<lparr>run_Meta := (run_Meta startedRun)\<lparr>om_Name := ''demo-2'', om_UID := ''uid-demo-2''\<rparr>\<rparr>"

definition twoRuns :: "CheckRun list" where
  "twoRuns = [startedRun, otherRun]"

definition shuffledWorld :: cluster where
  "shuffledWorld = world (sampleCluster 0 twoRuns (busyWith ''1'' (rev (activeRefs twoRuns))) [])"

lemma twoRuns_own: "\<forall>run \<in> set twoRuns. running_own run"
  by (simp add: twoRuns_def otherRun_def running_own_def startedRun_own startedRun_names)

lemma tidy_two: "cl_runs w = map (\<lambda>r. (runKey r, r)) twoRuns \<Longrightarrow> tidy_runs w = twoRuns"
  by (simp add: tidy_runs_def twoRuns_def otherRun_def runKey_def meta_key_def startedRun_names)

lemma shuffledWorld_parts:
  "stored_suite shuffledWorld = [demoKey \<mapsto> busyWith ''1'' (rev (activeRefs twoRuns))]" "cl_now shuffledWorld = 0"
  "tidy_runs shuffledWorld = twoRuns"
proof -
  have "cl_suites shuffledWorld = [(demoKey, busyWith ''1'' (rev (activeRefs twoRuns)))]"
    by (simp add: shuffledWorld_def sampleCluster_def)
  then show "stored_suite shuffledWorld = [demoKey \<mapsto> busyWith ''1'' (rev (activeRefs twoRuns))]"
    by (auto simp: stored_suite_def fun_eq_iff)
  show "cl_now shuffledWorld = 0" by (simp add: shuffledWorld_def sampleCluster_def)
  show "tidy_runs shuffledWorld = twoRuns" by (rule tidy_two) (simp add: shuffledWorld_def sampleCluster_def)
qed

lemma two_differ: "rev (activeRefs twoRuns) \<noteq> activeRefs twoRuns"
  by (simp add: activeRefs_def twoRuns_def otherRun_def runRef_def startedRun_def sampleRun_def newMeta_def)

text \<open>The listing of a world and the state a pass finds there.\<close>

lemma busy_listing:
  assumes "stored_suite w demoKey = Some (busyWith v refs)" and "tidy_runs w = twoRuns"
  shows "listing systemKube demoKey w = twoRuns" and "activeRuns mergePkgs (busyWith v refs) twoRuns = twoRuns"
proof -
  have label: "label63 ''demo'' = ''demo''" by code_simp
  show "listing systemKube demoKey w = twoRuns"
    using assms twoRuns_own by (simp add: listing_def suiteKube_def versionKube_def found_def listSelector_def label running_own_def)
  show "activeRuns mergePkgs (busyWith v refs) twoRuns = twoRuns"
    using twoRuns_own by (simp add: activeRuns_def suiteRuns_def filter_id_conv running_own_def isActive_def mergePkgs_def
        refPkgs_def startedRun_own)
qed

lemma busy_not_due: "dueTick mergePkgs (busyWith v refs) 0 (suite_Status (busyWith v refs)) = None"
  by (rule dueTick_before) (auto simp: nextTick_def busySuite_fields mergePkgs_def refPkgs_def everyNext_def)

lemma busy_noted: "noted mergePkgs (busyWith v refs)"
proof -
  have "scheduleNote mergePkgs (busyWith v refs) =
      Some (scheduleCondition (busyWith v refs) ConditionTrue ''Parsed'' (Sprintf ''schedule parsed successfully'' []))"
    by (simp add: scheduleNote_def busySuite_fields mergePkgs_def refPkgs_def)
  then show ?thesis
    by (simp add: noted_def find_condition_def)
      (simp add: busyWith_def busySuite_def scheduleCondition_def sampleSuite_def newMeta_def whole_second_def)
qed

lemma busy_calm:
  assumes "stored_suite w demoKey = Some (busyWith v refs)" and "tidy_runs w = twoRuns" and "cl_now w = 0"
  shows "calm mergePkgs (k_now systemKube (snd (k_get_suite systemKube demoKey w)))
    (family stored_run mergePkgs (busyWith v refs) w) (busyWith v refs)"
proof -
  let ?own = "family stored_run mergePkgs (busyWith v refs) w"
  have "?own \<subseteq> set twoRuns" using tidy_runs_set [of w] assms(2) by (auto simp: family_def)
  then have none: "{run \<in> ?own. run_Phase run = CheckRunSucceeded} = {}"
    "{run \<in> ?own. run_Phase run = CheckRunFailed \<or> run_Phase run = CheckRunError} = {}"
    using twoRuns_own by (auto simp: running_own_def)
  have "\<not> triggered (busyWith v refs)" by (simp add: triggered_def runNow_def)
  moreover have "within_limits ?own (busyWith v refs)"
    unfolding within_limits_def none by (simp add: Let_def busySuite_fields historyLimits_def)
  ultimately show ?thesis using busy_not_due assms(3) by (simp add: calm_def)
qed

text \<open>The first pass puts the list into the order of the listing.\<close>

lemma shuffled_pass:
  obtains w v where "suite_pass systemKube mergePkgs demoKey shuffledWorld = (Inr Minute, w)"
    "stored_suite w demoKey = Some (busyWith v (activeRefs twoRuns))" "tidy_runs w = twoRuns" "cl_now w = 0"
proof -
  let ?x = "busyWith ''1'' (activeRefs twoRuns)" and ?old = "busyWith ''1'' (rev (activeRefs twoRuns))"
  let ?v = "itoa (cl_uid shuffledWorld + 1)" and ?w = "snd (cl_update_suite (busyWith ''1'' (activeRefs twoRuns)) shuffledWorld)"
  have "suite_wire (suite_Status ?x) \<noteq> suite_Status ?old"
  proof
    assume "suite_wire (suite_Status ?x) = suite_Status ?old"
    from arg_cong [OF this, of sst_Active] two_differ show False by (simp add: busyWith_wire)
  qed
  moreover have "?old\<lparr>suite_Meta := (suite_Meta ?old)\<lparr>om_ResourceVersion := ?v\<rparr>, suite_Status := suite_wire (suite_Status ?x)\<rparr> =
      busyWith ?v (activeRefs twoRuns)" unfolding busyWith_wire by (simp add: busyWith_def)
  ultimately have w: "?w = shuffledWorld\<lparr>cl_uid := cl_uid shuffledWorld + 1,
      cl_suites := AList.update demoKey (busyWith ?v (activeRefs twoRuns)) (cl_suites shuffledWorld)\<rparr>"
    by (simp add: cl_update_suite_def shuffledWorld_parts)
  show thesis
  proof (rule that)
    show "suite_pass systemKube mergePkgs demoKey shuffledWorld = (Inr Minute, ?w)"
      using busy_pass [of shuffledWorld "''1''" "rev (activeRefs twoRuns)"] twoRuns_own by (simp add: shuffledWorld_parts)
    show "stored_suite ?w demoKey = Some (busyWith ?v (activeRefs twoRuns))" unfolding w stored_suite_update by simp
    show "tidy_runs ?w = twoRuns" unfolding w by (rule tidy_two) (simp add: shuffledWorld_def sampleCluster_def)
    show "cl_now ?w = 0" unfolding w by (simp add: shuffledWorld_parts)
  qed
qed

lemma ordered_pass:
  assumes "stored_suite w demoKey = Some (busyWith v (activeRefs twoRuns))" and "tidy_runs w = twoRuns" and "cl_now w = 0"
  shows "suite_pass systemKube mergePkgs demoKey w = (Inr Minute, w)"
proof -
  have "snd (cl_update_suite (busyWith v (activeRefs twoRuns)) w) = w"
    by (simp add: cl_update_suite_def assms(1) busyWith_wire)
  then show ?thesis using busy_pass [OF assms(1)] assms(2,3) twoRuns_own by simp
qed

section \<open>What brings a suite back\<close>

text \<open>C11: when a suite has nothing left to do (no tick is due, the run-now value has been handled, its history is
  within the limits) and its status says so, then on a server that answers a pass over it succeeds and touches no
  run, and it changes the suite, which puts the suite back into the queue at once, exactly if the runs are listed in
  another order than the one the status has them in.\<close>

theorem list_order_requeues:
  assumes "suite_loop stored issued K P runs" and "stored w key = Some suite" and "noted P suite"
    and "calm P (k_now K (snd (k_get_suite K key w))) (family runs P suite w) suite" and "suite_pass K P key w = (res, w')"
  shows "res = Inr (requeueDelay P suite (k_now K (snd (k_get_suite K key w))) (suite_Status suite)) \<and> runs w' = runs w
    \<and> (key \<in> suite_requests stored runs w w' \<longleftrightarrow>
         sst_Active (suite_Status suite) \<noteq> activeRefs (activeRuns P suite (listing K key w)))"
proof -
  have "res = Inr (requeueDelay P suite (k_now K (snd (k_get_suite K key w))) (suite_Status suite))" "runs w' = runs w"
    by (rule suite_loop.calm_unchanged [OF assms(1-4)], use assms(5) in simp)+
  then show ?thesis using suite_loop.calm_requests [OF assms] by simp
qed

theorem list_order_requeues_witness:
  "\<exists>w. suite_pass systemKube mergePkgs demoKey shuffledWorld = (Inr Minute, w) \<and> stored_run w = stored_run shuffledWorld
     \<and> demoKey \<in> suite_requests stored_suite stored_run shuffledWorld w"
proof -
  obtain w where w: "suite_pass systemKube mergePkgs demoKey shuffledWorld = (Inr Minute, w)" by (rule shuffled_pass)
  have st: "stored_suite shuffledWorld demoKey = Some (busyWith ''1'' (rev (activeRefs twoRuns)))"
    by (simp add: shuffledWorld_parts)
  show ?thesis
    using list_order_requeues [OF system_suite_loops.suite_loop_axioms st busy_noted
        busy_calm [OF st shuffledWorld_parts(3,2)] w] w two_differ
    by (simp add: busy_listing [OF st shuffledWorld_parts(3)])
qed

text \<open>C10: the controller of suites does not keep itself busy otherwise: on a server that answers, after a pass that
  succeeds, whatever it had to create and to delete, a second pass, with no tick due in between, succeeds and changes
  no run, and a third one, with the runs in the same order, changes nothing at all, so no request follows from it.\<close>

theorem suite_passes_converge:
  assumes "suite_loop stored issued K P runs" and "stored w key = Some suite"
    and "suite_pass K P key w = (Inr d, w1)" and "suite_pass K P key w1 = (r2, w2)" and "suite_pass K P key w2 = (r3, w3)"
    and "between_ticks K P stored key w1" and "between_ticks K P stored key w2" and "listing K key w2 = listing K key w1"
  shows "(\<exists>d2. r2 = Inr d2) \<and> runs w2 = runs w1 \<and> (\<exists>d3. r3 = Inr d3) \<and> suite_requests stored runs w2 w3 = {}"
  using suite_loop.passes_converge [OF assms]
  by (simp add: suite_requests_def requests_def changed_def suite_objects_def)

theorem suite_passes_converge_witness:
  "\<exists>w. suite_pass systemKube mergePkgs demoKey shuffledWorld = (Inr Minute, w)
     \<and> suite_requests stored_suite stored_run w (snd (suite_pass systemKube mergePkgs demoKey w)) = {}"
proof -
  obtain w v where w: "suite_pass systemKube mergePkgs demoKey shuffledWorld = (Inr Minute, w)"
    "stored_suite w demoKey = Some (busyWith v (activeRefs twoRuns))" "tidy_runs w = twoRuns" "cl_now w = 0"
    by (rule shuffled_pass)
  note again = ordered_pass [OF w(2-4)]
  have quiet: "between_ticks systemKube mergePkgs stored_suite demoKey w"
    using busy_not_due by (simp add: between_ticks_def w(2,4))
  have "stored_suite shuffledWorld demoKey = Some (busyWith ''1'' (rev (activeRefs twoRuns)))" by (simp add: shuffledWorld_parts)
  from suite_passes_converge [OF system_suite_loops.suite_loop_axioms this w(1) again again quiet quiet refl] w(1) again
  show ?thesis by simp
qed

end
