(* ===== verification/Registration.thy ===== *)
theory Registration
  imports Manager Cmd
begin

text \<open>
  What the packages register when the program starts: the types of \<open>api/v1alpha1\<close> with the schemes of the
  two modes, and the collectors of \<open>internal/metrics\<close> with the registry of controller-runtime. A typed call on
  the API client fails unless the scheme recognises the kind of every object in it, a controller cannot be set
  up for a kind the scheme does not recognise, and an operation on a collector that is not registered is
  lost. The packages \<open>runtime\<close> and \<open>scheme\<close> of Kubernetes are the record \<open>apimachinery\<close> with the contract
  \<open>scheme_library\<close>; \<open>MustRegister\<close> has the contract \<open>registerer\<close>.
\<close>

section \<open>Collectors\<close>

definition registeredVecs :: "vec list" where
  "registeredVecs = [CheckRunsTotal, CheckRunDuration, CheckResultTotal, CheckDuration, CheckLastResult, CheckRunLastCompletion]"

text \<open>The \<open>init\<close> of package \<open>metrics\<close>: \<open>Inl\<close> is a panic.\<close>

definition metrics_init :: "(vec list \<Rightarrow> 'm \<Rightarrow> string + 'm) \<Rightarrow> 'm \<Rightarrow> string + 'm" where
  "metrics_init mustRegister m = mustRegister registeredVecs m"

text \<open>Names Prometheus accepts for metrics and for labels.\<close>

definition legal_name :: "string \<Rightarrow> bool" where
  "legal_name name \<longleftrightarrow> name \<noteq> '''' \<and> (hd name \<in> set ''abcdefghijklmnopqrstuvwxyzABCDEFGHIJKLMNOPQRSTUVWXYZ_'')
     \<and> list_all (\<lambda>c. c \<in> set ''abcdefghijklmnopqrstuvwxyzABCDEFGHIJKLMNOPQRSTUVWXYZ_0123456789'') name"

definition legal_label :: "string \<Rightarrow> bool" where
  "legal_label name \<longleftrightarrow> legal_name name \<and> take 2 name \<noteq> ''__''"

definition legal_vec :: "vec \<Rightarrow> bool" where
  "legal_vec v \<longleftrightarrow> legal_name (vec_Name v) \<and> list_all legal_label (vec_labels v) \<and> distinct (vec_labels v)
     \<and> (vec_type_of v = HistogramVec \<longrightarrow> ''le'' \<notin> set (vec_labels v))"

locale registerer =
  fixes mustRegister :: "vec list \<Rightarrow> 'm \<Rightarrow> string + 'm" and names :: "'m \<Rightarrow> string set"
  assumes register_new: "list_all legal_vec vs \<Longrightarrow> distinct (map vec_Name vs) \<Longrightarrow> names m \<inter> vec_Name ` set vs = {} \<Longrightarrow>
      \<exists>m'. mustRegister vs m = Inr m' \<and> names m' = names m \<union> vec_Name ` set vs"

lemma registeredVecs_all: "v \<in> set registeredVecs"
  by (cases v) (simp_all add: registeredVecs_def)

lemma registeredVecs_legal: "list_all legal_vec registeredVecs" "distinct (map vec_Name registeredVecs)"
  by (simp_all add: registeredVecs_def legal_vec_def legal_label_def legal_name_def namespaceLabel_def suiteLabel_def
      checkLabel_def resultLabel_def)

context registerer
begin

lemma metrics_registered:
  assumes "names m \<inter> range vec_Name = {}"
  obtains m' where "metrics_init mustRegister m = Inr m'" "range vec_Name \<subseteq> names m'"
proof -
  have all: "set registeredVecs = UNIV" using registeredVecs_all by blast
  with assms register_new [OF registeredVecs_legal, of m] show thesis
    by (auto simp: metrics_init_def intro: that)
qed

end

text \<open>A registry that keeps a list of names.\<close>

fun listRegister :: "vec list \<Rightarrow> string list \<Rightarrow> string + string list" where
  "listRegister [] m = Inr m"
| "listRegister (v # vs) m =
     (if \<not> legal_vec v then Inl ''descriptor is invalid''
      else if vec_Name v \<in> set m then Inl ''duplicate metrics collector registration attempted''
      else listRegister vs (vec_Name v # m))"

interpretation name_list: registerer listRegister set
proof
  show "\<exists>m'. listRegister vs m = Inr m' \<and> set m' = set m \<union> vec_Name ` set vs"
    if "list_all legal_vec vs" "distinct (map vec_Name vs)" "set m \<inter> vec_Name ` set vs = {}" for vs m
    using that
  proof (induction vs arbitrary: m)
    case (Cons v vs)
    then have "set (vec_Name v # m) \<inter> vec_Name ` set vs = {}" by auto
    with Cons.IH [of "vec_Name v # m"] Cons.prems show ?case by simp
  qed simp
qed

text \<open>The collector of an operation.\<close>

fun metric_vec :: "metric_op \<Rightarrow> vec" where
  "metric_vec (CounterInc v lvs) = v"
| "metric_vec (Observe v lvs d) = v"
| "metric_vec (GaugeSet v lvs x) = v"
| "metric_vec (GaugeDeletePartial v labels) = v"

section \<open>Kinds\<close>

record GroupVersion =
  gv_Group :: string
  gv_Version :: string

definition GroupVersion_String :: "GroupVersion \<Rightarrow> string" where
  "GroupVersion_String gv = (if length (gv_Group gv) > 0 then gv_Group gv @ ''/'' @ gv_Version gv else gv_Version gv)"

definition schemeGroupVersion :: GroupVersion where
  "schemeGroupVersion = \<lparr>gv_Group = ''verikube.dev'', gv_Version = ''v1alpha1''\<rparr>"

abbreviation coreV1 :: GroupVersion where "coreV1 \<equiv> \<lparr>gv_Group = '''', gv_Version = ''v1''\<rparr>"
abbreviation batchV1 :: GroupVersion where "batchV1 \<equiv> \<lparr>gv_Group = ''batch'', gv_Version = ''v1''\<rparr>"

text \<open>The written form is the one documents and references carry.\<close>

lemma schemeGroupVersion_String: "GroupVersion_String schemeGroupVersion = SchemeGroupVersion"
  by (simp add: GroupVersion_String_def schemeGroupVersion_def SchemeGroupVersion_def)

text \<open>
  The library, over schemes \<open>'s\<close> and builders \<open>'b\<close>; a function a builder stores returns an error or panics
  (\<open>Inl\<close>) or has changed the scheme.
\<close>

record ('s, 'b) apimachinery =
  am_NewScheme :: 's
  am_AddToGroupVersion :: "GroupVersion \<Rightarrow> 's \<Rightarrow> 's"
  am_AddKnownTypes :: "GroupVersion \<Rightarrow> string list \<Rightarrow> 's \<Rightarrow> string + 's"
  am_NewSchemeBuilder :: "('s \<Rightarrow> string + 's) \<Rightarrow> 'b"
  am_Register :: "('s \<Rightarrow> string + 's) \<Rightarrow> 'b \<Rightarrow> 'b"
  am_AddToScheme :: "'b \<Rightarrow> 's \<Rightarrow> string + 's"
  am_clientgo_AddToScheme :: "'s \<Rightarrow> string + 's"

definition SchemeBuilder :: "('s, 'b) apimachinery \<Rightarrow> 'b" where
  "SchemeBuilder A = am_NewSchemeBuilder A (\<lambda>scheme. Inr (am_AddToGroupVersion A schemeGroupVersion scheme))"

text \<open>The \<open>init\<close> functions of the two type files.\<close>

definition checkrun_init :: "('s, 'b) apimachinery \<Rightarrow> 'b \<Rightarrow> 'b" where
  "checkrun_init A = am_Register A (am_AddKnownTypes A schemeGroupVersion [''CheckRun'', ''CheckRunList''])"

definition checksuite_init :: "('s, 'b) apimachinery \<Rightarrow> 'b \<Rightarrow> 'b" where
  "checksuite_init A = am_Register A (am_AddKnownTypes A schemeGroupVersion [''CheckSuite'', ''CheckSuiteList''])"

text \<open>
  The exported \<open>AddToScheme\<close> is a method value with a pointer receiver, so it runs the functions registered up
  to its call; package variables come before the \<open>init\<close> functions, files in the order of their names.
\<close>

definition AddToScheme :: "('s, 'b) apimachinery \<Rightarrow> 's \<Rightarrow> string + 's" where
  "AddToScheme A = am_AddToScheme A (checksuite_init A (checkrun_init A (SchemeBuilder A)))"

text \<open>The schemes of the manager and of the runner; \<open>utilruntime.Must\<close> panics on an error.\<close>

definition manager_init :: "('s, 'b) apimachinery \<Rightarrow> string + 's" where
  "manager_init A =
     (case am_clientgo_AddToScheme A (am_NewScheme A) of
        Inl e \<Rightarrow> Inl e
      | Inr scheme \<Rightarrow> AddToScheme A scheme)"

definition runner_scheme :: "('s, 'b) apimachinery \<Rightarrow> string + 's" where
  "runner_scheme A = AddToScheme A (am_NewScheme A)"

text \<open>The kinds \<open>AddToGroupVersion\<close> adds by itself.\<close>

definition metaKinds :: "string set" where
  "metaKinds = {''WatchEvent'', ''ListOptions'', ''GetOptions'', ''DeleteOptions'', ''CreateOptions'', ''UpdateOptions'',
     ''PatchOptions'', ''Status'', ''APIVersions'', ''APIGroup'', ''APIGroupList'', ''APIResourceList''}"

fun run_all :: "('s \<Rightarrow> string + 's) list \<Rightarrow> 's \<Rightarrow> string + 's" where
  "run_all [] scheme = Inr scheme"
| "run_all (f # fs) scheme = (case f scheme of Inl e \<Rightarrow> Inl e | Inr scheme' \<Rightarrow> run_all fs scheme')"

locale scheme_library =
  fixes A :: "('s, 'b) apimachinery" and holds :: "'b \<Rightarrow> ('s \<Rightarrow> string + 's) list"
    and knows :: "'s \<Rightarrow> GroupVersion \<Rightarrow> string \<Rightarrow> bool"
  assumes new_builder: "holds (am_NewSchemeBuilder A f) = [f]"
    and register: "holds (am_Register A f b) = holds b @ [f]"
    and add_to_scheme: "am_AddToScheme A b scheme = run_all (holds b) scheme"
    and new_scheme: "\<not> knows (am_NewScheme A) gv kind"
    and group_version: "knows (am_AddToGroupVersion A g scheme) gv kind \<Longrightarrow> knows scheme gv kind \<or> kind \<in> metaKinds"
      "knows scheme gv kind \<Longrightarrow> knows (am_AddToGroupVersion A g scheme) gv kind"
    and known_types: "gv_Version g \<noteq> '''' \<Longrightarrow> \<forall>kind \<in> set kinds. \<not> knows scheme g kind \<Longrightarrow>
      \<exists>scheme'. am_AddKnownTypes A g kinds scheme = Inr scheme'
        \<and> (\<forall>gv kind. knows scheme' gv kind \<longleftrightarrow> knows scheme gv kind \<or> gv = g \<and> kind \<in> set kinds)"
    and clientgo: "\<exists>scheme. am_clientgo_AddToScheme A (am_NewScheme A) = Inr scheme
      \<and> knows scheme coreV1 ''ServiceAccount'' \<and> knows scheme batchV1 ''Job'' \<and> knows scheme batchV1 ''JobList''
      \<and> (\<forall>gv kind. knows scheme gv kind \<longrightarrow> gv_Group gv \<noteq> ''verikube.dev'')"
begin

lemma AddToScheme_eq:
  "AddToScheme A scheme = run_all [\<lambda>s. Inr (am_AddToGroupVersion A schemeGroupVersion s),
     am_AddKnownTypes A schemeGroupVersion [''CheckRun'', ''CheckRunList''],
     am_AddKnownTypes A schemeGroupVersion [''CheckSuite'', ''CheckSuiteList'']] scheme"
  by (simp add: AddToScheme_def add_to_scheme checksuite_init_def checkrun_init_def SchemeBuilder_def register new_builder)

text \<open>A scheme without kinds of the group gets the four kinds of the API, and keeps what it has.\<close>

lemma kinds_added:
  assumes "\<And>kind. \<not> knows scheme schemeGroupVersion kind"
  obtains scheme' where "AddToScheme A scheme = Inr scheme'"
    "\<And>kind. kind \<in> {''CheckRun'', ''CheckRunList'', ''CheckSuite'', ''CheckSuiteList''} \<Longrightarrow> knows scheme' schemeGroupVersion kind"
    "\<And>gv kind. knows scheme gv kind \<Longrightarrow> knows scheme' gv kind"
    "\<And>gv kind. knows scheme' gv kind \<Longrightarrow> knows scheme gv kind \<or> kind \<in> metaKinds \<or> gv = schemeGroupVersion"
proof -
  have version: "gv_Version schemeGroupVersion \<noteq> ''''" by (simp add: schemeGroupVersion_def)
  define s1 where "s1 = am_AddToGroupVersion A schemeGroupVersion scheme"
  have s1: "\<not> knows s1 schemeGroupVersion kind" if "kind \<notin> metaKinds" for kind
    using group_version(1) [of schemeGroupVersion scheme schemeGroupVersion kind] assms that by (auto simp: s1_def)
  obtain s2 where s2: "am_AddKnownTypes A schemeGroupVersion [''CheckRun'', ''CheckRunList''] s1 = Inr s2"
    "\<And>gv kind. knows s2 gv kind \<longleftrightarrow> knows s1 gv kind \<or> gv = schemeGroupVersion \<and> kind \<in> set [''CheckRun'', ''CheckRunList'']"
    using known_types [OF version, of "[''CheckRun'', ''CheckRunList'']" s1] s1 by (auto simp: metaKinds_def)
  obtain s3 where s3: "am_AddKnownTypes A schemeGroupVersion [''CheckSuite'', ''CheckSuiteList''] s2 = Inr s3"
    "\<And>gv kind. knows s3 gv kind \<longleftrightarrow> knows s2 gv kind \<or> gv = schemeGroupVersion \<and> kind \<in> set [''CheckSuite'', ''CheckSuiteList'']"
    using known_types [OF version, of "[''CheckSuite'', ''CheckSuiteList'']" s2] s1 s2(2) by (auto simp: metaKinds_def)
  show thesis
  proof (rule that)
    show "AddToScheme A scheme = Inr s3" by (simp add: AddToScheme_eq s1_def [symmetric] s2(1) s3(1))
    show "knows scheme gv kind \<or> kind \<in> metaKinds \<or> gv = schemeGroupVersion" if "knows s3 gv kind" for gv kind
      using that group_version(1) [of schemeGroupVersion scheme gv kind] unfolding s3(2) s2(2) s1_def by blast
  qed (use s2(2) s3(2) group_version(2) in \<open>auto simp: s1_def\<close>)
qed

lemma runner_kinds:
  obtains scheme where "runner_scheme A = Inr scheme" "knows scheme schemeGroupVersion ''CheckRun''"
    "\<And>gv kind. knows scheme gv kind \<Longrightarrow> kind \<in> metaKinds \<or> gv = schemeGroupVersion"
  by (rule kinds_added [of "am_NewScheme A"]) (use new_scheme in \<open>auto simp: runner_scheme_def intro: that\<close>)

lemma manager_kinds:
  obtains scheme where "manager_init A = Inr scheme"
    "knows scheme coreV1 ''ServiceAccount''" "knows scheme batchV1 ''Job''" "knows scheme batchV1 ''JobList''"
    "\<And>kind. kind \<in> {''CheckRun'', ''CheckRunList'', ''CheckSuite'', ''CheckSuiteList''} \<Longrightarrow> knows scheme schemeGroupVersion kind"
proof -
  obtain s where s: "am_clientgo_AddToScheme A (am_NewScheme A) = Inr s" "knows s coreV1 ''ServiceAccount''"
    "knows s batchV1 ''Job''" "knows s batchV1 ''JobList''" "\<forall>gv kind. knows s gv kind \<longrightarrow> gv_Group gv \<noteq> ''verikube.dev''"
    using clientgo by blast
  have "\<not> knows s schemeGroupVersion kind" for kind using s(5) by (auto simp: schemeGroupVersion_def)
  then show thesis
    by (rule kinds_added) (use s in \<open>auto simp: manager_init_def intro: that\<close>)
qed

end

section \<open>The kinds of a call\<close>

text \<open>
  The kinds of the typed objects in an action; the object of an event is of the kind the controller is for.
  The owner of a Job or a run that is created is looked up in the scheme, too. An apply document is
  unstructured and carries its kind itself.
\<close>

fun typed_kinds :: "string \<Rightarrow> action \<Rightarrow> (GroupVersion \<times> string) set" where
  "typed_kinds own (Req (GetRun key)) = {(schemeGroupVersion, ''CheckRun'')}"
| "typed_kinds own (Req (GetSuite key)) = {(schemeGroupVersion, ''CheckSuite'')}"
| "typed_kinds own (Req (GetServiceAccount key)) = {(coreV1, ''ServiceAccount'')}"
| "typed_kinds own (Req (GetJob key)) = {(batchV1, ''Job'')}"
| "typed_kinds own (Req (CreateJob job)) = {(batchV1, ''Job''), (schemeGroupVersion, ''CheckRun'')}"
| "typed_kinds own (Req (ApplyRunStatus doc owner)) = {}"
| "typed_kinds own (Req (ListRuns ns sel)) = {(schemeGroupVersion, ''CheckRunList'')}"
| "typed_kinds own (Req (CreateRun run)) = {(schemeGroupVersion, ''CheckRun''), (schemeGroupVersion, ''CheckSuite'')}"
| "typed_kinds own (Req (DeleteRun key)) = {(schemeGroupVersion, ''CheckRun'')}"
| "typed_kinds own (Req (UpdateSuiteStatus suite)) = {(schemeGroupVersion, ''CheckSuite'')}"
| "typed_kinds own (Ev e) = {(schemeGroupVersion, own)}"
| "typed_kinds own (Met op) = {}"
| "typed_kinds own (Connect address) = {}"

text \<open>The kinds a controller watches, each with the kind of its lists.\<close>

definition kind_group :: "string \<Rightarrow> GroupVersion" where
  "kind_group kind = (if kind = ''Job'' then batchV1 else schemeGroupVersion)"

definition watched_kinds :: "controller_setup \<Rightarrow> (GroupVersion \<times> string) set" where
  "watched_kinds setup = (\<Union>kind \<in> insert (cs_For setup) (set (cs_Owns setup)).
     {(kind_group kind, kind), (kind_group kind, kind @ ''List'')})"

definition recognised :: "('s \<Rightarrow> GroupVersion \<Rightarrow> string \<Rightarrow> bool) \<Rightarrow> 's \<Rightarrow> (GroupVersion \<times> string) set \<Rightarrow> bool" where
  "recognised knows scheme kinds \<longleftrightarrow> (\<forall>(gv, kind) \<in> kinds. knows scheme gv kind)"

lemma runner_kind: "runnerAction opts a \<Longrightarrow> typed_kinds own a \<subseteq> {(schemeGroupVersion, ''CheckRun'')}"
  by (cases "(opts, a)" rule: runnerAction.cases) auto

section \<open>A library over lists\<close>

text \<open>Schemes are lists of kinds, builders lists of functions.\<close>

type_synonym kind_list = "(GroupVersion \<times> string) list"

definition listMachinery :: "(kind_list, (kind_list \<Rightarrow> string + kind_list) list) apimachinery" where
  "listMachinery =
     \<lparr>am_NewScheme = [],
      am_AddToGroupVersion = (\<lambda>g scheme. (g, ''WatchEvent'') # (g, ''ListOptions'') # scheme),
      am_AddKnownTypes = (\<lambda>g kinds scheme. if gv_Version g = '''' then Inl ''version is required on all types''
         else if list_ex (\<lambda>kind. (g, kind) \<in> set scheme) kinds then Inl ''double registration of different types''
         else Inr (map (Pair g) kinds @ scheme)),
      am_NewSchemeBuilder = (\<lambda>f. [f]),
      am_Register = (\<lambda>f b. b @ [f]),
      am_AddToScheme = run_all,
      am_clientgo_AddToScheme = (\<lambda>scheme.
         Inr ([(coreV1, ''ServiceAccount''), (batchV1, ''Job''), (batchV1, ''JobList'')] @ scheme))\<rparr>"

interpretation kind_lists: scheme_library listMachinery "\<lambda>b. b" "\<lambda>scheme gv kind. (gv, kind) \<in> set scheme"
proof
  show "\<exists>scheme'. am_AddKnownTypes listMachinery g kinds scheme = Inr scheme'
      \<and> (\<forall>gv kind. (gv, kind) \<in> set scheme' \<longleftrightarrow> (gv, kind) \<in> set scheme \<or> gv = g \<and> kind \<in> set kinds)"
    if "gv_Version g \<noteq> ''''" "\<forall>kind \<in> set kinds. (g, kind) \<notin> set scheme" for g kinds scheme
    using that by (auto simp: listMachinery_def list_ex_iff)
qed (auto simp: listMachinery_def metaKinds_def)

end
