(* ===== verification/Registration_Properties.thy ===== *)
theory Registration_Properties
  imports CheckRun_Properties CheckSuite_Properties Cmd Registration
begin

text \<open>
  Nothing the program does at run time is refused for want of a registration.
\<close>

text \<open>C38: start-up does not panic, and the schemes it builds recognise the kind of every object that is used with
  them: every kind the controllers watch, with its lists, and the objects of every call of a pass of either
  controller for the scheme the manager is built on; the objects of every call of a runner for its own scheme, which
  does not have the kinds of the manager that a runner has no use for.\<close>

theorem kinds_registered:
  assumes "scheme_library A holds knows" and "retrier onError" and "guarded_network N"
  shows "\<exists>ms rs. manager_init A = Inr ms \<and> runner_scheme A = Inr rs
    \<and> recognised knows (mg_Scheme (managerOptions ms f)) (watched_kinds CheckRun_SetupWithManager \<union> watched_kinds CheckSuite_SetupWithManager)
    \<and> (\<forall>a \<in> set (acts (snd (CheckRun_Reconcile K P r key \<lparr>world = w, acts = []\<rparr>))).
         recognised knows (mg_Scheme (managerOptions ms f)) (typed_kinds (cs_For CheckRun_SetupWithManager) a))
    \<and> (\<forall>a \<in> set (acts (snd (CheckSuite_Reconcile K P key \<lparr>world = w, acts = []\<rparr>))).
         recognised knows (mg_Scheme (managerOptions ms f)) (typed_kinds (cs_For CheckSuite_SetupWithManager) a))
    \<and> (\<forall>a \<in> set (acts (snd (Run K P onError N (standardRegistry N opts) order cfg \<lparr>world = w, acts = []\<rparr>))).
         recognised knows rs (typed_kinds own a))
    \<and> \<not> knows rs batchV1 ''Job''"
proof -
  obtain ms where ms: "manager_init A = Inr ms" "knows ms coreV1 ''ServiceAccount''" "knows ms batchV1 ''Job''"
      "knows ms batchV1 ''JobList''"
    and api: "\<And>kind. kind \<in> {''CheckRun'', ''CheckRunList'', ''CheckSuite'', ''CheckSuiteList''} \<Longrightarrow> knows ms schemeGroupVersion kind"
    using scheme_library.manager_kinds [OF assms(1)] by blast
  obtain rs where rs: "runner_scheme A = Inr rs" "knows rs schemeGroupVersion ''CheckRun''"
      "\<And>gv kind. knows rs gv kind \<Longrightarrow> kind \<in> metaKinds \<or> gv = schemeGroupVersion"
    using scheme_library.runner_kinds [OF assms(1)] by blast
  have known: "recognised knows ms (typed_kinds own a)" if "own = ''CheckRun'' \<or> own = ''CheckSuite''" for own a
    using ms(2-) api that by (cases "(own, a)" rule: typed_kinds.cases) (auto simp: recognised_def)
  have watched: "recognised knows ms (watched_kinds CheckRun_SetupWithManager \<union> watched_kinds CheckSuite_SetupWithManager)"
    using ms(2-) api by (simp add: recognised_def watched_kinds_def kind_group_def CheckRun_SetupWithManager_def CheckSuite_SetupWithManager_def)
  have "recognised knows rs (typed_kinds own a)"
    if a: "a \<in> set (acts (snd (Run K P onError N (standardRegistry N opts) order cfg \<lparr>world = w, acts = []\<rparr>)))" for a
  proof -
    have "runnerAction opts a"
      using Run_issues [OF assms(2,3), of opts "\<lparr>world = w, acts = []\<rparr>" K P order cfg] a by (auto simp: issues_set)
    from runner_kind [OF this, of own] show ?thesis using rs(2) by (auto simp: recognised_def)
  qed
  moreover have "\<not> knows rs batchV1 ''Job''" using rs(3) by (fastforce simp: metaKinds_def schemeGroupVersion_def)
  moreover have "cs_For CheckRun_SetupWithManager = ''CheckRun''" "cs_For CheckSuite_SetupWithManager = ''CheckSuite''"
    by (simp_all add: CheckRun_SetupWithManager_def CheckSuite_SetupWithManager_def)
  ultimately show ?thesis using ms(1) rs(1) known watched by (fastforce simp: managerOptions_def)
qed

theorem kinds_registered_witness:
  "\<exists>ms rs. manager_init listMachinery = Inr ms \<and> runner_scheme listMachinery = Inr rs
     \<and> (schemeGroupVersion, ''CheckSuiteList'') \<in> set ms \<and> (batchV1, ''Job'') \<notin> set rs"
  using kinds_registered [OF kind_lists.scheme_library_axioms plain.retrier_axioms script.guarded_network_axioms, where
      K = "podKube (sampleRun ''demo'' CheckRunRunning [])" and P = refPkgs and r = sampleReconciler and key = "(''prod'', ''demo'')" and w = "world webCtx"]
  by (fastforce simp: managerOptions_def recognised_def watched_kinds_def CheckSuite_SetupWithManager_def kind_group_def)

lemma metric_ops_none: "\<forall>op. Met op \<notin> set as \<Longrightarrow> metric_ops as = []"
  by (induction as rule: metric_ops.induct) auto

lemma Met_metric_ops: "Met op \<in> set as \<longleftrightarrow> op \<in> set (metric_ops as)"
  by (induction as rule: metric_ops.induct) auto

lemma CheckSuite_metric_ops:
  assumes "run_sorter (p_sort_runs P)"
  shows "metric_ops (acts (snd (CheckSuite_Reconcile K P key \<lparr>world = w, acts = []\<rparr>))) =
    (if fst (k_get_suite K key w) = Inl NotFound then delete_suite_ops (fst key) (snd key) else [])"
proof -
  let ?s = "\<lparr>world = w, acts = []\<rparr>"
  obtain g w1 where g: "k_get_suite K key w = (g, w1)" by fastforce
  then have p: "perform (Req (GetSuite key)) (k_get_suite K key) ?s = (g, \<lparr>world = w1, acts = [Req (GetSuite key)]\<rparr>)"
    by (simp add: perform_def)
  show ?thesis
  proof (cases g)
    case (Inl e)
    then show ?thesis using g p
      by (cases e) (simp_all add: CheckSuite_Reconcile_def DeleteSuite_emits metric_ops_map_Met [where f = "\<lambda>x. x", simplified])
  next
    case (Inr suite)
    obtain l w2 where l: "k_list_runs K (suite_Namespace suite) (listSelector suite) w1 = (l, w2)" by fastforce
    show ?thesis
    proof (cases l)
      case (Inl e)
      then show ?thesis using g p l Inr by (simp add: CheckSuite_Reconcile_def listSelector_def perform_def Let_def)
    next
      case items: (Inr items)
      have "k_get_suite K key (world ?s) = (Inr suite, w1)" using g Inr by simp
      from reconcile_pass [OF this l [unfolded items], of P] obtain s2 where
        s2: "acts s2 = acts ?s @ [Req (GetSuite key), Req (ListRuns (suite_Namespace suite) (listSelector suite))]"
        and r: "CheckSuite_Reconcile K P key ?s = suitePass K P suite (k_now K w1) items s2" .
      obtain new where "acts (snd (CheckSuite_Reconcile K P key ?s)) = acts s2 @ new" "list_all (suiteAction P suite items) new"
        using suitePass_suiteAction [OF assms, of suite items s2 K "k_now K w1"] by (auto simp: r issues_def)
      then show ?thesis using s2 g Inr by (auto simp: list_all_iff intro!: metric_ops_none)
    qed
  qed
qed

text \<open>C39: the six collectors are registered at start-up without a panic, and every operation a pass of either controller
  makes is on a registered collector of the right sort, with one value for each of its labels. The pass over a
  suite that is gone drops the series of that suite from the two gauges, and a pass over a suite that can be read, or whose
  read fails otherwise, touches no collector.\<close>

theorem metrics_declared:
  assumes "registerer mustRegister names" and "names m \<inter> range vec_Name = {}" and "ranges (p_range_jobs P)"
    and "run_sorter (p_sort_runs P)"
  shows "\<exists>m'. metrics_init mustRegister m = Inr m'
    \<and> (\<forall>op. Met op \<in> set (acts (snd (CheckRun_Reconcile K P r key \<lparr>world = w, acts = []\<rparr>))) \<longrightarrow>
         vec_Name (metric_vec op) \<in> names m' \<and> well_labelled op)
    \<and> (\<forall>op. Met op \<in> set (acts (snd (CheckSuite_Reconcile K P key \<lparr>world = w, acts = []\<rparr>))) \<longrightarrow>
         vec_Name (metric_vec op) \<in> names m' \<and> well_labelled op)
    \<and> metric_ops (acts (snd (CheckSuite_Reconcile K P key \<lparr>world = w, acts = []\<rparr>))) =
        (if fst (k_get_suite K key w) = Inl NotFound
         then [GaugeDeletePartial CheckLastResult [(''namespace'', fst key), (''suite'', snd key)],
               GaugeDeletePartial CheckRunLastCompletion [(''namespace'', fst key), (''suite'', snd key)]]
         else [])"
proof -
  let ?s = "\<lparr>world = w, acts = []\<rparr>"
  obtain m' where m': "metrics_init mustRegister m = Inr m'" "range vec_Name \<subseteq> names m'"
    by (rule registerer.metrics_registered [OF assms(1,2)])
  have "well_labelled op" if op: "Met op \<in> set (acts (snd (CheckRun_Reconcile K P r key ?s)))" for op
  proof -
    obtain g s1 where g: "perform (Req (GetRun key)) (k_get_run K key) ?s = (g, s1)" by fastforce
    show ?thesis
    proof (cases g)
      case (Inl e)
      then show ?thesis using op g by (auto simp: CheckRun_Reconcile_def perform_def split: prod.splits api_error.splits)
    next
      case (Inr run)
      then have "runAction P r key run (Met op)"
        using Reconcile_runAction [OF assms(3) g [unfolded Inr], of r] op by (auto simp: issues_set)
      then show ?thesis by simp
    qed
  qed
  moreover have "well_labelled op" if "Met op \<in> set (acts (snd (CheckSuite_Reconcile K P key ?s)))" for op
    using that suite_ops_labelled(2) [of "fst key" "snd key"]
    by (auto simp: Met_metric_ops CheckSuite_metric_ops [OF assms(4)] list_all_iff split: if_splits)
  ultimately show ?thesis using m' CheckSuite_metric_ops [OF assms(4), of K key w]
    by (auto simp: delete_suite_ops_def namespaceLabel_def suiteLabel_def)
qed

theorem metrics_declared_witness:
  "\<exists>m'. metrics_init listRegister [''go_goroutines''] = Inr m'
     \<and> (\<forall>op. Met op \<in> set (acts (snd (CheckRun_Reconcile clusterKube refPkgs sampleReconciler
          (meta_key (run_Meta doneRun)) (doneCluster Minute)))) \<longrightarrow> vec_Name (metric_vec op) \<in> set m' \<and> well_labelled op)
     \<and> (\<forall>op. Met op \<in> set (acts (snd (CheckSuite_Reconcile clusterKube refPkgs
          (meta_key (run_Meta doneRun)) (doneCluster Minute)))) \<longrightarrow> vec_Name (metric_vec op) \<in> set m' \<and> well_labelled op)"
proof -
  have "vec_Name v \<noteq> ''go_goroutines''" for v by (cases v) simp_all
  then have names: "set [''go_goroutines''] \<inter> range vec_Name = {}" by fastforce
  have "ranges (p_range_jobs refPkgs)" and "run_sorter (p_sort_runs refPkgs)" using stable.run_sorter_axioms by simp_all
  note * = metrics_declared [where names = set and m = "[''go_goroutines'']" and P = refPkgs and K = clusterKube and r = sampleReconciler and key = "meta_key (run_Meta doneRun)"
      and w = "world (doneCluster Minute)", OF name_list.registerer_axioms names this]
  have "doneCluster Minute = \<lparr>world = world (doneCluster Minute), acts = []\<rparr>" by (simp add: doneCluster_def sampleCluster_def)
  with * show ?thesis by auto
qed

end
