(* ===== verification/Go_Memory.thy ===== *)
theory Go_Memory
  imports Go_Prelude
begin

text \<open>
  Go values in memory, as far as deep copies need them: pointers, slices and maps refer to cells, so
  two values can share what they refer to. Memory is the list of its cells; allocation appends one. A
  slice refers to an array that it covers entirely; a map refers to its table.

  \<open>ty\<close> describes how a value is laid out; \<open>has_type\<close>, \<open>view\<close> (the value with all references followed) and
  \<open>reach\<close> (the cells it depends on) follow the layout. A copier is \<open>deep\<close> if its result has the same view and
  depends on new cells only; the functions that copy one field each keep that (\<open>deep_intros\<close>).
\<close>

section \<open>Memory\<close>

datatype prim = PStr string | PInt int | PBool bool

datatype mval =
    Prim prim
  | Ref "nat option"
  | Struct "(string \<times> mval) list"
  | Array "mval list"
  | Table "(string \<times> mval) list"

type_synonym memory = "mval list"

definition alloc :: "mval \<Rightarrow> memory \<Rightarrow> mval \<times> memory" where
  "alloc v m = (Ref (Some (length m)), m @ [v])"

section \<open>Layouts\<close>

datatype ty = TPrim | TPtr ty | TSlice ty | TMap ty | TStruct fields
     and fields = NoField | Field string ty fields

text \<open>The fields of a struct in their order.\<close>

definition struct :: "(string \<times> ty) list \<Rightarrow> ty" where
  "struct fs = TStruct (foldr (\<lambda>(n, t) rest. Field n t rest) fs NoField)"

primrec flat :: "ty \<Rightarrow> bool" and flat_fields :: "fields \<Rightarrow> bool" where
  "flat TPrim \<longleftrightarrow> True"
| "flat (TPtr t) \<longleftrightarrow> False"
| "flat (TSlice t) \<longleftrightarrow> False"
| "flat (TMap t) \<longleftrightarrow> False"
| "flat (TStruct fs) \<longleftrightarrow> flat_fields fs"
| "flat_fields NoField \<longleftrightarrow> True"
| "flat_fields (Field n t fs) \<longleftrightarrow> flat t \<and> flat_fields fs"

primrec has_type :: "memory \<Rightarrow> ty \<Rightarrow> mval \<Rightarrow> bool"
    and have_types :: "memory \<Rightarrow> fields \<Rightarrow> (string \<times> mval) list \<Rightarrow> bool" where
  "has_type m TPrim v \<longleftrightarrow> (case v of Prim _ \<Rightarrow> True | _ \<Rightarrow> False)"
| "has_type m (TPtr t) v \<longleftrightarrow>
     (case v of Ref None \<Rightarrow> True | Ref (Some a) \<Rightarrow> a < length m \<and> has_type m t (m ! a) | _ \<Rightarrow> False)"
| "has_type m (TSlice t) v \<longleftrightarrow>
     (case v of Ref None \<Rightarrow> True
      | Ref (Some a) \<Rightarrow> a < length m \<and> (case m ! a of Array vs \<Rightarrow> list_all (has_type m t) vs | _ \<Rightarrow> False)
      | _ \<Rightarrow> False)"
| "has_type m (TMap t) v \<longleftrightarrow>
     (case v of Ref None \<Rightarrow> True
      | Ref (Some a) \<Rightarrow> a < length m
          \<and> (case m ! a of Table kvs \<Rightarrow> list_all (\<lambda>kv. has_type m t (snd kv)) kvs | _ \<Rightarrow> False)
      | _ \<Rightarrow> False)"
| "has_type m (TStruct fs) v \<longleftrightarrow> (case v of Struct kvs \<Rightarrow> have_types m fs kvs | _ \<Rightarrow> False)"
| "have_types m NoField kvs \<longleftrightarrow> kvs = []"
| "have_types m (Field n t fs) kvs \<longleftrightarrow>
     (case kvs of [] \<Rightarrow> False | kv # rest \<Rightarrow> fst kv = n \<and> has_type m t (snd kv) \<and> have_types m fs rest)"

text \<open>What a value is when all its references are followed.\<close>

datatype tree =
    Leaf prim | Nil | To tree | Items "tree list" | Entries "(string \<times> tree) list" | Parts "(string \<times> tree) list"

primrec view :: "memory \<Rightarrow> ty \<Rightarrow> mval \<Rightarrow> tree"
    and views :: "memory \<Rightarrow> fields \<Rightarrow> (string \<times> mval) list \<Rightarrow> (string \<times> tree) list" where
  "view m TPrim v = (case v of Prim p \<Rightarrow> Leaf p | _ \<Rightarrow> Nil)"
| "view m (TPtr t) v = (case v of Ref (Some a) \<Rightarrow> To (view m t (m ! a)) | _ \<Rightarrow> Nil)"
| "view m (TSlice t) v =
     (case v of Ref (Some a) \<Rightarrow> (case m ! a of Array vs \<Rightarrow> Items (map (view m t) vs) | _ \<Rightarrow> Nil) | _ \<Rightarrow> Nil)"
| "view m (TMap t) v =
     (case v of Ref (Some a) \<Rightarrow>
        (case m ! a of Table kvs \<Rightarrow> Entries (map (\<lambda>kv. (fst kv, view m t (snd kv))) kvs) | _ \<Rightarrow> Nil) | _ \<Rightarrow> Nil)"
| "view m (TStruct fs) v = (case v of Struct kvs \<Rightarrow> Parts (views m fs kvs) | _ \<Rightarrow> Nil)"
| "views m NoField kvs = []"
| "views m (Field n t fs) kvs =
     (case kvs of [] \<Rightarrow> [] | kv # rest \<Rightarrow> (n, view m t (snd kv)) # views m fs rest)"

text \<open>The cells a value depends on.\<close>

primrec reach :: "memory \<Rightarrow> ty \<Rightarrow> mval \<Rightarrow> nat set"
    and reaches :: "memory \<Rightarrow> fields \<Rightarrow> (string \<times> mval) list \<Rightarrow> nat set" where
  "reach m TPrim v = {}"
| "reach m (TPtr t) v = (case v of Ref (Some a) \<Rightarrow> insert a (reach m t (m ! a)) | _ \<Rightarrow> {})"
| "reach m (TSlice t) v =
     (case v of Ref (Some a) \<Rightarrow> insert a (case m ! a of Array vs \<Rightarrow> (\<Union>v \<in> set vs. reach m t v) | _ \<Rightarrow> {}) | _ \<Rightarrow> {})"
| "reach m (TMap t) v =
     (case v of Ref (Some a) \<Rightarrow>
        insert a (case m ! a of Table kvs \<Rightarrow> (\<Union>kv \<in> set kvs. reach m t (snd kv)) | _ \<Rightarrow> {}) | _ \<Rightarrow> {})"
| "reach m (TStruct fs) v = (case v of Struct kvs \<Rightarrow> reaches m fs kvs | _ \<Rightarrow> {})"
| "reaches m NoField kvs = {}"
| "reaches m (Field n t fs) kvs = (case kvs of [] \<Rightarrow> {} | kv # rest \<Rightarrow> reach m t (snd kv) \<union> reaches m fs rest)"

text \<open>Only those cells matter.\<close>

lemma reach_bound: "has_type m t v \<Longrightarrow> a \<in> reach m t v \<Longrightarrow> a < length m"
  and reaches_bound: "have_types m fs kvs \<Longrightarrow> a \<in> reaches m fs kvs \<Longrightarrow> a < length m"
proof (induction t and fs arbitrary: v and kvs)
  case (TSlice t)
  then show ?case by (auto simp: list_all_iff split: mval.splits option.splits)
next
  case (TMap t)
  then show ?case by (fastforce simp: list_all_iff split: mval.splits option.splits)
qed (auto split: mval.splits option.splits list.splits)

lemma same_cells:
  "(\<And>a. a \<in> reach m t v \<Longrightarrow> a < length m' \<and> m' ! a = m ! a) \<Longrightarrow>
     view m' t v = view m t v \<and> reach m' t v = reach m t v \<and> (has_type m t v \<longrightarrow> has_type m' t v)"
  and same_cells_fields:
  "(\<And>a. a \<in> reaches m fs kvs \<Longrightarrow> a < length m' \<and> m' ! a = m ! a) \<Longrightarrow>
     views m' fs kvs = views m fs kvs \<and> reaches m' fs kvs = reaches m fs kvs \<and> (have_types m fs kvs \<longrightarrow> have_types m' fs kvs)"
proof (induction t and fs arbitrary: v and kvs)
  case (TPtr t)
  show ?case
  proof (cases "\<exists>a. v = Ref (Some a)")
    case True
    then obtain a where v: "v = Ref (Some a)" ..
    have "m' ! a = m ! a" "a < length m'" using TPtr.prems v by simp_all
    with TPtr.IH [of "m ! a"] TPtr.prems v show ?thesis by simp
  qed (auto split: mval.splits option.splits)
next
  case (TSlice t)
  show ?case
  proof (cases "\<exists>a vs. v = Ref (Some a) \<and> m ! a = Array vs")
    case True
    then obtain a vs where v: "v = Ref (Some a)" "m ! a = Array vs" by blast
    have a: "m' ! a = Array vs" "a < length m'" using TSlice.prems v by simp_all
    have "view m' t x = view m t x \<and> reach m' t x = reach m t x \<and> (has_type m t x \<longrightarrow> has_type m' t x)"
      if "x \<in> set vs" for x
      using TSlice.IH [of x] TSlice.prems v that by simp blast
    with v a show ?thesis by (simp add: list_all_iff)
  next
    case False
    then show ?thesis using TSlice.prems by (auto split: mval.splits option.splits)
  qed
next
  case (TMap t)
  show ?case
  proof (cases "\<exists>a kvs. v = Ref (Some a) \<and> m ! a = Table kvs")
    case True
    then obtain a kvs where v: "v = Ref (Some a)" "m ! a = Table kvs" by blast
    have a: "m' ! a = Table kvs" "a < length m'" using TMap.prems v by simp_all
    have "view m' t (snd x) = view m t (snd x) \<and> reach m' t (snd x) = reach m t (snd x)
        \<and> (has_type m t (snd x) \<longrightarrow> has_type m' t (snd x))" if "x \<in> set kvs" for x
      using TMap.IH [of "snd x"] TMap.prems v that by simp blast
    with v a show ?thesis by (simp add: list_all_iff)
  next
    case False
    then show ?thesis using TMap.prems by (auto split: mval.splits option.splits)
  qed
next
  case (TStruct fs)
  then show ?case by (cases v) simp_all
next
  case (Field n t fs)
  then show ?case by (cases kvs) simp_all
qed simp_all

lemma has_type_prefix:
  assumes "has_type m t v" and "prefix m m'"
  shows "has_type m' t v" "view m' t v = view m t v" "reach m' t v = reach m t v"
proof -
  have "a < length m' \<and> m' ! a = m ! a" if "a \<in> reach m t v" for a
    using reach_bound [OF assms(1) that] assms(2) by (auto simp: prefix_def nth_append)
  from same_cells [OF this] assms(1) show "has_type m' t v" "view m' t v = view m t v" "reach m' t v = reach m t v" by simp_all
qed

lemma have_types_prefix:
  assumes "have_types m fs kvs" and "prefix m m'"
  shows "have_types m' fs kvs" "views m' fs kvs = views m fs kvs" "reaches m' fs kvs = reaches m fs kvs"
  using has_type_prefix [of m "TStruct fs" "Struct kvs" m'] assms by simp_all

lemma flat_reach: "flat t \<Longrightarrow> reach m t v = {}"
  and flat_reaches: "flat_fields fs \<Longrightarrow> reaches m fs kvs = {}"
  by (induction t and fs arbitrary: v and kvs) (auto split: mval.splits list.splits)

section \<open>Copiers\<close>

type_synonym copier = "mval \<Rightarrow> memory \<Rightarrow> mval \<times> memory"

text \<open>\<open>**out = **in\<close>, or a field left to \<open>*out = *in\<close>.\<close>

definition keep :: copier where
  "keep v m = (v, m)"

text \<open>A pointer that is copied, if it is not nil, to a new cell with what \<open>f\<close> makes of its target.\<close>

definition copyPtr :: "copier \<Rightarrow> copier" where
  "copyPtr f v m = (case v of Ref (Some a) \<Rightarrow> (case f (m ! a) m of (w, m1) \<Rightarrow> alloc w m1) | _ \<Rightarrow> (v, m))"

fun copyItems :: "copier \<Rightarrow> mval list \<Rightarrow> memory \<Rightarrow> mval list \<times> memory" where
  "copyItems f [] m = ([], m)"
| "copyItems f (v # vs) m =
     (case f v m of (w, m1) \<Rightarrow> (case copyItems f vs m1 of (ws, m2) \<Rightarrow> (w # ws, m2)))"

text \<open>A slice: a new array (\<open>make\<close>), its items by \<open>f\<close>, or by \<open>copy\<close>, which is \<open>f = keep\<close>.\<close>

definition copySlice :: "copier \<Rightarrow> copier" where
  "copySlice f v m =
     (case v of Ref (Some a) \<Rightarrow>
        (case m ! a of Array vs \<Rightarrow> (case copyItems f vs m of (ws, m1) \<Rightarrow> alloc (Array ws) m1) | _ \<Rightarrow> (v, m))
      | _ \<Rightarrow> (v, m))"

text \<open>A map: a new table with the same entries.\<close>

definition copyMap :: copier where
  "copyMap v m =
     (case v of Ref (Some a) \<Rightarrow> (case m ! a of Table kvs \<Rightarrow> alloc (Table kvs) m | _ \<Rightarrow> (v, m)) | _ \<Rightarrow> (v, m))"

text \<open>\<open>*out = *in\<close>, followed by the fields that are copied on their own.\<close>

definition fieldCopier :: "(string \<times> copier) list \<Rightarrow> string \<Rightarrow> copier" where
  "fieldCopier cs n = (case map_of cs n of None \<Rightarrow> keep | Some f \<Rightarrow> f)"

fun copyFields :: "(string \<times> copier) list \<Rightarrow> (string \<times> mval) list \<Rightarrow> memory \<Rightarrow> (string \<times> mval) list \<times> memory" where
  "copyFields cs [] m = ([], m)"
| "copyFields cs ((n, v) # kvs) m =
     (case fieldCopier cs n v m of (w, m1) \<Rightarrow>
       (case copyFields cs kvs m1 of (ws, m2) \<Rightarrow> ((n, w) # ws, m2)))"

definition copyStruct :: "(string \<times> copier) list \<Rightarrow> copier" where
  "copyStruct cs v m = (case v of Struct kvs \<Rightarrow> (case copyFields cs kvs m of (ws, m1) \<Rightarrow> (Struct ws, m1)) | _ \<Rightarrow> (v, m))"

section \<open>Deep copies\<close>

definition deep :: "ty \<Rightarrow> copier \<Rightarrow> bool" where
  "deep t f \<longleftrightarrow> (\<forall>m v w m'. has_type m t v \<longrightarrow> f v m = (w, m') \<longrightarrow>
     prefix m m' \<and> has_type m' t w \<and> view m' t w = view m t v \<and> (\<forall>a \<in> reach m' t w. length m \<le> a))"

named_theorems deep_intros \<open>copiers that copy deeply\<close>

lemma deepI:
  assumes "\<And>m v w m'. has_type m t v \<Longrightarrow> f v m = (w, m') \<Longrightarrow>
    prefix m m' \<and> has_type m' t w \<and> view m' t w = view m t v \<and> (\<forall>a \<in> reach m' t w. length m \<le> a)"
  shows "deep t f"
  using assms by (simp add: deep_def)

lemma deepD:
  assumes "deep t f" and "has_type m t v" and "f v m = (w, m')"
  shows "prefix m m'" "has_type m' t w" "view m' t w = view m t v" "\<And>a. a \<in> reach m' t w \<Longrightarrow> length m \<le> a"
  using assms by (auto simp: deep_def)

lemma deep_keep [deep_intros]: "flat t \<Longrightarrow> deep t keep"
  by (auto simp: deep_def keep_def flat_reach)

lemma alloc_cell: "alloc w m = (r, m') \<Longrightarrow> r = Ref (Some (length m)) \<and> m' = m @ [w] \<and> m' ! length m = w \<and> prefix m m'"
  by (auto simp: alloc_def)

lemma deep_ptr [deep_intros]:
  assumes "deep t f"
  shows "deep (TPtr t) (copyPtr f)"
proof (rule deepI)
  fix m v w m'
  assume v: "has_type m (TPtr t) v" and c: "copyPtr f v m = (w, m')"
  show "prefix m m' \<and> has_type m' (TPtr t) w \<and> view m' (TPtr t) w = view m (TPtr t) v \<and>
      (\<forall>a \<in> reach m' (TPtr t) w. length m \<le> a)"
  proof (cases "v = Ref None")
    case True
    then show ?thesis using c by (auto simp: copyPtr_def)
  next
    case False
    with v obtain a where a: "v = Ref (Some a)" "a < length m" "has_type m t (m ! a)"
      by (auto split: mval.splits option.splits)
    obtain x m1 where x: "f (m ! a) m = (x, m1)" by fastforce
    note d = deepD [OF assms a(3) x]
    have cell: "w = Ref (Some (length m1))" "m' = m1 @ [x]" using c a(1) x by (simp_all add: copyPtr_def alloc_def)
    note p = has_type_prefix [OF d(2), of m']
    have "prefix m1 m'" "length m \<le> length m1" using cell d(1) by (auto dest: prefix_length_le)
    then show ?thesis using p d cell a by (auto intro: prefix_order.trans)
  qed
qed

lemma copyItems_deep:
  assumes "deep t f" and "list_all (has_type m t) vs" and "copyItems f vs m = (ws, m')"
  shows "prefix m m' \<and> list_all (has_type m' t) ws \<and> map (view m' t) ws = map (view m t) vs
    \<and> (\<forall>w \<in> set ws. \<forall>a \<in> reach m' t w. length m \<le> a)"
  using assms(2,3)
proof (induction vs arbitrary: m ws)
  case (Cons v vs)
  obtain x m1 where x: "f v m = (x, m1)" by fastforce
  obtain xs where xs: "copyItems f vs m1 = (xs, m')" "ws = x # xs"
    using Cons.prems(2) x by (auto split: prod.splits)
  have v: "has_type m t v" using Cons.prems(1) by simp
  note d = deepD [OF assms(1) v x]
  have rest: "list_all (has_type m1 t) vs" "map (view m1 t) vs = map (view m t) vs"
    using Cons.prems(1) has_type_prefix [OF _ d(1)] by (auto simp: list_all_iff)
  note IH = Cons.IH [OF rest(1) xs(1)]
  then have "prefix m1 m'" by simp
  note p = has_type_prefix [OF d(2) this]
  have "length m \<le> length m1" using d(1) by (rule prefix_length_le)
  then show ?case using IH p d rest(2) xs(2) by (fastforce intro: prefix_order.trans)
qed auto

lemma deep_slice [deep_intros]:
  assumes "deep t f"
  shows "deep (TSlice t) (copySlice f)"
proof (rule deepI)
  fix m v w m'
  assume v: "has_type m (TSlice t) v" and c: "copySlice f v m = (w, m')"
  show "prefix m m' \<and> has_type m' (TSlice t) w \<and> view m' (TSlice t) w = view m (TSlice t) v \<and>
      (\<forall>a \<in> reach m' (TSlice t) w. length m \<le> a)"
  proof (cases "v = Ref None")
    case True
    then show ?thesis using c by (auto simp: copySlice_def)
  next
    case False
    with v obtain b where "v = Ref (Some b)" by (auto split: mval.splits option.splits)
    with v obtain a vs where a: "v = Ref (Some a)" "a < length m" "m ! a = Array vs" "list_all (has_type m t) vs"
      by (cases "m ! b") simp_all
    obtain ws m1 where x: "copyItems f vs m = (ws, m1)" by fastforce
    note d = copyItems_deep [OF assms a(4) x]
    have cell: "w = Ref (Some (length m1))" "m' = m1 @ [Array ws]"
      using c a x by (simp_all add: copySlice_def alloc_def)
    then have p: "prefix m1 m'" by simp
    have *: "has_type m' t y \<and> view m' t y = view m1 t y \<and> reach m' t y = reach m1 t y" if "y \<in> set ws" for y
      using has_type_prefix [OF _ p] d that by (auto simp: list_all_iff)
    then have "map (view m' t) ws = map (view m1 t) ws" by simp
    moreover have "length m \<le> length m1" "prefix m m'" using d p by (auto dest: prefix_length_le intro: prefix_order.trans)
    ultimately show ?thesis using * d cell a by (auto simp: list_all_iff)
  qed
qed

lemma deep_map [deep_intros]:
  assumes "flat t"
  shows "deep (TMap t) copyMap"
proof (rule deepI)
  fix m v w m'
  assume v: "has_type m (TMap t) v" and c: "copyMap v m = (w, m')"
  show "prefix m m' \<and> has_type m' (TMap t) w \<and> view m' (TMap t) w = view m (TMap t) v \<and>
      (\<forall>a \<in> reach m' (TMap t) w. length m \<le> a)"
  proof (cases "v = Ref None")
    case True
    then show ?thesis using c by (auto simp: copyMap_def)
  next
    case False
    with v obtain b where "v = Ref (Some b)" by (auto split: mval.splits option.splits)
    with v obtain a kvs where a: "v = Ref (Some a)" "a < length m" "m ! a = Table kvs"
      "list_all (\<lambda>kv. has_type m t (snd kv)) kvs" by (cases "m ! b") simp_all
    then have cell: "w = Ref (Some (length m))" "m' = m @ [Table kvs]"
      using c by (simp_all add: copyMap_def alloc_def)
    then have p: "prefix m m'" by simp
    have "has_type m' t (snd y) \<and> view m' t (snd y) = view m t (snd y) \<and> reach m' t (snd y) = {}" if "y \<in> set kvs" for y
      using has_type_prefix [OF _ p] a(4) that flat_reach [OF assms] by (auto simp: list_all_iff)
    with cell a show ?thesis by (simp add: list_all_iff)
  qed
qed

text \<open>A struct is copied deeply if each of its fields is.\<close>

primrec covers :: "(string \<times> copier) list \<Rightarrow> fields \<Rightarrow> bool" where
  "covers cs NoField \<longleftrightarrow> True"
| "covers cs (Field n t fs) \<longleftrightarrow> deep t (fieldCopier cs n) \<and> covers cs fs"

lemma copyFields_deep:
  assumes "covers cs fs" and "have_types m fs kvs" and "copyFields cs kvs m = (ws, m')"
  shows "prefix m m' \<and> have_types m' fs ws \<and> views m' fs ws = views m fs kvs \<and> (\<forall>a \<in> reaches m' fs ws. length m \<le> a)"
  using assms
proof (induction kvs arbitrary: fs m ws)
  case Nil
  then show ?case by (cases fs) auto
next
  case (Cons kv kvs)
  obtain n v where kv: "kv = (n, v)" by fastforce
  with Cons.prems(2) obtain t fs' where fs: "fs = Field n t fs'" "has_type m t v" "have_types m fs' kvs"
    by (cases fs) auto
  obtain x m1 where x: "fieldCopier cs n v m = (x, m1)" by fastforce
  obtain xs where xs: "copyFields cs kvs m1 = (xs, m')" "ws = (n, x) # xs"
    using Cons.prems(3) x kv by (auto split: prod.splits)
  have cov: "deep t (fieldCopier cs n)" "covers cs fs'" using Cons.prems(1) fs(1) by simp_all
  note d = deepD [OF cov(1) fs(2) x]
  note rest = have_types_prefix [OF fs(3) d(1)]
  note IH = Cons.IH [OF cov(2) rest(1) xs(1)]
  then have "prefix m1 m'" by simp
  note p = has_type_prefix [OF d(2) this]
  have "length m \<le> length m1" using d(1) by (rule prefix_length_le)
  then show ?case using IH p d rest(2) xs(2) fs(1) kv by (fastforce intro: prefix_order.trans)
qed

lemma deep_struct [deep_intros]:
  assumes "covers cs fs"
  shows "deep (TStruct fs) (copyStruct cs)"
proof (rule deepI)
  fix m v w m'
  assume v: "has_type m (TStruct fs) v" and c: "copyStruct cs v m = (w, m')"
  then obtain kvs where kvs: "v = Struct kvs" "have_types m fs kvs" by (auto split: mval.splits)
  obtain ws where ws: "copyFields cs kvs m = (ws, m')" "w = Struct ws"
    using c kvs(1) by (auto simp: copyStruct_def split: prod.splits)
  show "prefix m m' \<and> has_type m' (TStruct fs) w \<and> view m' (TStruct fs) w = view m (TStruct fs) v \<and>
      (\<forall>a \<in> reach m' (TStruct fs) w. length m \<le> a)"
    using copyFields_deep [OF assms kvs(2) ws(1)] kvs(1) ws(2) by simp
qed

text \<open>What a deep copy is good for: writes to the memory there was before do not show in the copy, and
  writes to the cells of the copy do not show in the original.\<close>

lemma deep_isolated:
  assumes "deep t f" and "has_type m t v" and "f v m = (w, m')" and "length m'' = length m'"
  shows "(\<forall>a. length m \<le> a \<longrightarrow> m'' ! a = m' ! a) \<Longrightarrow> view m'' t w = view m t v"
    and "(\<forall>a. a \<notin> reach m' t w \<longrightarrow> m'' ! a = m' ! a) \<Longrightarrow> view m'' t v = view m t v"
proof -
  note d = deepD [OF assms(1-3)]
  show "view m'' t w = view m t v" if "\<forall>a. length m \<le> a \<longrightarrow> m'' ! a = m' ! a"
    using same_cells [of m' t w m''] reach_bound [OF d(2)] d(3,4) that assms(4) by simp
  show "view m'' t v = view m t v" if *: "\<forall>a. a \<notin> reach m' t w \<longrightarrow> m'' ! a = m' ! a"
  proof -
    have "a < length m'' \<and> m'' ! a = m ! a" if a: "a \<in> reach m t v" for a
    proof -
      have "a < length m" using reach_bound [OF assms(2) a] .
      moreover from this have "a \<notin> reach m' t w" using d(4) by force
      ultimately show ?thesis using * d(1) assms(4) by (auto simp: prefix_def nth_append)
    qed
    then show ?thesis using same_cells by blast
  qed
qed

end
