(* ===== verification/Deep_Copy.thy ===== *)
theory Deep_Copy
  imports Go_Memory
begin

text \<open>
  \<open>api/v1alpha1/zz_generated.deepcopy.go\<close>: the copy functions of every type of the API, over the layout
  that the type has in \<open>shared_types.go\<close>, \<open>checkrun_types.go\<close> and \<open>checksuite_types.go\<close>. A generated
  function starts with \<open>*out = *in\<close>, which shares all that the fields refer to, and then copies the fields
  that are named in it; \<open>copyStruct\<close> is that, with the list of those fields. The suite controller relies on
  these functions when it takes the template of a suite into a run and when it works on a status.

  A struct of a library without references (\<open>TypeMeta\<close>, \<open>metav1.Duration\<close>, \<open>metav1.Time\<close>,
  \<open>LocalObjectReference\<close>, \<open>ObjectReference\<close>) is one primitive value. Library types with references come with
  their own copy functions, which are parameters and assumed to copy deeply (\<open>external_copies\<close>).
\<close>

section \<open>Library types\<close>

record externals =
  x_ObjectMeta :: ty
  x_ListMeta :: ty
  x_Toleration :: ty
  x_Condition :: ty
  x_ObjectMeta_DeepCopyInto :: copier
  x_ListMeta_DeepCopyInto :: copier
  x_Toleration_DeepCopyInto :: copier
  x_Condition_DeepCopyInto :: copier
  x_Time_DeepCopy :: copier

named_theorems copy_defs \<open>layouts and the functions that copy into a struct\<close>
named_theorems copy_functions \<open>the functions that copy behind a pointer\<close>

text \<open>\<open>DeepCopyObject\<close> returns an interface value: nil, and not an interface that holds a nil pointer.\<close>

definition deepCopyObject :: "copier \<Rightarrow> mval \<Rightarrow> memory \<Rightarrow> mval option \<times> memory" where
  "deepCopyObject f v m = (case f v m of (w, m1) \<Rightarrow> (if w \<noteq> Ref None then Some w else None, m1))"

section \<open>Results and status of a run\<close>

definition CheckResult_layout :: ty where
  [copy_defs]: "CheckResult_layout = struct
     [(''Name'', TPrim), (''Passed'', TPrim), (''Observed'', TPrim), (''Attempts'', TPrim),
      (''Message'', TPrim), (''Duration'', TPtr TPrim)]"

definition CheckResult_DeepCopyInto :: copier where
  [copy_defs]: "CheckResult_DeepCopyInto = copyStruct
     [(''Duration'', copyPtr keep)]"

definition CheckResult_DeepCopy :: copier where
  [copy_functions]: "CheckResult_DeepCopy = copyPtr CheckResult_DeepCopyInto"

definition PodResult_layout :: ty where
  [copy_defs]: "PodResult_layout = struct
     [(''PodName'', TPrim), (''NodeName'', TPrim), (''StartTime'', TPtr TPrim),
      (''CompletionTime'', TPtr TPrim), (''Checks'', TSlice CheckResult_layout)]"

definition PodResult_DeepCopyInto :: "externals \<Rightarrow> copier" where
  [copy_defs]: "PodResult_DeepCopyInto X = copyStruct
     [(''StartTime'', x_Time_DeepCopy X), (''CompletionTime'', x_Time_DeepCopy X),
      (''Checks'', copySlice CheckResult_DeepCopyInto)]"

definition PodResult_DeepCopy :: "externals \<Rightarrow> copier" where
  [copy_functions]: "PodResult_DeepCopy X = copyPtr (PodResult_DeepCopyInto X)"

definition RunnerStatus_layout :: ty where
  [copy_defs]: "RunnerStatus_layout = struct
     [(''Name'', TPrim), (''Pods'', TSlice PodResult_layout)]"

definition RunnerStatus_DeepCopyInto :: "externals \<Rightarrow> copier" where
  [copy_defs]: "RunnerStatus_DeepCopyInto X = copyStruct
     [(''Pods'', copySlice (PodResult_DeepCopyInto X))]"

definition RunnerStatus_DeepCopy :: "externals \<Rightarrow> copier" where
  [copy_functions]: "RunnerStatus_DeepCopy X = copyPtr (RunnerStatus_DeepCopyInto X)"

definition RunSummary_layout :: ty where
  [copy_defs]: "RunSummary_layout = struct
     [(''Total'', TPrim), (''Passed'', TPrim), (''Failed'', TPrim)]"

definition RunSummary_DeepCopyInto :: copier where
  [copy_defs]: "RunSummary_DeepCopyInto = copyStruct []"

definition RunSummary_DeepCopy :: copier where
  [copy_functions]: "RunSummary_DeepCopy = copyPtr RunSummary_DeepCopyInto"

definition CheckRunStatus_layout :: "externals \<Rightarrow> ty" where
  [copy_defs]: "CheckRunStatus_layout X = struct
     [(''ObservedGeneration'', TPrim), (''Phase'', TPrim), (''StartTime'', TPtr TPrim),
      (''CompletionTime'', TPtr TPrim), (''Runners'', TSlice RunnerStatus_layout),
      (''Summary'', TPtr RunSummary_layout), (''Conditions'', TSlice (x_Condition X))]"

definition CheckRunStatus_DeepCopyInto :: "externals \<Rightarrow> copier" where
  [copy_defs]: "CheckRunStatus_DeepCopyInto X = copyStruct
     [(''StartTime'', x_Time_DeepCopy X), (''CompletionTime'', x_Time_DeepCopy X),
      (''Runners'', copySlice (RunnerStatus_DeepCopyInto X)), (''Summary'', copyPtr keep),
      (''Conditions'', copySlice (x_Condition_DeepCopyInto X))]"

definition CheckRunStatus_DeepCopy :: "externals \<Rightarrow> copier" where
  [copy_functions]: "CheckRunStatus_DeepCopy X = copyPtr (CheckRunStatus_DeepCopyInto X)"

section \<open>Checks and runners\<close>

definition TCPCheck_layout :: ty where
  [copy_defs]: "TCPCheck_layout = struct
     [(''Address'', TPrim), (''Timeout'', TPtr TPrim)]"

definition TCPCheck_DeepCopyInto :: copier where
  [copy_defs]: "TCPCheck_DeepCopyInto = copyStruct
     [(''Timeout'', copyPtr keep)]"

definition TCPCheck_DeepCopy :: copier where
  [copy_functions]: "TCPCheck_DeepCopy = copyPtr TCPCheck_DeepCopyInto"

definition HTTPHeader_layout :: ty where
  [copy_defs]: "HTTPHeader_layout = struct
     [(''Name'', TPrim), (''Value'', TPrim)]"

definition HTTPHeader_DeepCopyInto :: copier where
  [copy_defs]: "HTTPHeader_DeepCopyInto = copyStruct []"

definition HTTPHeader_DeepCopy :: copier where
  [copy_functions]: "HTTPHeader_DeepCopy = copyPtr HTTPHeader_DeepCopyInto"

definition HTTPCheck_layout :: ty where
  [copy_defs]: "HTTPCheck_layout = struct
     [(''URL'', TPrim), (''Method'', TPrim), (''Headers'', TSlice HTTPHeader_layout),
      (''Timeout'', TPtr TPrim), (''ExpectedStatus'', TSlice TPrim)]"

definition HTTPCheck_DeepCopyInto :: copier where
  [copy_defs]: "HTTPCheck_DeepCopyInto = copyStruct
     [(''Headers'', copySlice keep), (''Timeout'', copyPtr keep), (''ExpectedStatus'', copySlice keep)]"

definition HTTPCheck_DeepCopy :: copier where
  [copy_functions]: "HTTPCheck_DeepCopy = copyPtr HTTPCheck_DeepCopyInto"

definition GRPCTLS_layout :: ty where
  [copy_defs]: "GRPCTLS_layout = struct
     [(''InsecureSkipVerify'', TPrim)]"

definition GRPCTLS_DeepCopyInto :: copier where
  [copy_defs]: "GRPCTLS_DeepCopyInto = copyStruct []"

definition GRPCTLS_DeepCopy :: copier where
  [copy_functions]: "GRPCTLS_DeepCopy = copyPtr GRPCTLS_DeepCopyInto"

definition GRPCCheck_layout :: ty where
  [copy_defs]: "GRPCCheck_layout = struct
     [(''Address'', TPrim), (''Service'', TPrim), (''Timeout'', TPtr TPrim), (''TLS'', TPtr GRPCTLS_layout)]"

definition GRPCCheck_DeepCopyInto :: copier where
  [copy_defs]: "GRPCCheck_DeepCopyInto = copyStruct
     [(''Timeout'', copyPtr keep), (''TLS'', copyPtr keep)]"

definition GRPCCheck_DeepCopy :: copier where
  [copy_functions]: "GRPCCheck_DeepCopy = copyPtr GRPCCheck_DeepCopyInto"

definition RetryPolicy_layout :: ty where
  [copy_defs]: "RetryPolicy_layout = struct
     [(''Attempts'', TPrim), (''Delay'', TPtr TPrim)]"

definition RetryPolicy_DeepCopyInto :: copier where
  [copy_defs]: "RetryPolicy_DeepCopyInto = copyStruct
     [(''Delay'', copyPtr keep)]"

definition RetryPolicy_DeepCopy :: copier where
  [copy_functions]: "RetryPolicy_DeepCopy = copyPtr RetryPolicy_DeepCopyInto"

definition CheckSpec_layout :: ty where
  [copy_defs]: "CheckSpec_layout = struct
     [(''Name'', TPrim), (''Runners'', TSlice TPrim), (''TCP'', TPtr TCPCheck_layout),
      (''HTTP'', TPtr HTTPCheck_layout), (''GRPC'', TPtr GRPCCheck_layout), (''Expect'', TPrim),
      (''Retries'', TPtr RetryPolicy_layout)]"

definition CheckSpec_DeepCopyInto :: copier where
  [copy_defs]: "CheckSpec_DeepCopyInto = copyStruct
     [(''Runners'', copySlice keep), (''TCP'', copyPtr TCPCheck_DeepCopyInto),
      (''HTTP'', copyPtr HTTPCheck_DeepCopyInto), (''GRPC'', copyPtr GRPCCheck_DeepCopyInto),
      (''Retries'', copyPtr RetryPolicy_DeepCopyInto)]"

definition CheckSpec_DeepCopy :: copier where
  [copy_functions]: "CheckSpec_DeepCopy = copyPtr CheckSpec_DeepCopyInto"

definition TopologySpread_layout :: ty where
  [copy_defs]: "TopologySpread_layout = struct
     [(''TopologyKey'', TPrim), (''WhenUnsatisfiable'', TPrim)]"

definition TopologySpread_DeepCopyInto :: copier where
  [copy_defs]: "TopologySpread_DeepCopyInto = copyStruct []"

definition TopologySpread_DeepCopy :: copier where
  [copy_functions]: "TopologySpread_DeepCopy = copyPtr TopologySpread_DeepCopyInto"

definition RunnerSpec_layout :: "externals \<Rightarrow> ty" where
  [copy_defs]: "RunnerSpec_layout X = struct
     [(''Name'', TPrim), (''Replicas'', TPtr TPrim), (''NodeSelector'', TMap TPrim),
      (''Tolerations'', TSlice (x_Toleration X)), (''TopologySpread'', TPtr TopologySpread_layout)]"

definition RunnerSpec_DeepCopyInto :: "externals \<Rightarrow> copier" where
  [copy_defs]: "RunnerSpec_DeepCopyInto X = copyStruct
     [(''Replicas'', copyPtr keep), (''NodeSelector'', copyMap),
      (''Tolerations'', copySlice (x_Toleration_DeepCopyInto X)), (''TopologySpread'', copyPtr keep)]"

definition RunnerSpec_DeepCopy :: "externals \<Rightarrow> copier" where
  [copy_functions]: "RunnerSpec_DeepCopy X = copyPtr (RunnerSpec_DeepCopyInto X)"

definition CheckSuiteTemplate_layout :: "externals \<Rightarrow> ty" where
  [copy_defs]: "CheckSuiteTemplate_layout X = struct
     [(''Runners'', TSlice (RunnerSpec_layout X)), (''Checks'', TSlice CheckSpec_layout),
      (''Timeout'', TPtr TPrim)]"

definition CheckSuiteTemplate_DeepCopyInto :: "externals \<Rightarrow> copier" where
  [copy_defs]: "CheckSuiteTemplate_DeepCopyInto X = copyStruct
     [(''Runners'', copySlice (RunnerSpec_DeepCopyInto X)), (''Checks'', copySlice CheckSpec_DeepCopyInto),
      (''Timeout'', copyPtr keep)]"

definition CheckSuiteTemplate_DeepCopy :: "externals \<Rightarrow> copier" where
  [copy_functions]: "CheckSuiteTemplate_DeepCopy X = copyPtr (CheckSuiteTemplate_DeepCopyInto X)"

section \<open>Runs\<close>

definition CheckRunSpec_layout :: "externals \<Rightarrow> ty" where
  [copy_defs]: "CheckRunSpec_layout X = struct
     [(''SuiteRef'', TPtr TPrim), (''Suite'', CheckSuiteTemplate_layout X)]"

definition CheckRunSpec_DeepCopyInto :: "externals \<Rightarrow> copier" where
  [copy_defs]: "CheckRunSpec_DeepCopyInto X = copyStruct
     [(''SuiteRef'', copyPtr keep), (''Suite'', CheckSuiteTemplate_DeepCopyInto X)]"

definition CheckRunSpec_DeepCopy :: "externals \<Rightarrow> copier" where
  [copy_functions]: "CheckRunSpec_DeepCopy X = copyPtr (CheckRunSpec_DeepCopyInto X)"

definition CheckRun_layout :: "externals \<Rightarrow> ty" where
  [copy_defs]: "CheckRun_layout X = struct
     [(''TypeMeta'', TPrim), (''ObjectMeta'', x_ObjectMeta X), (''Spec'', CheckRunSpec_layout X),
      (''Status'', CheckRunStatus_layout X)]"

definition CheckRun_DeepCopyInto :: "externals \<Rightarrow> copier" where
  [copy_defs]: "CheckRun_DeepCopyInto X = copyStruct
     [(''TypeMeta'', keep), (''ObjectMeta'', x_ObjectMeta_DeepCopyInto X),
      (''Spec'', CheckRunSpec_DeepCopyInto X), (''Status'', CheckRunStatus_DeepCopyInto X)]"

definition CheckRun_DeepCopy :: "externals \<Rightarrow> copier" where
  [copy_functions]: "CheckRun_DeepCopy X = copyPtr (CheckRun_DeepCopyInto X)"

definition CheckRun_DeepCopyObject :: "externals \<Rightarrow> mval \<Rightarrow> memory \<Rightarrow> mval option \<times> memory" where
  "CheckRun_DeepCopyObject X = deepCopyObject (CheckRun_DeepCopy X)"

definition CheckRunList_layout :: "externals \<Rightarrow> ty" where
  [copy_defs]: "CheckRunList_layout X = struct
     [(''TypeMeta'', TPrim), (''ListMeta'', x_ListMeta X), (''Items'', TSlice (CheckRun_layout X))]"

definition CheckRunList_DeepCopyInto :: "externals \<Rightarrow> copier" where
  [copy_defs]: "CheckRunList_DeepCopyInto X = copyStruct
     [(''TypeMeta'', keep), (''ListMeta'', x_ListMeta_DeepCopyInto X),
      (''Items'', copySlice (CheckRun_DeepCopyInto X))]"

definition CheckRunList_DeepCopy :: "externals \<Rightarrow> copier" where
  [copy_functions]: "CheckRunList_DeepCopy X = copyPtr (CheckRunList_DeepCopyInto X)"

definition CheckRunList_DeepCopyObject :: "externals \<Rightarrow> mval \<Rightarrow> memory \<Rightarrow> mval option \<times> memory" where
  "CheckRunList_DeepCopyObject X = deepCopyObject (CheckRunList_DeepCopy X)"

section \<open>Suites\<close>

definition HistoryLimit_layout :: ty where
  [copy_defs]: "HistoryLimit_layout = struct
     [(''Successful'', TPtr TPrim), (''Failed'', TPtr TPrim)]"

definition HistoryLimit_DeepCopyInto :: copier where
  [copy_defs]: "HistoryLimit_DeepCopyInto = copyStruct
     [(''Successful'', copyPtr keep), (''Failed'', copyPtr keep)]"

definition HistoryLimit_DeepCopy :: copier where
  [copy_functions]: "HistoryLimit_DeepCopy = copyPtr HistoryLimit_DeepCopyInto"

definition CheckSuiteSpec_layout :: "externals \<Rightarrow> ty" where
  [copy_defs]: "CheckSuiteSpec_layout X = struct
     [(''Schedule'', TPtr TPrim), (''Suspend'', TPtr TPrim), (''ConcurrencyPolicy'', TPrim),
      (''StartingDeadline'', TPtr TPrim), (''HistoryLimit'', TPtr HistoryLimit_layout),
      (''CheckSuiteTemplate'', CheckSuiteTemplate_layout X)]"

definition CheckSuiteSpec_DeepCopyInto :: "externals \<Rightarrow> copier" where
  [copy_defs]: "CheckSuiteSpec_DeepCopyInto X = copyStruct
     [(''Schedule'', copyPtr keep), (''Suspend'', copyPtr keep), (''StartingDeadline'', copyPtr keep),
      (''HistoryLimit'', copyPtr HistoryLimit_DeepCopyInto),
      (''CheckSuiteTemplate'', CheckSuiteTemplate_DeepCopyInto X)]"

definition CheckSuiteSpec_DeepCopy :: "externals \<Rightarrow> copier" where
  [copy_functions]: "CheckSuiteSpec_DeepCopy X = copyPtr (CheckSuiteSpec_DeepCopyInto X)"

definition CheckSuiteStatus_layout :: "externals \<Rightarrow> ty" where
  [copy_defs]: "CheckSuiteStatus_layout X = struct
     [(''ObservedGeneration'', TPrim), (''LastScheduleTime'', TPtr TPrim), (''LastManualTrigger'', TPrim),
      (''Active'', TSlice TPrim), (''Conditions'', TSlice (x_Condition X))]"

definition CheckSuiteStatus_DeepCopyInto :: "externals \<Rightarrow> copier" where
  [copy_defs]: "CheckSuiteStatus_DeepCopyInto X = copyStruct
     [(''LastScheduleTime'', x_Time_DeepCopy X), (''Active'', copySlice keep),
      (''Conditions'', copySlice (x_Condition_DeepCopyInto X))]"

definition CheckSuiteStatus_DeepCopy :: "externals \<Rightarrow> copier" where
  [copy_functions]: "CheckSuiteStatus_DeepCopy X = copyPtr (CheckSuiteStatus_DeepCopyInto X)"

definition CheckSuite_layout :: "externals \<Rightarrow> ty" where
  [copy_defs]: "CheckSuite_layout X = struct
     [(''TypeMeta'', TPrim), (''ObjectMeta'', x_ObjectMeta X), (''Spec'', CheckSuiteSpec_layout X),
      (''Status'', CheckSuiteStatus_layout X)]"

definition CheckSuite_DeepCopyInto :: "externals \<Rightarrow> copier" where
  [copy_defs]: "CheckSuite_DeepCopyInto X = copyStruct
     [(''TypeMeta'', keep), (''ObjectMeta'', x_ObjectMeta_DeepCopyInto X),
      (''Spec'', CheckSuiteSpec_DeepCopyInto X), (''Status'', CheckSuiteStatus_DeepCopyInto X)]"

definition CheckSuite_DeepCopy :: "externals \<Rightarrow> copier" where
  [copy_functions]: "CheckSuite_DeepCopy X = copyPtr (CheckSuite_DeepCopyInto X)"

definition CheckSuite_DeepCopyObject :: "externals \<Rightarrow> mval \<Rightarrow> memory \<Rightarrow> mval option \<times> memory" where
  "CheckSuite_DeepCopyObject X = deepCopyObject (CheckSuite_DeepCopy X)"

definition CheckSuiteList_layout :: "externals \<Rightarrow> ty" where
  [copy_defs]: "CheckSuiteList_layout X = struct
     [(''TypeMeta'', TPrim), (''ListMeta'', x_ListMeta X), (''Items'', TSlice (CheckSuite_layout X))]"

definition CheckSuiteList_DeepCopyInto :: "externals \<Rightarrow> copier" where
  [copy_defs]: "CheckSuiteList_DeepCopyInto X = copyStruct
     [(''TypeMeta'', keep), (''ListMeta'', x_ListMeta_DeepCopyInto X),
      (''Items'', copySlice (CheckSuite_DeepCopyInto X))]"

definition CheckSuiteList_DeepCopy :: "externals \<Rightarrow> copier" where
  [copy_functions]: "CheckSuiteList_DeepCopy X = copyPtr (CheckSuiteList_DeepCopyInto X)"

definition CheckSuiteList_DeepCopyObject :: "externals \<Rightarrow> mval \<Rightarrow> memory \<Rightarrow> mval option \<times> memory" where
  "CheckSuiteList_DeepCopyObject X = deepCopyObject (CheckSuiteList_DeepCopy X)"

section \<open>All of them\<close>

definition generated :: "externals \<Rightarrow> (string \<times> ty \<times> copier \<times> copier) list" where
  [copy_defs]: "generated X =
    [(''CheckResult'', CheckResult_layout, CheckResult_DeepCopyInto,
        CheckResult_DeepCopy),
     (''PodResult'', PodResult_layout, PodResult_DeepCopyInto X,
        PodResult_DeepCopy X),
     (''RunnerStatus'', RunnerStatus_layout, RunnerStatus_DeepCopyInto X,
        RunnerStatus_DeepCopy X),
     (''RunSummary'', RunSummary_layout, RunSummary_DeepCopyInto,
        RunSummary_DeepCopy),
     (''CheckRunStatus'', CheckRunStatus_layout X, CheckRunStatus_DeepCopyInto X,
        CheckRunStatus_DeepCopy X),
     (''TCPCheck'', TCPCheck_layout, TCPCheck_DeepCopyInto,
        TCPCheck_DeepCopy),
     (''HTTPHeader'', HTTPHeader_layout, HTTPHeader_DeepCopyInto,
        HTTPHeader_DeepCopy),
     (''HTTPCheck'', HTTPCheck_layout, HTTPCheck_DeepCopyInto,
        HTTPCheck_DeepCopy),
     (''GRPCTLS'', GRPCTLS_layout, GRPCTLS_DeepCopyInto,
        GRPCTLS_DeepCopy),
     (''GRPCCheck'', GRPCCheck_layout, GRPCCheck_DeepCopyInto,
        GRPCCheck_DeepCopy),
     (''RetryPolicy'', RetryPolicy_layout, RetryPolicy_DeepCopyInto,
        RetryPolicy_DeepCopy),
     (''CheckSpec'', CheckSpec_layout, CheckSpec_DeepCopyInto,
        CheckSpec_DeepCopy),
     (''TopologySpread'', TopologySpread_layout, TopologySpread_DeepCopyInto,
        TopologySpread_DeepCopy),
     (''RunnerSpec'', RunnerSpec_layout X, RunnerSpec_DeepCopyInto X,
        RunnerSpec_DeepCopy X),
     (''CheckSuiteTemplate'', CheckSuiteTemplate_layout X, CheckSuiteTemplate_DeepCopyInto X,
        CheckSuiteTemplate_DeepCopy X),
     (''CheckRunSpec'', CheckRunSpec_layout X, CheckRunSpec_DeepCopyInto X,
        CheckRunSpec_DeepCopy X),
     (''CheckRun'', CheckRun_layout X, CheckRun_DeepCopyInto X,
        CheckRun_DeepCopy X),
     (''CheckRunList'', CheckRunList_layout X, CheckRunList_DeepCopyInto X,
        CheckRunList_DeepCopy X),
     (''HistoryLimit'', HistoryLimit_layout, HistoryLimit_DeepCopyInto,
        HistoryLimit_DeepCopy),
     (''CheckSuiteSpec'', CheckSuiteSpec_layout X, CheckSuiteSpec_DeepCopyInto X,
        CheckSuiteSpec_DeepCopy X),
     (''CheckSuiteStatus'', CheckSuiteStatus_layout X, CheckSuiteStatus_DeepCopyInto X,
        CheckSuiteStatus_DeepCopy X),
     (''CheckSuite'', CheckSuite_layout X, CheckSuite_DeepCopyInto X,
        CheckSuite_DeepCopy X),
     (''CheckSuiteList'', CheckSuiteList_layout X, CheckSuiteList_DeepCopyInto X,
        CheckSuiteList_DeepCopy X)]"

section \<open>They copy deeply\<close>

lemma covers_fields:
  "list_all (\<lambda>(n, t). deep t (fieldCopier cs n)) fs \<Longrightarrow> covers cs (foldr (\<lambda>(n, t) rest. Field n t rest) fs NoField)"
  by (induction fs) auto

lemma deep_layout: "list_all (\<lambda>(n, t). deep t (fieldCopier cs n)) fs \<Longrightarrow> deep (struct fs) (copyStruct cs)"
  unfolding struct_def by (rule deep_struct [OF covers_fields])

lemma flat_struct [simp]: "flat (struct fs) \<longleftrightarrow> list_all (\<lambda>(n, t). flat t) fs"
  by (induction fs) (auto simp: struct_def)

locale external_copies =
  fixes X :: externals
  assumes meta [deep_intros]: "deep (x_ObjectMeta X) (x_ObjectMeta_DeepCopyInto X)"
    and list_meta [deep_intros]: "deep (x_ListMeta X) (x_ListMeta_DeepCopyInto X)"
    and toleration [deep_intros]: "deep (x_Toleration X) (x_Toleration_DeepCopyInto X)"
    and condition [deep_intros]: "deep (x_Condition X) (x_Condition_DeepCopyInto X)"
    and time [deep_intros]: "deep (TPtr TPrim) (x_Time_DeepCopy X)"
begin

text \<open>Every field that refers to something is copied on its own.\<close>

lemma generated_into: "list_all (\<lambda>(n, t, into, copy). deep t into) (generated X)"
  unfolding copy_defs list.pred_inject prod.case
  by (rule conjI deep_intros deep_layout TrueI | simp add: fieldCopier_def)+

lemma generated_deep:
  assumes "(n, t, into, copy) \<in> set (generated X)"
  shows "deep t into" "copy = copyPtr into" "deep (TPtr t) copy"
proof -
  show into: "deep t into" using generated_into assms by (auto simp: list_all_iff)
  have "list_all (\<lambda>(n, t, into, copy). copy = copyPtr into) (generated X)"
    by (simp add: generated_def copy_functions)
  then show "copy = copyPtr into" using assms by (auto simp: list_all_iff)
  with into show "deep (TPtr t) copy" by (simp add: deep_ptr)
qed

end

text \<open>Library types with references of each kind, and the copy functions they have.\<close>

definition refExternals :: externals where
  "refExternals =
     \<lparr>x_ObjectMeta = struct [(''Name'', TPrim), (''Labels'', TMap TPrim),
        (''OwnerReferences'', TSlice (struct [(''UID'', TPrim), (''Controller'', TPtr TPrim)]))],
      x_ListMeta = struct [(''ResourceVersion'', TPrim), (''RemainingItemCount'', TPtr TPrim)],
      x_Toleration = struct [(''Key'', TPrim), (''TolerationSeconds'', TPtr TPrim)],
      x_Condition = struct [(''Type'', TPrim), (''Status'', TPrim)],
      x_ObjectMeta_DeepCopyInto = copyStruct [(''Labels'', copyMap),
        (''OwnerReferences'', copySlice (copyStruct [(''Controller'', copyPtr keep)]))],
      x_ListMeta_DeepCopyInto = copyStruct [(''RemainingItemCount'', copyPtr keep)],
      x_Toleration_DeepCopyInto = copyStruct [(''TolerationSeconds'', copyPtr keep)],
      x_Condition_DeepCopyInto = copyStruct [],
      x_Time_DeepCopy = copyPtr keep\<rparr>"

interpretation library: external_copies refExternals
  by unfold_locales
    (simp_all only: refExternals_def externals.simps, (rule conjI deep_intros deep_layout TrueI | simp add: fieldCopier_def)+)

end
