(* ===== verification/Deep_Copy_Properties.thy ===== *)
theory Deep_Copy_Properties
  imports Deep_Copy
begin

text \<open>
  Properties of the generated copy functions, over memory in which values may share cells. They justify
  that the other theories treat a deep copy as the value itself. The facts behind them are in
  \<open>Go_Memory\<close> and \<open>Deep_Copy\<close>.
\<close>

section \<open>A copy equals its original\<close>

text \<open>C29: for every type of the API, what \<open>DeepCopyInto\<close> writes is, with all references followed, what the
  original is, no cell that existed before is changed, and every reference in the copy, however deep, is to a cell
  that did not exist before, so the copy shares none with the original. \<open>DeepCopy\<close> returns nil for nil,
  with nothing allocated, and a pointer to such a copy otherwise.\<close>

theorem copies_equal:
  assumes "external_copies X" and "(n, t, into, copy) \<in> set (generated X)"
    and "has_type m t v" and "into v m = (w, m')"
  shows "view m' t w = view m t v \<and> has_type m' t w \<and> prefix m m'
    \<and> (\<forall>a \<in> reach m' t w. length m \<le> a \<and> a \<notin> reach m t v)
    \<and> copy (Ref None) m = (Ref None, m)
    \<and> (\<forall>a. a < length m \<and> m ! a = v \<longrightarrow> copy (Ref (Some a)) m = (Ref (Some (length m')), m' @ [w]))"
proof -
  note deep = deepD [OF external_copies.generated_deep(1) [OF assms(1,2)] assms(3,4)]
  have "a \<notin> reach m t v" if "length m \<le> a" for a using reach_bound [OF assms(3), of a] that by linarith
  then show ?thesis
    using deep assms(4) by (auto simp: external_copies.generated_deep(2) [OF assms(1,2)] copyPtr_def alloc_def)
qed

text \<open>A template with one runner that selects nodes, in memory.\<close>

definition templateMemory :: memory where
  "templateMemory =
     [Table [(''zone'', Prim (PStr ''a''))],
      Array [Struct [(''Name'', Prim (PStr ''zone-a'')), (''Replicas'', Ref None), (''NodeSelector'', Ref (Some 0)),
        (''Tolerations'', Ref None), (''TopologySpread'', Ref None)]],
      Struct [(''Runners'', Ref (Some 1)), (''Checks'', Ref None), (''Timeout'', Ref None)]]"

definition templatePtr :: mval where
  "templatePtr = Ref (Some 2)"

abbreviation refTemplate :: ty where
  "refTemplate \<equiv> CheckSuiteTemplate_layout refExternals"

lemma template_generated: "(''CheckSuiteTemplate'', refTemplate,
    CheckSuiteTemplate_DeepCopyInto refExternals, CheckSuiteTemplate_DeepCopy refExternals) \<in> set (generated refExternals)"
  by (simp add: generated_def)

lemma template_typed: "has_type templateMemory refTemplate (templateMemory ! 2)"
  "has_type templateMemory (TPtr refTemplate) templatePtr"
  by (simp_all add: templateMemory_def templatePtr_def CheckSuiteTemplate_layout_def RunnerSpec_layout_def
      TopologySpread_layout_def struct_def)

text \<open>What the copy of the template is.\<close>

definition templateCopied :: memory where
  "templateCopied = templateMemory @ [Table [(''zone'', Prim (PStr ''a''))],
     Array [Struct [(''Name'', Prim (PStr ''zone-a'')), (''Replicas'', Ref None), (''NodeSelector'', Ref (Some 3)),
       (''Tolerations'', Ref None), (''TopologySpread'', Ref None)]]]"

lemma template_into: "CheckSuiteTemplate_DeepCopyInto refExternals (templateMemory ! 2) templateMemory =
    (Struct [(''Runners'', Ref (Some 4)), (''Checks'', Ref None), (''Timeout'', Ref None)], templateCopied)"
  by (simp add: templateMemory_def templateCopied_def CheckSuiteTemplate_DeepCopyInto_def RunnerSpec_DeepCopyInto_def copyStruct_def
      fieldCopier_def copySlice_def copyMap_def copyPtr_def keep_def alloc_def)

theorem copies_equal_witness:
  "view templateCopied refTemplate (Struct [(''Runners'', Ref (Some 4)), (''Checks'', Ref None), (''Timeout'', Ref None)]) =
     view templateMemory refTemplate (templateMemory ! 2)
   \<and> reach templateCopied refTemplate (Struct [(''Runners'', Ref (Some 4)), (''Checks'', Ref None), (''Timeout'', Ref None)]) \<inter>
     reach templateMemory refTemplate (templateMemory ! 2) = {}
   \<and> CheckSuiteTemplate_DeepCopy refExternals templatePtr templateMemory =
     (Ref (Some 5), templateCopied @ [Struct [(''Runners'', Ref (Some 4)), (''Checks'', Ref None), (''Timeout'', Ref None)]])"
proof -
  note * = copies_equal [OF library.external_copies_axioms template_generated template_typed(1) template_into]
  have "2 < length templateMemory" "length templateCopied = 5" by (simp_all add: templateMemory_def templateCopied_def)
  then show ?thesis using * by (auto simp: templatePtr_def)
qed

section \<open>A copy shares nothing with its original\<close>

text \<open>C28: for every type of the API, the copy \<open>DeepCopy\<close> returns and the original do not see each other's
  changes: whatever is written to the cells there were before the copy, the copy stays as it is; whatever is
  written to the cells of the copy, the original stays as it is.\<close>

theorem copies_isolated:
  assumes "external_copies X" and "(n, t, into, copy) \<in> set (generated X)"
    and "has_type m (TPtr t) p" and "copy p m = (q, m')" and "length m'' = length m'"
  shows "((\<forall>a. length m \<le> a \<longrightarrow> m'' ! a = m' ! a) \<longrightarrow> view m'' (TPtr t) q = view m (TPtr t) p)
    \<and> ((\<forall>a. a \<notin> reach m' (TPtr t) q \<longrightarrow> m'' ! a = m' ! a) \<longrightarrow> view m'' (TPtr t) p = view m (TPtr t) p)"
  using deep_isolated [OF external_copies.generated_deep(3) [OF assms(1,2)] assms(3-5)] by blast

text \<open>The template of a run made from a suite, after the node selector of the suite has been emptied.\<close>

theorem copies_isolated_witness:
  "\<exists>q m'. CheckSuiteTemplate_DeepCopy refExternals templatePtr templateMemory = (q, m')
     \<and> view (m'[0 := Table []]) (TPtr refTemplate) q = view templateMemory (TPtr refTemplate) templatePtr
     \<and> view (m'[0 := Table []]) (TPtr refTemplate) templatePtr \<noteq> view templateMemory (TPtr refTemplate) templatePtr"
proof -
  obtain q m' where c: "CheckSuiteTemplate_DeepCopy refExternals templatePtr templateMemory = (q, m')" by fastforce
  have m': "m' = templateCopied @ [Struct [(''Runners'', Ref (Some 4)), (''Checks'', Ref None), (''Timeout'', Ref None)]]"
    using c template_into by (simp add: CheckSuiteTemplate_DeepCopy_def copyPtr_def templatePtr_def alloc_def)
  have "\<forall>a. length templateMemory \<le> a \<longrightarrow> (m'[0 := Table []]) ! a = m' ! a" by (simp add: templateMemory_def)
  with copies_isolated [OF library.external_copies_axioms template_generated template_typed(2) c, of "m'[0 := Table []]"]
  have "view (m'[0 := Table []]) (TPtr refTemplate) q = view templateMemory (TPtr refTemplate) templatePtr" by simp
  moreover have "view (m'[0 := Table []]) (TPtr refTemplate) templatePtr \<noteq> view templateMemory (TPtr refTemplate) templatePtr"
    by (simp add: m' templateCopied_def templateMemory_def templatePtr_def CheckSuiteTemplate_layout_def RunnerSpec_layout_def
        TopologySpread_layout_def struct_def)
  ultimately show ?thesis using c by blast
qed

end
