(* ===== verification/End_To_End.thy ===== *)
theory End_To_End
  imports Cluster
begin

text \<open>
  From the probes to the verdict: the runner and the run controller put together. \<open>reported_by\<close> says that an
  entry under \<open>runners\<close> is what a runner process that ended well has applied; between the two there is only
  the JSON of the entry, which is assumed to keep its results (\<open>keeps_results\<close>).
\<close>

section \<open>Reports\<close>

definition keeps_results :: "pkgs \<Rightarrow> bool" where
  "keeps_results P \<longleftrightarrow> (\<forall>a b m. p_pod_map P a = Inr m \<longrightarrow> p_pod_map P b = Inr m \<longrightarrow> pod_Checks a = pod_Checks b)"

text \<open>Some runner process for the runner \<open>rnName\<close> of the run has reported the entry \<open>pod\<close>.\<close>

definition reported_by :: "'v net \<Rightarrow> Options \<Rightarrow> CheckRun \<Rightarrow> string \<Rightarrow> PodResult \<Rightarrow> bool" where
  "reported_by N opts run rnName pod \<longleftrightarrow>
     (\<exists>(K :: 'v kube) P onError order cfg s t read doc.
        retrier onError \<and> schedules order \<and> keeps_results P \<and> cfg_RunnerName cfg = rnName
        \<and> fst (k_get_run K (cfg_Namespace cfg, cfg_CheckRunName cfg) (world s)) = Inr read \<and> run_Spec read = run_Spec run
        \<and> Run K P onError N (standardRegistry N opts) order cfg s = (RunOk, t)
        \<and> BuildApplyDocument P (cfg_Namespace cfg) (cfg_CheckRunName cfg) rnName pod = Inr doc
        \<and> List.last (acts t) = Req (ApplyRunStatus doc (cfg_PodName cfg)))"

abbreviation assignedChecks :: "CheckRun \<Rightarrow> string \<Rightarrow> CheckSpec list" where
  "assignedChecks run rnName \<equiv> FilterChecks (tpl_Checks (run_Template run)) rnName"

lemma BuildApplyDocument_results:
  assumes "keeps_results P" and "BuildApplyDocument P ns name rn a = Inr doc" and "BuildApplyDocument P ns name rn b = Inr doc"
  shows "pod_Checks a = pod_Checks b"
proof -
  obtain m where m: "p_pod_map P a = Inr m" using assms(2) by (cases "p_pod_map P a") (simp_all add: BuildApplyDocument_def)
  obtain m' where m': "p_pod_map P b = Inr m'" using assms(3) by (cases "p_pod_map P b") (simp_all add: BuildApplyDocument_def)
  have "m = m'" using assms(2,3) m m' by (simp add: BuildApplyDocument_def) blast
  then show ?thesis using assms(1) m m' unfolding keeps_results_def by blast
qed

lemma reported_results:
  assumes "guarded_network (N :: 'v net)" and "reported_by N opts run rnName pod"
  shows "list_all2 (\<lambda>spec r. \<exists>s u. executeCheck N (standardRegistry N opts) spec s = (Some r, u))
    (assignedChecks run rnName) (pod_Checks pod)"
proof -
  from assms(2) obtain K :: "'v kube" and P onError order cfg s t read doc where
    r: "retrier onError" "schedules order" "keeps_results P" "cfg_RunnerName cfg = rnName"
      "fst (k_get_run K (cfg_Namespace cfg, cfg_CheckRunName cfg) (world s)) = Inr read" "run_Spec read = run_Spec run"
      "Run K P onError N (standardRegistry N opts) order cfg s = (RunOk, t)"
      "BuildApplyDocument P (cfg_Namespace cfg) (cfg_CheckRunName cfg) rnName pod = Inr doc"
      "List.last (acts t) = Req (ApplyRunStatus doc (cfg_PodName cfg))"
    unfolding reported_by_def by (elim exE conjE) (rule that)
  obtain run' results pod' doc' probes n where
    e: "fst (k_get_run K (cfg_Namespace cfg, cfg_CheckRunName cfg) (world s)) = Inr run'"
      "pod_Checks pod' = results"
      "BuildApplyDocument P (cfg_Namespace cfg) (cfg_CheckRunName cfg) (cfg_RunnerName cfg) pod' = Inr doc'" "1 \<le> n"
      "acts t = acts s @ [Req (GetRun (cfg_Namespace cfg, cfg_CheckRunName cfg))] @ probes @ replicate n (report_action cfg doc')"
      "list_all2 (\<lambda>spec r. \<exists>s u. executeCheck N (standardRegistry N opts) spec s = (Some r, u))
         (FilterChecks (tpl_Checks (run_Template run')) (cfg_RunnerName cfg)) results"
    by (rule Run_ok_trace [OF r(1) assms(1) r(2) r(7)])
  have "List.last (acts t) = report_action cfg doc'" using e(4,5) by simp
  then have "doc' = doc" using r(9) by (simp add: report_action_def)
  then have "pod_Checks pod = results"
    using BuildApplyDocument_results [OF r(3), of _ _ _ pod' doc pod] e(2,3) r(4,8) by simp
  moreover have "run' = read" using e(1) r(5) by simp
  ultimately show ?thesis using e(6) r(4,6) by simp
qed

section \<open>Verdicts\<close>

definition as_expected :: "CheckSpec \<Rightarrow> CheckResult \<Rightarrow> bool" where
  "as_expected spec r \<longleftrightarrow> observed_string (res_Observed r) = expected_string (expectedOutcome spec)"

lemma executed_passed:
  assumes "valid_check spec" and "executeCheck N (standardRegistry N opts) spec s = (Some r, u)"
  shows "res_Name r = chk_Name spec \<and> (res_Passed r \<longleftrightarrow> as_expected spec r)"
proof -
  obtain chk where "ForSpec (standardRegistry N opts) spec = Some chk"
    using assms(1) by (auto simp: valid_check_def ForSpec_standard elim: one_probe_cases)
  then show ?thesis by (rule executeCheck_known [OF _ assms(2)]) (simp add: as_expected_def meets_def)
qed

lemma pods_passed_iff:
  assumes "list_all2 (\<lambda>spec r. res_Name r = chk_Name spec \<and> (res_Passed r \<longleftrightarrow> as_expected spec r)) specs rs"
    and "distinct (map chk_Name specs)" and "pod_Checks pod = rs"
  shows "(\<forall>spec \<in> set specs. podPassed spec pod) \<longleftrightarrow> list_all2 as_expected specs rs"
proof -
  have "(\<forall>spec \<in> set specs. case find (\<lambda>res. res_Name res = chk_Name spec) rs of None \<Rightarrow> False | Some res \<Rightarrow> res_Passed res)
      \<longleftrightarrow> list_all2 as_expected specs rs"
    using assms(1,2)
  proof (induction rule: list_all2_induct)
    case (Cons spec specs r rs)
    have "chk_Name c \<noteq> res_Name r" if "c \<in> set specs" for c
      using Cons.prems Cons.hyps that by (auto simp: image_iff)
    then have "(\<forall>c \<in> set specs. case find (\<lambda>res. res_Name res = chk_Name c) (r # rs) of None \<Rightarrow> False | Some res \<Rightarrow> res_Passed res)
        \<longleftrightarrow> (\<forall>c \<in> set specs. case find (\<lambda>res. res_Name res = chk_Name c) rs of None \<Rightarrow> False | Some res \<Rightarrow> res_Passed res)"
      by (intro ball_cong) (simp_all add: eq_commute)
    then show ?case using Cons by simp
  qed simp
  then show ?thesis by (simp add: podPassed_def assms(3))
qed

text \<open>C2: from the probes to the verdict: when all Jobs are complete within the deadline and every entry of the
  status is the report of a runner process that ended well, the phase is Succeeded if on every pod of every
  runner the last observation of each assigned check is the expected one, and Failed otherwise.\<close>

theorem verdict_reflects_observations:
  assumes "ranges (p_range_jobs P)" and "guarded_network N" and "valid_template (run_Template run)"
    and "reconcileJobs K P run now timeout jobs s = (Inr d, t)"
    and "now \<le> time_add (deref (st_StartTime (run_Status run)) now) timeout"
    and "\<forall>(n, job) \<in> set jobs. jobSucceeded job \<and> \<not> jobFailed job"
    and "\<forall>rn \<in> set (tpl_Runners (run_Template run)).
      deref (rn_Replicas rn) 1 \<le> int (length (podsByRunner run (rn_Name rn)))
      \<and> (\<forall>pod \<in> set (podsByRunner run (rn_Name rn)). reported_by N opts run (rn_Name rn) pod)"
  shows "\<exists>st. writes P run st s t \<and> cs_phase st =
    (if \<forall>rn \<in> set (tpl_Runners (run_Template run)). \<forall>pod \<in> set (podsByRunner run (rn_Name rn)).
          list_all2 as_expected (assignedChecks run (rn_Name rn)) (pod_Checks pod)
     then CheckRunSucceeded else CheckRunFailed)"
proof -
  let ?rns = "tpl_Runners (run_Template run)"
  from reconcileJobs_settles [OF assms(1), of run now timeout jobs s K] obtain st where
    st: "statusFor run now timeout jobs (specPhase run now timeout jobs) st" "writes P run st s t"
    by (auto simp: settles_def assms(4))
  have pod: "(\<forall>spec \<in> set (assignedChecks run (rn_Name rn)). podPassed spec pod) \<longleftrightarrow>
      list_all2 as_expected (assignedChecks run (rn_Name rn)) (pod_Checks pod)"
    if "rn \<in> set ?rns" "pod \<in> set (podsByRunner run (rn_Name rn))" for rn pod
  proof (rule pods_passed_iff [OF _ _ refl])
    have valid: "list_all valid_check (assignedChecks run (rn_Name rn))" "distinct (map chk_Name (assignedChecks run (rn_Name rn)))"
      using assms(3) by (auto simp: valid_template_def FilterChecks_def list_all_iff distinct_map_filter)
    then show "distinct (map chk_Name (assignedChecks run (rn_Name rn)))" by simp
    have "list_all2 (\<lambda>spec r. \<exists>s u. executeCheck N (standardRegistry N opts) spec s = (Some r, u))
        (assignedChecks run (rn_Name rn)) (pod_Checks pod)"
      using assms(2,7) that by (blast intro: reported_results)
    with valid(1) show "list_all2 (\<lambda>spec r. res_Name r = chk_Name spec \<and> (res_Passed r \<longleftrightarrow> as_expected spec r))
        (assignedChecks run (rn_Name rn)) (pod_Checks pod)"
      unfolding list_all2_conv_all_nth list_all_length using executed_passed by metis
  qed
  have all: "(\<forall>p \<in> set (assignments run). assignmentPassed run p) \<longleftrightarrow>
      (\<forall>rn \<in> set ?rns. \<forall>pod \<in> set (podsByRunner run (rn_Name rn)).
        list_all2 as_expected (assignedChecks run (rn_Name rn)) (pod_Checks pod))"
    using pod by (auto simp: assignments_def list_all_iff)
  have "cs_phase st = specPhase run now timeout jobs" using st(1) by (rule statusFor_phase)
  moreover have "reported run" using assms(7) by (simp add: reported_def list_all_iff)
  moreover have "\<not> (\<exists>(n, job) \<in> set jobs. jobFailed job)" "\<forall>(n, job) \<in> set jobs. jobSucceeded job"
    using assms(6) by auto
  ultimately have "cs_phase st = (if \<forall>p \<in> set (assignments run). assignmentPassed run p then CheckRunSucceeded else CheckRunFailed)"
    using assms(5) by (simp add: specPhase_def)
  then show ?thesis using st(2) unfolding all by blast
qed

section \<open>An example\<close>

text \<open>Entries as JSON, with their results in full.\<close>

definition encode_result :: "CheckResult \<Rightarrow> json" where
  "encode_result r = JArr
     [JStr (res_Name r), JBool (res_Passed r), JStr (observed_string (res_Observed r)), JInt (res_Attempts r),
      JStr (res_Message r), JArr (case res_Duration r of None \<Rightarrow> [] | Some d \<Rightarrow> [JInt d])]"

definition reportPkgs :: pkgs where
  "reportPkgs = refPkgs\<lparr>p_pod_map := \<lambda>pod. Inr
     [(''podName'', JStr (pod_PodName pod)), (''checks'', JArr (map encode_result (pod_Checks pod)))]\<rparr>"

lemma encode_result_inj: "encode_result a = encode_result b \<Longrightarrow> a = b"
proof -
  have "observed_string x = observed_string y \<Longrightarrow> x = y" for x y by (cases x; cases y) simp_all
  then show "encode_result a = encode_result b \<Longrightarrow> a = b"
    by (cases a; cases b) (auto simp: encode_result_def split: option.splits)
qed

lemma reportPkgs_keeps: "keeps_results reportPkgs"
proof -
  have "inj (map encode_result)" using encode_result_inj by (simp add: inj_on_def)
  then have "map encode_result xs = map encode_result ys \<Longrightarrow> xs = ys" for xs ys by (rule injD)
  then show ?thesis by (auto simp: keeps_results_def reportPkgs_def)
qed

text \<open>The pod of the sample runner reports, and the run with its report is looked at.\<close>

lemma sample_report:
  obtains pod where "reported_by scriptNet guardedOpts (sampleRun ''demo'' CheckRunRunning [pod]) ''zone-a'' pod"
proof -
  let ?read = "sampleRun ''demo'' CheckRunRunning []"
  have names: "cfg_RunnerName podConfig = ''zone-a''" by (simp add: podConfig_def)
  have "fst (Run (podKube ?read) reportPkgs plainOnError scriptNet (standardRegistry scriptNet guardedOpts)
      inOrder podConfig webCtx) = RunOk"
    by (rule Run_ok [OF plain.retrier_axioms script.guarded_network_axioms]) (simp_all add: reportPkgs_def)
  then obtain t where r: "Run (podKube ?read) reportPkgs plainOnError scriptNet (standardRegistry scriptNet guardedOpts)
      inOrder podConfig webCtx = (RunOk, t)" by (metis prod.collapse)
  obtain run results pod doc probes n where
    e: "BuildApplyDocument reportPkgs (cfg_Namespace podConfig) (cfg_CheckRunName podConfig) (cfg_RunnerName podConfig) pod = Inr doc"
      "1 \<le> n" "acts t = acts webCtx @ [Req (GetRun (cfg_Namespace podConfig, cfg_CheckRunName podConfig))] @ probes
        @ replicate n (report_action podConfig doc)"
    by (rule Run_ok_trace [OF plain.retrier_axioms script.guarded_network_axioms inOrder_schedules r])
  have l: "List.last (acts t) = Req (ApplyRunStatus doc (cfg_PodName podConfig))"
    using e(2,3) by (simp add: report_action_def)
  have "reported_by scriptNet guardedOpts (sampleRun ''demo'' CheckRunRunning [pod]) ''zone-a'' pod"
    unfolding reported_by_def
    by (intro exI [of _ "podKube ?read"] exI [of _ reportPkgs] exI [of _ plainOnError] exI [of _ inOrder]
          exI [of _ podConfig] exI [of _ webCtx] exI [of _ t] exI [of _ ?read] exI [of _ doc] conjI)
      (use plain.retrier_axioms inOrder_schedules reportPkgs_keeps names r l e(1) in \<open>simp_all add: sampleRun_def\<close>)
  then show thesis by (rule that)
qed

theorem verdict_reflects_observations_witness:
  "\<exists>pod st t. writes refPkgs (sampleRun ''demo'' CheckRunRunning [pod]) st (sampleCluster Minute [] (sampleSuite AllowConcurrent '''') []) t
     \<and> cs_phase st = (if list_all2 as_expected [webSpec] (pod_Checks pod) then CheckRunSucceeded else CheckRunFailed)"
proof -
  obtain pod where pod: "reported_by scriptNet guardedOpts (sampleRun ''demo'' CheckRunRunning [pod]) ''zone-a'' pod"
    by (rule sample_report)
  let ?run = "sampleRun ''demo'' CheckRunRunning [pod]"
  let ?s = "sampleCluster Minute [] (sampleSuite AllowConcurrent '''') []"
  obtain d t where r: "reconcileJobs clusterKube refPkgs ?run Minute (10 * Minute) [(''zone-a'', completeJob)] ?s = (Inr d, t)"
    using server.reconcileJobs_ok by (metis prod.collapse)
  have run: "tpl_Runners (run_Template ?run) = [zoneRunner]" "rn_Name zoneRunner = ''zone-a''" "rn_Replicas zoneRunner = None"
    "podsByRunner ?run ''zone-a'' = [pod]" "st_StartTime (run_Status ?run) = Some 0"
    "assignedChecks ?run ''zone-a'' = [webSpec]"
    by (simp_all add: sampleRun_def webTemplate_def zoneRunner_def podsByRunner_def FilterChecks_def webSpec_def)
  have valid: "valid_template (run_Template ?run)" using webTemplate_valid by (simp add: sampleRun_def)
  have job: "jobSucceeded completeJob \<and> \<not> jobFailed completeJob"
    by (simp add: completeJob_def jobSucceeded_def jobFailed_def)
  have order: "ranges (p_range_jobs refPkgs)" by simp
  from verdict_reflects_observations [OF order script.guarded_network_axioms valid r, of guardedOpts]
  have "\<exists>st. writes refPkgs ?run st ?s t \<and>
      cs_phase st = (if list_all2 as_expected [webSpec] (pod_Checks pod) then CheckRunSucceeded else CheckRunFailed)"
    using run pod job by (simp add: time_add_def)
  then show ?thesis by blast
qed

end
