(* ===== verification/Spec2Isabelle.thy ===== *)
theory Spec2Isabelle
  imports Runner_Properties CheckRun_Properties CheckSuite_Properties Admission_Properties Cmd_Properties
    Lifecycle_Properties Suite_History_Properties Manager_Properties Suite_Loop_Properties Registration_Properties Deep_Copy_Properties End_To_End
begin

text \<open>
  verikube, a Kubernetes operator that runs connectivity checks from inside a cluster.

  A CheckSuite describes runners (sets of pods with scheduling constraints) and checks (TCP, HTTP
  and gRPC probes with an expected outcome). The suite controller creates CheckRuns from it, on a
  cron schedule and when the annotation \<open>verikube.dev/run-now\<close> changes. The run controller
  creates one Job per runner for a CheckRun. A pod of the Job runs the same binary as \<open>runner\<close>: it
  executes the checks assigned to its runner and applies its results to the status of the run. The
  run controller aggregates them into a verdict. All parts interact through objects on the API server only.

  \<^bold>\<open>Theories and sources.\<close> \<open>Go_Prelude\<close>, \<open>Sha256\<close>, \<open>Go_Net\<close> and \<open>Go_Flag\<close> hold what is used of Go's
  standard library. \<open>Names\<close> is \<open>internal/controller/names.go\<close>. \<open>Api_Types\<close> has the structs of
  \<open>api/v1alpha1\<close> as records, and \<open>Admission\<close> their validation markers as predicates. \<open>Kube_Api\<close> is
  the boundary: the API client and the library packages as parameters (\<open>kube\<close>, \<open>pkgs\<close>), and the
  actions a handler has taken. \<open>Checker\<close> is \<open>internal/checker\<close> (\<open>guard.go\<close>, \<open>tcp.go\<close>, \<open>http.go\<close>,
  \<open>grpc.go\<close>, \<open>checker.go\<close>); \<open>Runner\<close> is \<open>internal/runner\<close> (\<open>runner.go\<close>, \<open>report.go\<close>, \<open>main.go\<close> after its
  flags); \<open>Metrics\<close> is \<open>internal/metrics\<close>; \<open>CheckRun_Controller\<close> and \<open>CheckSuite_Controller\<close> are the
  two reconcilers of \<open>internal/controller\<close>; \<open>Cmd\<close> is \<open>cmd/main.go\<close> with the flags of the runner.
  \<open>Lifecycle\<close> puts passes of the run controller, reports of pods and edits together into histories
  of a run, and \<open>Suite_History\<close> those of the suite controller and edits into histories of a suite;
  \<open>Manager\<close> has the \<open>SetupWithManager\<close> of both and the loop of controller-runtime around them (requests,
  timers, changes of the world), \<open>Manager_Runs\<close> and \<open>Manager_Suites\<close> what each controller guarantees in it, \<open>Suite_Loop\<close> which passes
  over a suite lead to another one,
  \<open>Whole_System\<close> the two at work on one world, and \<open>Registration\<close> the registration of kinds and collectors at start-up;
  \<open>Cached_Reads\<close> has the histories of a run that is read through a cache, and
  \<open>End_To_End\<close> goes from the probes to the verdict. \<open>Cluster\<close> and \<open>Status_Server\<close> give a small API server on which every contract is
  interpreted. \<open>Deep_Copy\<close> is \<open>api/v1alpha1/zz_generated.deepcopy.go\<close> over the memory model of \<open>Go_Memory\<close>.
  The theories named \<open>..._Properties\<close> state the properties; this theory has those that
  span the controller and the runners.

  \<^bold>\<open>State and operations.\<close> A definition has the name of the Go function it translates, or names the
  block of a long function (\<open>reconcileJobs\<close>, \<open>fireTick\<close>); struct fields have a short prefix
  (\<open>st_Phase\<close>, \<open>rn_Name\<close>). A handler takes a context, the world and the actions so far, and returns a
  sum (\<open>Inl\<close> the error that controller-runtime retries, \<open>Inr\<close> the \<open>RequeueAfter\<close>) with the new context;
  every early return is a branch. A nil pointer is \<open>None\<close>, a Go map a HOL map, or an association list
  where the order of iteration can be seen; that order is a parameter. Instants and durations are
  integers of nanoseconds, with 64-bit saturation and wrap-around where Go has them. Messages are format
  calls with their arguments.

  \<^bold>\<open>Interfaces.\<close> What a library promises is a locale, interpreted on the sample server or on a
  model of the library: \<open>condition_list\<close> (\<open>meta.SetStatusCondition\<close>), \<open>object_store\<close> with \<open>job_store\<close> and
  \<open>run_store\<close> (get and create), \<open>run_server\<close> and \<open>suite_server\<close> (a server that answers), \<open>run_frame\<close> with \<open>run_state\<close>
  (server-side apply of a status, reads being current) and \<open>cached_state\<close> (the same with reads through a cache), \<open>suite_state\<close> (a status update that is refused when the version read is
  not the stored one), \<open>run_manager\<close>, \<open>suite_manager\<close>, \<open>run_loop\<close> and \<open>suite_loop\<close> (these with current reads), \<open>watched\<close> (the obligation of a
  reconciler in the loop of the manager), \<open>scheme_library\<close> and \<open>registerer\<close> (registration), \<open>gauge_registry\<close> (Prometheus), \<open>schedule\<close> (cron), \<open>run_sorter\<close>
  (\<open>slices.SortFunc\<close>), \<open>retrier\<close> (\<open>retry.OnError\<close>), \<open>guarded_network\<close> (the dialer runs its Control hook),
  \<open>schedules\<close>, a predicate (\<open>errgroup\<close>: every goroutine ends once, and no more are under way than the limit),
  \<open>external_copies\<close> (the copy functions of library types).

  \<^bold>\<open>What is shown.\<close> Of the run controller: what one pass writes is the specified phase; the counts
  are those of the assigned pairs of runner and check; its actions are confined whatever the server
  answers; missing account, deadline and failed Job end a run. Of whole histories: the stored status is
  consistent, a run terminates, and it only moves forward as long as the passes that go on with it have read the last status the
  controller has stored, while a pass on a copy from before the verdict reopens it. Of the suite controller: which runs a pass
  creates and deletes, that a tick is handled once and, while the schedules of the suite go on, over any
  history never again, even by passes on older versions of the suite, that history keeps the newest runs, that creation
  is idempotent. Of the loop of the manager: when a controller has caught up, no run and no suite has been
  forgotten, whatever has changed between and during the passes and however often they have failed, and when both
  have, the active lists of the suites are exact (for suites whose schedule goes on; one that never fires is due forever); a second pass over a run changes nothing, nor does a third over a suite
  when the runs are listed in the same order, while another order brings a settled suite back at once. Of the runner: every connect is permitted by the guard, results are those of the
  last attempt, reports are complete, the exit code ignores verdicts, all checks are executed and
  no more at a time than the configured maximum. Across parts: the verdict is Succeeded exactly if all last observations are the expected ones, the two writers never touch the same field, the assignment survives the Job,
  reports and names meet the limits of the API (with the exceptions that are stated), the operator's flags
  reach the pods, the schemes recognise every kind in use and the collectors fit every operation. Of the generated copies: a copy equals its original and shares nothing with it, so the
  handlers of the other theories may treat a deep copy as the value itself.

  \<^bold>\<open>Bounds and fuel.\<close> The scan for missed ticks is a recursion on the number of ticks that may still be
  counted, 80 (\<open>maxMissedScans\<close>), which is the source's own cap. The retry loop counts its attempts down.
  A report is tried at most eight times, the steps of the source's backoff. All other recursions are
  structural. The order in which the goroutines of a runner start and end is a parameter, as errgroup is a library; the
  checks are executed one after the other in the order in which they end. The counters of a summary are integers instead of \<open>int32\<close>; with at
  most 16 runners and 128 checks they stay below 2049 (\<open>summary_fits_int32\<close>).

  \<^bold>\<open>Not modelled.\<close> Log lines, RBAC and the Helm chart are calls into libraries or data. In \<open>Manager\<close> a pass reads
  the stored objects, changes take effect between passes, and a delete removes the object at once, without finalizers. Concurrency is modelled between passes and between checks, not inside a
  call on the API server. In \<open>Suite_History\<close> a pass may read any version of the suite there has been and in \<open>Cached_Reads\<close> any copy of the run;
  in \<open>Lifecycle\<close> and in the loops of the manager a pass reads what is stored. An update of the status leaves the metadata of a run as it is; the new
  resource version is not modelled, as nothing the run controller does depends on it.
  A cron schedule is a function \<open>Next\<close> with the contract of the property at hand: \<open>schedule\<close> (a set of ticks) for the scan and
  for one tick, \<open>ticking\<close> (a later time is found, which holds for cron fields and for \<open>@every\<close>) over histories, and
  the zero time for a schedule that never fires.
  The deadline of a request is inside the network parameter. \<open>LastTransitionTime\<close> of conditions is left out.
\<close>

section \<open>The controller and the runners share one status\<close>

text \<open>C24: the two writers of the status of a run never write the same field: the document a runner pod
  applies sets the field \<open>runners\<close> and nothing else, and the document the controller applies
  sets every other field of the converted status and never that one.\<close>

theorem status_writers_disjoint:
  assumes "BuildApplyDocument P namespace name runnerName pod = Inr doc"
  shows "status_fields doc = {''runners''}
    \<and> status_fields (statusDocument run m) = fst ` set m - {''runners''}
    \<and> status_fields doc \<inter> status_fields (statusDocument run m) = {}"
  using status_fields_runner [OF assms] status_fields_controller [of run m] by simp

theorem status_writers_disjoint_witness:
  "\<exists>doc. BuildApplyDocument refPkgs ''prod'' ''demo'' ''zone-a'' (webPod True) = Inr doc
     \<and> status_fields doc = {''runners''}"
proof -
  obtain doc where doc: "BuildApplyDocument refPkgs ''prod'' ''demo'' ''zone-a'' (webPod True) = Inr doc"
    by (simp add: BuildApplyDocument_def refPkgs_def)
  with status_writers_disjoint [OF doc] show ?thesis by blast
qed

section \<open>From the Job to the runner\<close>

text \<open>
  The environment of a container as the kubelet sets it up: a variable has its value, or the field
  of the pod that its reference names.
\<close>

definition runs_with :: "Container \<Rightarrow> string \<Rightarrow> string \<Rightarrow> (string \<Rightarrow> string) \<Rightarrow> bool" where
  "runs_with c podName nodeName getenv \<longleftrightarrow> (\<forall>v \<in> set (ctr_Env c). getenv (env_Name v) =
     (case env_FieldPath v of
        None \<Rightarrow> env_Value v
      | Some path \<Rightarrow> if path = ''metadata.name'' then podName else if path = ''spec.nodeName'' then nodeName else ''''))"

text \<open>C20: the assignment survives the way through the Job: a pod of the Job built for a runner of a
  run, whatever its node, reads back the run, the namespace and the runner the Job was built for
  and its own name.\<close>

theorem assignment_round_trip:
  assumes "\<And>j. p_own_job P run j = Inr (own j)" and "\<And>j. job_Spec (own j) = job_Spec j"
    and "buildJob P r run rn timeout = Inr job"
    and "c \<in> set (ps_Containers (js_PodSpec (job_Spec job)))" and "runs_with c podName nodeName getenv"
    and "run_Name run \<noteq> ''''" and "run_Namespace run \<noteq> ''''" and "rn_Name rn \<noteq> ''''" and "podName \<noteq> ''''"
  shows "ConfigFromEnv getenv = Inr \<lparr>cfg_CheckRunName = run_Name run, cfg_Namespace = run_Namespace run,
    cfg_RunnerName = rn_Name rn, cfg_PodName = podName, cfg_NodeName = nodeName, cfg_MaxConcurrentChecks = 0\<rparr>"
proof -
  have "c = runnerContainer r run rn"
    using assms(3,4) by (auto simp: buildJob_def Let_def assms(1,2))
  then have "getenv EnvCheckRunName = run_Name run" "getenv EnvCheckRunNamespace = run_Namespace run"
    "getenv EnvRunnerName = rn_Name rn" "getenv EnvPodName = podName" "getenv EnvNodeName = nodeName"
    using assms(5) by (simp_all add: runs_with_def runnerContainer_def)
  then show ?thesis using assms(6-9) by (simp add: ConfigFromEnv_def Let_def)
qed

theorem assignment_round_trip_witness:
  "\<exists>job. buildJob refPkgs sampleReconciler (sampleRun ''demo'' CheckRunPending []) zoneRunner Minute = Inr job
     \<and> ConfigFromEnv podEnv = Inr podConfig"
proof -
  let ?run = "sampleRun ''demo'' CheckRunPending []"
  let ?own = "\<lambda>j. j\<lparr>job_Meta := (job_Meta j)\<lparr>om_Controller := Some (runOwner ?run)\<rparr>\<rparr>"
  obtain job where job: "buildJob refPkgs sampleReconciler ?run zoneRunner Minute = Inr job"
    by (simp add: buildJob_def Let_def)
  then have c: "runnerContainer sampleReconciler ?run zoneRunner \<in> set (ps_Containers (js_PodSpec (job_Spec job)))"
    by (auto simp: buildJob_def Let_def)
  have "runs_with (runnerContainer sampleReconciler ?run zoneRunner) ''demo-zone-a-x'' '''' podEnv"
    by (simp add: runs_with_def runnerContainer_def podEnv_def sampleRun_def newMeta_def zoneRunner_def
        EnvCheckRunName_def EnvCheckRunNamespace_def EnvRunnerName_def EnvPodName_def EnvNodeName_def)
  from assignment_round_trip [of refPkgs ?run ?own, OF _ _ job c this] job
  show ?thesis by (simp add: podConfig_def sampleRun_def newMeta_def zoneRunner_def)
qed

end
